(* ===== verification/Go_Prelude.thy ===== *)
theory Go_Prelude
  imports Main "HOL-Library.Word" "HOL-Library.Multiset"
begin

text \<open>
  The part of the Go language and of its standard library that the probe's sources use, and the
  lemmas the component theories share.

  \<^item> A Go call that may return an error and may also panic is a value of \<open>('e, 'a) outcome\<close>:
    \<open>Ok v\<close>, \<open>Err e\<close> (the \<open>error\<close> result) or \<open>Panic\<close> (an index or slice expression out of range,
    a failed type assertion, a close of a closed channel, a \<open>make\<close> with a bad size).
    \<open>obind\<close> is the sequencing of statements: the rest runs only after an \<open>Ok\<close>.
  \<^item> \<open>[]byte\<close> is a list of \<open>8 word\<close>; a Go string, which is a sequence of bytes, is a HOL
    \<^typ>\<open>string\<close> (a HOL character is exactly one byte).  \<open>go_index\<close>, \<open>go_slice\<close> and \<open>go_from\<close> are
    \<open>data[i]\<close>, \<open>data[a:b]\<close> and \<open>data[a:]\<close>.  The capacity of a slice is taken to be its length; in
    the sources every slice expression with \<open>a \<le> b\<close> is guarded by the length, so the difference
    never shows.
  \<^item> Offsets and lengths are \<open>nat\<close> where the sources cannot overflow a 64-bit \<open>int\<close> (they are
    bounded by the length of a slice plus a few 32-bit quantities), and machine words where they can.
  \<^item> \<open>encoding/binary\<close>, \<open>strings\<close> and \<open>strconv\<close> are modelled by the functions below, with the
    shifts and disjunctions of the Go library's own definitions.
\<close>

unbundle bit_operations_syntax

section \<open>Outcomes\<close>

datatype ('e, 'a) outcome = Ok 'a | Err 'e | Panic

named_theorems go_simps \<open>rewrite rules for slices, byte orders and strings\<close>

primrec obind :: "('e, 'a) outcome \<Rightarrow> ('a \<Rightarrow> ('e, 'b) outcome) \<Rightarrow> ('e, 'b) outcome" where
  "obind (Ok v) k = k v"
| "obind (Err e) k = Err e"
| "obind Panic k = Panic"

primrec map_err :: "('e \<Rightarrow> 'f) \<Rightarrow> ('e, 'a) outcome \<Rightarrow> ('f, 'a) outcome" where
  "map_err f (Ok v) = Ok v"
| "map_err f (Err e) = Err (f e)"
| "map_err f Panic = Panic"

lemma obind_eq_Ok_iff: "obind m k = Ok v \<longleftrightarrow> (\<exists>u. m = Ok u \<and> k u = Ok v)"
  by (cases m) auto

lemma obind_eq_Panic_iff: "obind m k = Panic \<longleftrightarrow> m = Panic \<or> (\<exists>u. m = Ok u \<and> k u = Panic)"
  by (cases m) auto

lemma obind_eq_Err_iff: "obind m k = Err e \<longleftrightarrow> m = Err e \<or> (\<exists>u. m = Ok u \<and> k u = Err e)"
  by (cases m) auto

lemma obind_assoc: "obind (obind m k) l = obind m (\<lambda>x. obind (k x) l)"
  by (cases m) auto

lemma map_err_eq_iff [simp]:
  "map_err f m = Ok v \<longleftrightarrow> m = Ok v"
  "map_err f m = Panic \<longleftrightarrow> m = Panic"
  by (cases m; simp)+

lemmas obind_iffs = obind_eq_Ok_iff obind_eq_Panic_iff obind_eq_Err_iff

section \<open>Byte slices\<close>

type_synonym byte = "8 word"
type_synonym bytes = "byte list"

definition go_index :: "'a list \<Rightarrow> nat \<Rightarrow> ('e, 'a) outcome" where
  "go_index xs i = (if i < length xs then Ok (xs ! i) else Panic)"

definition go_slice :: "'a list \<Rightarrow> nat \<Rightarrow> nat \<Rightarrow> ('e, 'a list) outcome" where
  "go_slice xs a b = (if a \<le> b \<and> b \<le> length xs then Ok (take (b - a) (drop a xs)) else Panic)"

definition go_from :: "'a list \<Rightarrow> nat \<Rightarrow> ('e, 'a list) outcome" where
  "go_from xs a = (if a \<le> length xs then Ok (drop a xs) else Panic)"

lemma go_index_ok [simp, go_simps]: "i < length xs \<Longrightarrow> go_index xs i = Ok (xs ! i)"
  by (simp add: go_index_def)

lemma go_slice_ok [simp, go_simps]:
  "a \<le> b \<Longrightarrow> b \<le> length xs \<Longrightarrow> go_slice xs a b = Ok (take (b - a) (drop a xs))"
  by (simp add: go_slice_def)

lemma go_from_ok [simp, go_simps]: "a \<le> length xs \<Longrightarrow> go_from xs a = Ok (drop a xs)"
  by (simp add: go_from_def)

lemma go_index_eq_iff:
  "go_index xs i = Ok v \<longleftrightarrow> i < length xs \<and> v = xs ! i"
  "go_index xs i = Panic \<longleftrightarrow> length xs \<le> i"
  "go_index xs i \<noteq> Err e"
  by (auto simp: go_index_def)

lemma go_slice_eq_iff:
  "go_slice xs a b = Ok v \<longleftrightarrow> a \<le> b \<and> b \<le> length xs \<and> v = take (b - a) (drop a xs)"
  "go_slice xs a b = Panic \<longleftrightarrow> b < a \<or> length xs < b"
  "go_slice xs a b \<noteq> Err e"
  by (auto simp: go_slice_def)

lemma go_from_eq_iff:
  "go_from xs a = Ok v \<longleftrightarrow> a \<le> length xs \<and> v = drop a xs"
  "go_from xs a = Panic \<longleftrightarrow> length xs < a"
  "go_from xs a \<noteq> Err e"
  by (auto simp: go_from_def)

lemmas go_slices = go_index_eq_iff go_slice_eq_iff go_from_eq_iff

section \<open>Byte orders: \<open>encoding/binary\<close>\<close>

text \<open>The definitions follow \<open>binary.BigEndian\<close> and \<open>binary.LittleEndian\<close>: widen every byte, shift
  it into place and join the results with a bitwise or.\<close>

definition be16 :: "byte \<Rightarrow> byte \<Rightarrow> 16 word" where
  "be16 b0 b1 = ucast b1 OR push_bit 8 (ucast b0)"

definition be32 :: "byte \<Rightarrow> byte \<Rightarrow> byte \<Rightarrow> byte \<Rightarrow> 32 word" where
  "be32 b0 b1 b2 b3 =
     ucast b3 OR push_bit 8 (ucast b2) OR push_bit 16 (ucast b1) OR push_bit 24 (ucast b0)"

definition be64 ::
  "byte \<Rightarrow> byte \<Rightarrow> byte \<Rightarrow> byte \<Rightarrow> byte \<Rightarrow> byte \<Rightarrow> byte \<Rightarrow> byte \<Rightarrow> 64 word" where
  "be64 b0 b1 b2 b3 b4 b5 b6 b7 =
     ucast b7 OR push_bit 8 (ucast b6) OR push_bit 16 (ucast b5) OR push_bit 24 (ucast b4) OR
     push_bit 32 (ucast b3) OR push_bit 40 (ucast b2) OR push_bit 48 (ucast b1) OR
     push_bit 56 (ucast b0)"

definition le16 :: "byte \<Rightarrow> byte \<Rightarrow> 16 word" where
  "le16 b0 b1 = be16 b1 b0"

definition le32 :: "byte \<Rightarrow> byte \<Rightarrow> byte \<Rightarrow> byte \<Rightarrow> 32 word" where
  "le32 b0 b1 b2 b3 = be32 b3 b2 b1 b0"

definition le64 ::
  "byte \<Rightarrow> byte \<Rightarrow> byte \<Rightarrow> byte \<Rightarrow> byte \<Rightarrow> byte \<Rightarrow> byte \<Rightarrow> byte \<Rightarrow> 64 word" where
  "le64 b0 b1 b2 b3 b4 b5 b6 b7 = be64 b7 b6 b5 b4 b3 b2 b1 b0"

text \<open>\<open>binary.BigEndian.Uint16(data[o:o+2])\<close> and its relatives: the slice expression panics when it
  runs past the data, the conversion cannot fail after it.\<close>

definition u16be_at :: "bytes \<Rightarrow> nat \<Rightarrow> ('e, 16 word) outcome" where
  "u16be_at d i = (if i + 2 \<le> length d then Ok (be16 (d ! i) (d ! (i + 1))) else Panic)"

definition u32be_at :: "bytes \<Rightarrow> nat \<Rightarrow> ('e, 32 word) outcome" where
  "u32be_at d i = (if i + 4 \<le> length d
     then Ok (be32 (d ! i) (d ! (i + 1)) (d ! (i + 2)) (d ! (i + 3))) else Panic)"

definition u64be_at :: "bytes \<Rightarrow> nat \<Rightarrow> ('e, 64 word) outcome" where
  "u64be_at d i = (if i + 8 \<le> length d
     then Ok (be64 (d ! i) (d ! (i + 1)) (d ! (i + 2)) (d ! (i + 3))
                   (d ! (i + 4)) (d ! (i + 5)) (d ! (i + 6)) (d ! (i + 7))) else Panic)"

definition u16le_at :: "bytes \<Rightarrow> nat \<Rightarrow> ('e, 16 word) outcome" where
  "u16le_at d i = (if i + 2 \<le> length d then Ok (le16 (d ! i) (d ! (i + 1))) else Panic)"

definition u32le_at :: "bytes \<Rightarrow> nat \<Rightarrow> ('e, 32 word) outcome" where
  "u32le_at d i = (if i + 4 \<le> length d
     then Ok (le32 (d ! i) (d ! (i + 1)) (d ! (i + 2)) (d ! (i + 3))) else Panic)"

definition u64le_at :: "bytes \<Rightarrow> nat \<Rightarrow> ('e, 64 word) outcome" where
  "u64le_at d i = (if i + 8 \<le> length d
     then Ok (le64 (d ! i) (d ! (i + 1)) (d ! (i + 2)) (d ! (i + 3))
                   (d ! (i + 4)) (d ! (i + 5)) (d ! (i + 6)) (d ! (i + 7))) else Panic)"

lemma word_at_ok [simp, go_simps]:
  "i + 2 \<le> length d \<Longrightarrow> u16be_at d i = Ok (be16 (d ! i) (d ! (i + 1)))"
  "i + 4 \<le> length d \<Longrightarrow> u32be_at d i = Ok (be32 (d ! i) (d ! (i + 1)) (d ! (i + 2)) (d ! (i + 3)))"
  "i + 8 \<le> length d \<Longrightarrow> u64be_at d i =
     Ok (be64 (d ! i) (d ! (i + 1)) (d ! (i + 2)) (d ! (i + 3))
              (d ! (i + 4)) (d ! (i + 5)) (d ! (i + 6)) (d ! (i + 7)))"
  "i + 2 \<le> length d \<Longrightarrow> u16le_at d i = Ok (le16 (d ! i) (d ! (i + 1)))"
  "i + 4 \<le> length d \<Longrightarrow> u32le_at d i = Ok (le32 (d ! i) (d ! (i + 1)) (d ! (i + 2)) (d ! (i + 3)))"
  "i + 8 \<le> length d \<Longrightarrow> u64le_at d i =
     Ok (le64 (d ! i) (d ! (i + 1)) (d ! (i + 2)) (d ! (i + 3))
              (d ! (i + 4)) (d ! (i + 5)) (d ! (i + 6)) (d ! (i + 7)))"
  by (simp_all add: u16be_at_def u32be_at_def u64be_at_def u16le_at_def u32le_at_def u64le_at_def)

lemma word_at_panic_iff:
  "u16be_at d i = Panic \<longleftrightarrow> length d < i + 2"
  "u32be_at d i = Panic \<longleftrightarrow> length d < i + 4"
  "u64be_at d i = Panic \<longleftrightarrow> length d < i + 8"
  "u16le_at d i = Panic \<longleftrightarrow> length d < i + 2"
  "u32le_at d i = Panic \<longleftrightarrow> length d < i + 4"
  "u64le_at d i = Panic \<longleftrightarrow> length d < i + 8"
  by (auto simp: u16be_at_def u32be_at_def u64be_at_def u16le_at_def u32le_at_def u64le_at_def)

lemma word_at_not_Err:
  "u16be_at d i \<noteq> Err e" "u32be_at d i \<noteq> Err e" "u64be_at d i \<noteq> Err e"
  "u16le_at d i \<noteq> Err e" "u32le_at d i \<noteq> Err e" "u64le_at d i \<noteq> Err e"
  by (auto simp: u16be_at_def u32be_at_def u64be_at_def u16le_at_def u32le_at_def u64le_at_def)

subsection \<open>Values of the byte orders\<close>

text \<open>The number a byte string stands for, least significant byte first, and the byte string of a
  number: the reference against which the shifts are checked.\<close>

primrec le_nat :: "bytes \<Rightarrow> nat" where
  "le_nat [] = 0"
| "le_nat (b # bs) = unat b + 256 * le_nat bs"

definition be_nat :: "bytes \<Rightarrow> nat" where
  "be_nat bs = le_nat (rev bs)"

primrec put_le :: "nat \<Rightarrow> nat \<Rightarrow> bytes" where
  "put_le 0 n = []"
| "put_le (Suc k) n = word_of_nat n # put_le k (n div 256)"

definition put_be :: "nat \<Rightarrow> nat \<Rightarrow> bytes" where
  "put_be k n = rev (put_le k n)"

lemma length_put [simp]: "length (put_le k n) = k" "length (put_be k n) = k"
  by (induction k arbitrary: n) (simp_all add: put_be_def)

lemma unat_byte_of_nat: "unat (word_of_nat n :: byte) = n mod 256"
  by (simp add: unat_of_nat)

lemma unat_byte_less: "unat (b :: byte) < 256"
  using unsigned_less [where 'a = nat, of b] by simp

lemma unat_byte_le: "unat (b :: byte) \<le> 255"
  using unat_byte_less [of b] by linarith

lemma le_nat_put_le: "n < 256 ^ k \<Longrightarrow> le_nat (put_le k n) = n"
proof (induction k arbitrary: n)
  case 0
  then show ?case by simp
next
  case (Suc k)
  then have "n div 256 < 256 ^ k" by (simp add: less_mult_imp_div_less mult.commute)
  then show ?case using Suc.IH by (simp add: unat_byte_of_nat)
qed

lemma be_nat_put_be: "n < 256 ^ k \<Longrightarrow> be_nat (put_be k n) = n"
  by (simp add: be_nat_def put_be_def le_nat_put_le)

lemma put_le_le_nat: "put_le (length bs) (le_nat bs) = bs"
proof (induction bs)
  case Nil
  then show ?case by simp
next
  case (Cons b bs)
  have "word_of_nat (unat b + 256 * le_nat bs) = b"
    unfolding word_unat_eq_iff unat_byte_of_nat using unat_byte_less [of b] by simp
  moreover have "(unat b + 256 * le_nat bs) div 256 = le_nat bs"
    using unat_byte_less [of b] by simp
  ultimately show ?case using Cons by simp
qed

lemma put_be_be_nat: "put_be (length bs) (be_nat bs) = bs"
  using put_le_le_nat [of "rev bs"] by (simp add: put_be_def be_nat_def)

lemma le_nat_less: "le_nat bs < 256 ^ length bs"
proof (induction bs)
  case Nil
  then show ?case by simp
next
  case (Cons b bs)
  then have "Suc (le_nat bs) \<le> 256 ^ length bs" by simp
  with unat_byte_less [of b] show ?case by simp
qed

lemma unat_or_shifted:
  fixes x y :: "'a::len word"
  assumes "unat x < 2 ^ k" and "2 ^ k dvd unat y"
  shows "unat (x OR y) = unat x + unat y"
proof -
  have "unat x AND unat y = 0"
  proof (rule bit_eqI)
    fix n
    from assms(1) have "bit (unat x) n \<Longrightarrow> n < k"
      by (metis bit_take_bit_iff take_bit_nat_eq_self)
    moreover from assms(2) have "bit (unat y) n \<Longrightarrow> k \<le> n"
      by (metis bit_push_bit_iff dvd_def mult.commute push_bit_eq_mult)
    ultimately show "bit (unat x AND unat y) n \<longleftrightarrow> bit (0 :: nat) n"
      by (auto simp: bit_and_iff)
  qed
  then have "unat x + unat y = unat x OR unat y"
    by (rule disjunctive_add_eq_or)
  then show ?thesis by (simp add: unsigned_or_eq)
qed

lemma unat_push_byte:
  "k + 8 \<le> LENGTH('a::len) \<Longrightarrow> unat (push_bit k (ucast (b :: byte)) :: 'a word) = unat b * 2 ^ k"
proof -
  assume k: "k + 8 \<le> LENGTH('a)"
  have "unat b * 2 ^ k < 2 ^ 8 * 2 ^ k"
    using unat_byte_less [of b] by simp
  also have "\<dots> = 2 ^ (k + 8)" by (simp add: power_add)
  also have "\<dots> \<le> 2 ^ LENGTH('a)"
    using k by (rule power_increasing) simp
  finally have "unat b * 2 ^ k < 2 ^ LENGTH('a)" .
  moreover have "unat b < 2 ^ LENGTH('a)"
  proof -
    have "(2::nat) ^ 8 \<le> 2 ^ LENGTH('a)" using k by (intro power_increasing) simp_all
    with unat_byte_less [of b] show ?thesis by simp
  qed
  ultimately show ?thesis
    by (simp only: unsigned_push_bit_eq unsigned_ucast_eq)
       (simp add: push_bit_eq_mult take_bit_nat_eq_self)
qed

lemma unat_ucast_byte:
  "8 \<le> LENGTH('a::len) \<Longrightarrow> unat (ucast (b :: byte) :: 'a word) = unat b"
  using unat_push_byte [of 0 b, where 'a = 'a] by simp

text \<open>A byte moved to position \<open>k\<close> and joined with a word that has no bit below \<open>k + 8\<close>.\<close>

lemma unat_or_byte:
  assumes "k + 8 \<le> LENGTH('a::len)" and "2 ^ (k + 8) dvd unat (y :: 'a word)"
  shows "unat (push_bit k (ucast (b :: byte)) OR y) = unat b * 2 ^ k + unat y"
proof -
  have "unat b * 2 ^ k < 2 ^ (k + 8)"
    using unat_byte_less [of b] by (simp add: power_add)
  with assms show ?thesis
    by (subst unat_or_shifted [where k = "k + 8"]) (simp_all add: unat_push_byte)
qed

lemma unat_or_byte0:
  assumes "8 \<le> LENGTH('a::len)" and "256 dvd unat (y :: 'a word)"
  shows "unat (ucast (b :: byte) OR y) = unat b + unat y"
  using unat_or_byte [of 0 y b] assms by simp

lemma unat_be16: "unat (be16 b0 b1) = be_nat [b0, b1]"
  by (simp add: be16_def unat_or_byte0 unat_push_byte be_nat_def)

lemma unat_be32: "unat (be32 b0 b1 b2 b3) = be_nat [b0, b1, b2, b3]"
proof -
  have 3: "unat (push_bit 24 (ucast b0) :: 32 word) = unat b0 * 2 ^ 24"
    by (simp add: unat_push_byte)
  show ?thesis unfolding be32_def
    by (subst unat_or_byte0 | subst unat_or_byte | subst 3 | simp add: 3 unat_or_byte)+
       (simp add: be_nat_def)
qed

lemma unat_be64: "unat (be64 b0 b1 b2 b3 b4 b5 b6 b7) = be_nat [b0, b1, b2, b3, b4, b5, b6, b7]"
proof -
  have 7: "unat (push_bit 56 (ucast b0) :: 64 word) = unat b0 * 2 ^ 56"
    by (simp add: unat_push_byte)
  show ?thesis unfolding be64_def
    by (subst unat_or_byte0 | subst unat_or_byte | subst 7 | simp add: 7 unat_or_byte)+
       (simp add: be_nat_def)
qed

lemma unat_le:
  "unat (le16 b0 b1) = le_nat [b0, b1]"
  "unat (le32 b0 b1 b2 b3) = le_nat [b0, b1, b2, b3]"
  "unat (le64 b0 b1 b2 b3 b4 b5 b6 b7) = le_nat [b0, b1, b2, b3, b4, b5, b6, b7]"
  by (simp_all add: le16_def le32_def le64_def unat_be16 unat_be32 unat_be64 be_nat_def)

lemmas unat_be = unat_be16 unat_be32 unat_be64

lemma put_be_words:
  "put_be 2 (unat (be16 a b)) = [a, b]"
  "put_be 4 (unat (be32 a b c d)) = [a, b, c, d]"
  using put_be_be_nat [of "[a, b]"] put_be_be_nat [of "[a, b, c, d]"]
  by (simp_all add: unat_be del: One_nat_def add: numeral_2_eq_2 [symmetric] eval_nat_numeral(3) [symmetric])

lemma put_be_3: "put_be 3 n = [word_of_nat (n div 256 div 256), word_of_nat (n div 256), word_of_nat n]"
  by (simp add: put_be_def numeral_3_eq_3)

subsection \<open>Reading back what was written\<close>

text \<open>Facts about a field that lies between two known parts of the data: the form in which the
  round-trip proofs of the parsers use the readers.\<close>

lemma go_index_append: "i = length xs \<Longrightarrow> go_index (xs @ b # ys) i = Ok b"
  by (simp add: nth_append)

lemma go_slice_append:
  "i = length xs \<Longrightarrow> j = i + length ms \<Longrightarrow> go_slice (xs @ ms @ ys) i j = Ok ms"
  by simp

lemma go_slice_append_end:
  "i = length xs \<Longrightarrow> j = i + length ms \<Longrightarrow> go_slice (xs @ ms) i j = Ok ms"
  by simp

lemma unat_lt_256:
  "unat (w :: 16 word) < 256 ^ 2" "unat (v :: 32 word) < 256 ^ 4" "unat (u :: 64 word) < 256 ^ 8"
  using unsigned_less [where 'a = nat, of w] unsigned_less [where 'a = nat, of v]
    unsigned_less [where 'a = nat, of u]
  by simp_all

lemma list_nths:
  "length xs = 2 \<Longrightarrow> [xs ! 0, xs ! 1] = xs"
  "length xs = 3 \<Longrightarrow> [xs ! 0, xs ! 1, xs ! 2] = xs"
  "length xs = 4 \<Longrightarrow> [xs ! 0, xs ! 1, xs ! 2, xs ! 3] = xs"
  "length xs = 8 \<Longrightarrow> [xs ! 0, xs ! 1, xs ! 2, xs ! 3, xs ! 4, xs ! 5, xs ! 6, xs ! 7] = xs"
  by (auto simp: numeral_eq_Suc length_Suc_conv)

lemma le_put:
  fixes w :: "16 word" and v :: "32 word" and u :: "64 word"
  defines "xs \<equiv> put_le 2 (unat w)" and "ys \<equiv> put_le 4 (unat v)" and "zs \<equiv> put_le 8 (unat u)"
  shows "le16 (xs ! 0) (xs ! 1) = w"
    and "le32 (ys ! 0) (ys ! 1) (ys ! 2) (ys ! 3) = v"
    and "le64 (zs ! 0) (zs ! 1) (zs ! 2) (zs ! 3) (zs ! 4) (zs ! 5) (zs ! 6) (zs ! 7) = u"
  by (simp_all only: word_unat_eq_iff unat_le list_nths length_put le_nat_put_le unat_lt_256
      xs_def ys_def zs_def)

lemma be_put:
  fixes w :: "16 word" and v :: "32 word" and u :: "64 word"
  defines "xs \<equiv> put_be 2 (unat w)" and "ys \<equiv> put_be 4 (unat v)" and "zs \<equiv> put_be 8 (unat u)"
  shows "be16 (xs ! 0) (xs ! 1) = w"
    and "be32 (ys ! 0) (ys ! 1) (ys ! 2) (ys ! 3) = v"
    and "be64 (zs ! 0) (zs ! 1) (zs ! 2) (zs ! 3) (zs ! 4) (zs ! 5) (zs ! 6) (zs ! 7) = u"
  by (simp_all only: word_unat_eq_iff unat_be list_nths length_put be_nat_put_be unat_lt_256
      xs_def ys_def zs_def)

lemmas put_nths = le_put [simplified] be_put [simplified]

lemma nth_append_len: "(xs @ ys) ! length xs = ys ! 0" "(xs @ ys) ! (length xs + j) = ys ! j"
  by (simp_all add: nth_append)

lemma le_at_append:
  "i = length xs \<Longrightarrow> u16le_at (xs @ put_le 2 (unat w) @ ys) i = Ok w"
  "i = length xs \<Longrightarrow> u32le_at (xs @ put_le 4 (unat v) @ ys) i = Ok v"
  "i = length xs \<Longrightarrow> u64le_at (xs @ put_le 8 (unat u) @ ys) i = Ok u"
  by (simp_all add: nth_append_len nth_append le_put [simplified])

lemma be_at_append:
  "i = length xs \<Longrightarrow> u16be_at (xs @ put_be 2 (unat w) @ ys) i = Ok w"
  "i = length xs \<Longrightarrow> u32be_at (xs @ put_be 4 (unat v) @ ys) i = Ok v"
  "i = length xs \<Longrightarrow> u64be_at (xs @ put_be 8 (unat u) @ ys) i = Ok u"
  by (simp_all add: nth_append_len nth_append be_put [simplified])

end
