(* ===== verification/Go_Strings.thy ===== *)
theory Go_Strings
  imports Go_Prelude
begin

text \<open>
  Go strings: the conversion between byte slices and strings, and the functions of \<open>strings\<close>,
  \<open>strconv\<close> and \<open>fmt\<close> that the sources call.  White space is Unicode white space, recognised on the
  bytes of its UTF-8 encoding.  \<open>strings.ToUpper\<close> is modelled on ASCII input; the mapping of other
  input needs the Unicode tables and is the parameter \<open>uni\<close> of \<open>ToUpper\<close>.
\<close>

section \<open>Bytes and strings\<close>

definition gostr :: "bytes \<Rightarrow> string" where
  "gostr = map (\<lambda>b. char_of (unat b))"

definition bytes_of :: "string \<Rightarrow> bytes" where
  "bytes_of = map of_char"

lemma length_gostr [simp]: "length (gostr bs) = length bs" "length (bytes_of s) = length s"
  by (simp_all add: gostr_def bytes_of_def)

lemma gostr_append [simp]:
  "gostr (xs @ ys) = gostr xs @ gostr ys" "gostr [] = []"
  "gostr (x # xs) = char_of (unat x) # gostr xs"
  "bytes_of (s @ t) = bytes_of s @ bytes_of t" "bytes_of [] = []"
  "bytes_of (c # s) = of_char c # bytes_of s"
  by (simp_all add: gostr_def bytes_of_def)

lemma char_of_byte: "char_of (unat (of_char c :: byte)) = c"
proof -
  have "of_char c < (256 :: nat)" by simp
  then have "unat (of_char c :: byte) = of_char c"
    by (metis unat_byte_of_nat mod_less of_nat_of_char)
  then show ?thesis by simp
qed

lemma byte_of_char_nat [simp]: "(of_char (char_of (n :: nat)) :: byte) = word_of_nat n"
proof -
  have "(of_char (char_of n) :: byte) = word_of_nat (of_char (char_of n))"
    by (simp only: of_nat_of_char)
  also have "\<dots> = word_of_nat (n mod 256)" by (simp add: of_char_of)
  finally show ?thesis by (simp add: word_unat_eq_iff unat_byte_of_nat)
qed

lemma byte_of_char: "(of_char (char_of (unat b)) :: byte) = b"
  by simp

lemma gostr_bytes_of [simp]: "gostr (bytes_of s) = s" "bytes_of (gostr b) = b"
  by (simp_all add: gostr_def bytes_of_def comp_def char_of_byte byte_of_char)

lemma gostr_eq_iff [simp]: "gostr x = gostr y \<longleftrightarrow> x = y"
  by (metis gostr_bytes_of(2))

lemma gostr_eq_bytes: "gostr d = s \<longleftrightarrow> d = bytes_of s"
  by (metis gostr_bytes_of)

lemma gostr_take_drop: "gostr (take n b) = take n (gostr b)" "gostr (drop n b) = drop n (gostr b)"
  by (simp_all add: gostr_def take_map drop_map)

lemma bytes_of_take_drop:
  "bytes_of (take n s) = take n (bytes_of s)" "bytes_of (drop n s) = drop n (bytes_of s)"
  by (simp_all add: bytes_of_def take_map drop_map)

lemma nth_gostr: "i < length b \<Longrightarrow> gostr b ! i = char_of (unat (b ! i))"
  by (simp add: gostr_def)

section \<open>Prefixes, suffixes, searching, splitting\<close>

definition HasPrefix :: "string \<Rightarrow> string \<Rightarrow> bool" where
  "HasPrefix s p \<longleftrightarrow> length p \<le> length s \<and> take (length p) s = p"

definition HasSuffix :: "string \<Rightarrow> string \<Rightarrow> bool" where
  "HasSuffix s p \<longleftrightarrow> length p \<le> length s \<and> drop (length s - length p) s = p"

definition TrimPrefix :: "string \<Rightarrow> string \<Rightarrow> string" where
  "TrimPrefix s p = (if HasPrefix s p then drop (length p) s else s)"

definition TrimSuffix :: "string \<Rightarrow> string \<Rightarrow> string" where
  "TrimSuffix s p = (if HasSuffix s p then take (length s - length p) s else s)"

lemma HasPrefix_iff: "HasPrefix s p \<longleftrightarrow> (\<exists>t. s = p @ t)"
  unfolding HasPrefix_def
  by (metis append_eq_conv_conj append_take_drop_id le_add1 length_append)

text \<open>\<open>strings.Index\<close>: the first position at which \<open>sub\<close> occurs; \<open>None\<close> is Go's \<open>-1\<close>.\<close>

primrec str_index :: "string \<Rightarrow> string \<Rightarrow> nat option" where
  "str_index [] sub = (if sub = [] then Some 0 else None)"
| "str_index (c # s) sub =
     (if HasPrefix (c # s) sub then Some 0 else map_option Suc (str_index s sub))"

definition Contains :: "string \<Rightarrow> string \<Rightarrow> bool" where
  "Contains s sub \<longleftrightarrow> str_index s sub \<noteq> None"

lemma str_index_Some:
  "str_index s sub = Some i \<Longrightarrow> i + length sub \<le> length s \<and> take (length sub) (drop i s) = sub"
proof (induction s arbitrary: i)
  case Nil
  then show ?case by (simp split: if_splits)
next
  case (Cons c s)
  show ?case
  proof (cases "HasPrefix (c # s) sub")
    case True
    with Cons.prems show ?thesis by (simp add: HasPrefix_def)
  next
    case False
    with Cons.prems obtain j where "str_index s sub = Some j" "i = Suc j" by auto
    with Cons.IH show ?thesis by simp
  qed
qed

lemma str_index_shorter:
  "str_index s sub = Some i \<Longrightarrow> sub \<noteq> [] \<Longrightarrow> length s - (i + length sub) < length s"
  using str_index_Some [of s sub i] by (cases sub) auto

lemma str_index_first: "str_index s sub = Some i \<Longrightarrow> j < i \<Longrightarrow> \<not> HasPrefix (drop j s) sub"
proof (induction s arbitrary: i j)
  case Nil
  then show ?case by (simp split: if_splits)
next
  case (Cons c s)
  then show ?case by (cases j) (auto split: if_splits)
qed

lemma Contains_iff: "Contains s sub \<longleftrightarrow> (\<exists>a b. s = a @ sub @ b)"
proof (induction s)
  case Nil
  then show ?case by (simp add: Contains_def)
next
  case (Cons c s)
  have "Contains (c # s) sub \<longleftrightarrow> HasPrefix (c # s) sub \<or> Contains s sub"
    by (auto simp: Contains_def)
  also have "\<dots> \<longleftrightarrow> (\<exists>a b. c # s = a @ sub @ b)"
    unfolding Cons HasPrefix_iff by (metis append_Cons append_Nil list.sel(3) tl_append2)
  finally show ?case .
qed

text \<open>\<open>strings.Split\<close> with a non-empty separator, which is the only way the sources call it.\<close>

function Split :: "string \<Rightarrow> string \<Rightarrow> string list" where
  "Split s sep =
     (case str_index s sep of
        None \<Rightarrow> [s]
      | Some i \<Rightarrow> if sep = [] then [s] else take i s # Split (drop (i + length sep) s) sep)"
  by pat_completeness auto
termination
  by (relation "measure (\<lambda>(s, sep). length s)") (auto intro: str_index_shorter)

declare Split.simps [simp del]

lemma Split_nonempty: "Split s sep \<noteq> []"
  by (subst Split.simps) (auto split: option.splits)

definition Join :: "string list \<Rightarrow> string \<Rightarrow> string" where
  "Join parts sep = concat (case parts of [] \<Rightarrow> [] | p # ps \<Rightarrow> p # map (\<lambda>q. sep @ q) ps)"

text \<open>Joining what \<open>Split\<close> returned gives the string back.\<close>

lemma Join_Cons: "ps \<noteq> [] \<Longrightarrow> Join (p # ps) sep = p @ sep @ Join ps sep"
  by (cases ps) (simp_all add: Join_def)

lemma Join_Split: "sep \<noteq> [] \<Longrightarrow> Join (Split s sep) sep = s"
proof (induction s sep rule: Split.induct)
  case (1 s sep)
  show ?case
  proof (cases "str_index s sep")
    case None
    then show ?thesis by (simp add: Split.simps [of s] Join_def)
  next
    case (Some i)
    let ?r = "drop (i + length sep) s"
    from Some have "take (length sep) (drop i s) = sep" by (simp add: str_index_Some)
    then have s: "take i s @ sep @ ?r = s"
      by (metis add.commute append_take_drop_id drop_drop)
    from 1 Some have IH: "Join (Split ?r sep) sep = ?r" by simp
    from Some "1.prems" have "Split s sep = take i s # Split ?r sep"
      by (simp add: Split.simps [of s])
    then show ?thesis by (simp add: Join_Cons Split_nonempty IH s)
  qed
qed

section \<open>White space\<close>

text \<open>The length of the white-space character at the front of a string (0 if there is none): the
  ASCII ones, then the UTF-8 encodings of U+0085, U+00A0, U+1680, U+2000 to U+200A, U+2028,
  U+2029, U+202F, U+205F and U+3000.  A lead byte of these encodings never occurs inside another
  encoded character, so a scan by bytes meets exactly the characters a scan by runes meets.\<close>

definition ascii_space :: "char \<Rightarrow> bool" where
  "ascii_space c \<longleftrightarrow> c \<in> {CHR 0x09, CHR 0x0A, CHR 0x0B, CHR 0x0C, CHR 0x0D, CHR '' ''}"

definition wide_spaces :: "string list" where
  "wide_spaces =
     [[CHR 0xC2, CHR 0x85], [CHR 0xC2, CHR 0xA0], [CHR 0xE1, CHR 0x9A, CHR 0x80]] @
     map (\<lambda>c. [CHR 0xE2, CHR 0x80, c])
       [CHR 0x80, CHR 0x81, CHR 0x82, CHR 0x83, CHR 0x84, CHR 0x85, CHR 0x86, CHR 0x87, CHR 0x88,
        CHR 0x89, CHR 0x8A, CHR 0xA8, CHR 0xA9, CHR 0xAF] @
     [[CHR 0xE2, CHR 0x81, CHR 0x9F], [CHR 0xE3, CHR 0x80, CHR 0x80]]"

definition ws_len :: "string \<Rightarrow> nat" where
  "ws_len s =
     (case s of
        [] \<Rightarrow> 0
      | c # _ \<Rightarrow> if ascii_space c then 1
                else (case find (HasPrefix s) wide_spaces of None \<Rightarrow> 0 | Some w \<Rightarrow> length w))"

definition ws_len_end :: "string \<Rightarrow> nat" where
  "ws_len_end s =
     (if s = [] then 0
      else if ascii_space (last s) then 1
      else (case find (HasSuffix s) wide_spaces of None \<Rightarrow> 0 | Some w \<Rightarrow> length w))"

function trim_left :: "string \<Rightarrow> string" where
  "trim_left s = (if ws_len s = 0 \<or> s = [] then s else trim_left (drop (ws_len s) s))"
  by pat_completeness auto
termination by (relation "measure length") auto

function trim_right :: "string \<Rightarrow> string" where
  "trim_right s =
     (if ws_len_end s = 0 \<or> s = [] then s else trim_right (take (length s - ws_len_end s) s))"
  by pat_completeness auto
termination by (relation "measure length") auto

declare trim_left.simps [simp del] trim_right.simps [simp del]

definition TrimSpace :: "string \<Rightarrow> string" where
  "TrimSpace s = trim_right (trim_left s)"

text \<open>\<open>strings.Fields\<close>, with the field read so far as its second argument.\<close>

function fields_acc :: "string \<Rightarrow> string \<Rightarrow> string list" where
  "fields_acc s cur =
     (if s = [] then (if cur = [] then [] else [cur])
      else if ws_len s = 0 then fields_acc (tl s) (cur @ [hd s])
      else (if cur = [] then [] else [cur]) @ fields_acc (drop (ws_len s) s) [])"
  by pat_completeness auto
termination by (relation "measure (\<lambda>(s, cur). length s)") auto

declare fields_acc.simps [simp del]

definition Fields :: "string \<Rightarrow> string list" where
  "Fields s = fields_acc s []"

lemma Fields_nonempty: "f \<in> set (fields_acc s cur) \<Longrightarrow> f \<noteq> []"
proof (induction s cur rule: fields_acc.induct)
  case (1 s cur)
  then show ?case by (subst (asm) (2) fields_acc.simps) (auto split: if_splits)
qed

section \<open>Upper case\<close>

definition is_ascii :: "char \<Rightarrow> bool" where
  "is_ascii c \<longleftrightarrow> (of_char c :: nat) < 128"

definition upper_char :: "char \<Rightarrow> char" where
  "upper_char c =
     (if 97 \<le> (of_char c :: nat) \<and> (of_char c :: nat) \<le> 122 then char_of (of_char c - 32 :: nat) else c)"

definition ToUpper :: "(string \<Rightarrow> string) \<Rightarrow> string \<Rightarrow> string" where
  "ToUpper uni s = (if list_all is_ascii s then map upper_char s else uni s)"

lemma ToUpper_ascii: "list_all is_ascii s \<Longrightarrow> ToUpper uni s = map upper_char s"
  by (simp add: ToUpper_def)

lemma length_ToUpper_ascii: "list_all is_ascii s \<Longrightarrow> length (ToUpper uni s) = length s"
  by (simp add: ToUpper_def)

lemma ascii_space_ascii: "ascii_space c \<Longrightarrow> is_ascii c"
  by (auto simp: ascii_space_def is_ascii_def)

lemma wide_spaces_not_ascii: "w \<in> set wide_spaces \<Longrightarrow> w \<noteq> [] \<and> \<not> is_ascii (hd w) \<and> \<not> is_ascii (last w)"
  by (auto simp: wide_spaces_def is_ascii_def)

lemma ws_len_ascii: "is_ascii c \<Longrightarrow> ws_len (c # s) = (if ascii_space c then 1 else 0)"
proof -
  assume c: "is_ascii c"
  have "\<not> HasPrefix (c # s) w" if "w \<in> set wide_spaces" for w
    using wide_spaces_not_ascii [OF that] c by (cases w) (auto simp: HasPrefix_iff)
  then have "find (HasPrefix (c # s)) wide_spaces = None" by (auto simp: find_None_iff)
  then show ?thesis by (simp add: ws_len_def)
qed

lemma ws_len_end_ascii: "is_ascii c \<Longrightarrow> ws_len_end (s @ [c]) = (if ascii_space c then 1 else 0)"
proof -
  assume c: "is_ascii c"
  have "\<not> HasSuffix (s @ [c]) w" if "w \<in> set wide_spaces" for w
  proof
    assume "HasSuffix (s @ [c]) w"
    then have "drop (length (s @ [c]) - length w) (s @ [c]) = w" by (simp only: HasSuffix_def)
    then have "last w = c" using wide_spaces_not_ascii [OF that]
      by (metis drop_eq_Nil last_drop last_snoc not_le)
    with wide_spaces_not_ascii [OF that] c show False by simp
  qed
  then have "find (HasSuffix (s @ [c])) wide_spaces = None" by (auto simp: find_None_iff)
  then show ?thesis by (simp add: ws_len_end_def)
qed

lemma trim_left_ascii: "list_all is_ascii s \<Longrightarrow> trim_left s = dropWhile ascii_space s"
proof (induction s)
  case Nil
  then show ?case by (simp add: trim_left.simps)
next
  case (Cons c s)
  then show ?case by (simp add: trim_left.simps [of "c # s"] ws_len_ascii)
qed

lemma trim_right_ascii: "list_all is_ascii s \<Longrightarrow> trim_right s = rev (dropWhile ascii_space (rev s))"
proof (induction s rule: rev_induct)
  case Nil
  then show ?case by (simp add: trim_right.simps)
next
  case (snoc c s)
  then show ?case by (simp add: trim_right.simps [of "s @ [c]"] ws_len_end_ascii)
qed

text \<open>White space around an ASCII text that starts and ends with a word is removed.\<close>

lemma TrimSpace_ascii:
  assumes "list_all ascii_space ws" and "list_all is_ascii (w # text)" and "\<not> ascii_space w"
  shows "\<exists>t. TrimSpace (ws @ w # text) = w # t \<and> (\<exists>u. text = t @ u \<and> list_all ascii_space u)"
proof -
  have left: "trim_left (ws @ w # text) = w # text"
    using assms
    by (subst trim_left_ascii)
       (auto simp: list_all_iff dropWhile_append ascii_space_ascii dropWhile_eq_Nil_conv)
  let ?u = "rev (takeWhile ascii_space (rev text))" and ?t = "rev (dropWhile ascii_space (rev text))"
  have "rev (dropWhile ascii_space (rev (w # text))) = w # ?t"
    using assms(3) by (auto simp: dropWhile_append list_all_iff dropWhile_eq_Nil_conv)
  then have "TrimSpace (ws @ w # text) = w # ?t"
    using assms(2) by (simp add: TrimSpace_def left trim_right_ascii)
  moreover have "text = ?t @ ?u"
    by (metis rev_append rev_rev_ident takeWhile_dropWhile_id)
  moreover have "list_all ascii_space ?u"
    by (auto simp: list_all_iff dest: set_takeWhileD)
  ultimately show ?thesis by blast
qed

section \<open>Numbers\<close>

text \<open>\<open>fmt.Sprintf("%d", n)\<close> for a non-negative number, and \<open>%x\<close> padded to a width.\<close>

definition digit :: "nat \<Rightarrow> char" where
  "digit d = (if d < 10 then char_of (48 + d) else char_of (87 + d))"

fun dec :: "nat \<Rightarrow> string" where
  "dec n = (if n < 10 then [digit n] else dec (n div 10) @ [digit (n mod 10)])"

declare dec.simps [simp del]

primrec hex_digits :: "nat \<Rightarrow> nat \<Rightarrow> string" where
  "hex_digits 0 n = []"
| "hex_digits (Suc k) n = hex_digits k (n div 16) @ [digit (n mod 16)]"

text \<open>\<open>strconv.Atoi\<close> on a 64-bit platform.  The scan stops at the first character that is no
  digit or that takes the value past the 64-bit range, whichever comes first.\<close>

datatype num_error = ErrSyntax string | ErrRange string

definition is_digit :: "char \<Rightarrow> bool" where
  "is_digit c \<longleftrightarrow> 48 \<le> (of_char c :: nat) \<and> (of_char c :: nat) \<le> 57"

definition digit_val :: "char \<Rightarrow> nat" where
  "digit_val c = of_char c - 48"

fun parse_uint :: "string \<Rightarrow> nat \<Rightarrow> string \<Rightarrow> num_error + nat" where
  "parse_uint whole n [] = Inr n"
| "parse_uint whole n (c # cs) =
     (if \<not> is_digit c then Inl (ErrSyntax whole)
      else if 10 * n + digit_val c \<ge> 2 ^ 64 then Inl (ErrRange whole)
      else parse_uint whole (10 * n + digit_val c) cs)"

definition ParseUint :: "string \<Rightarrow> num_error + nat" where
  "ParseUint s = (if s = [] then Inl (ErrSyntax s) else parse_uint s 0 s)"

definition Atoi :: "string \<Rightarrow> num_error + int" where
  "Atoi s =
     (let neg = (case s of c # _ \<Rightarrow> c = CHR ''-'' | [] \<Rightarrow> False);
          body = (case s of c # t \<Rightarrow> if c = CHR ''+'' \<or> c = CHR ''-'' then t else s | [] \<Rightarrow> [])
      in if body = [] then Inl (ErrSyntax s)
         else case parse_uint s 0 body of
                Inl e \<Rightarrow> Inl e
              | Inr u \<Rightarrow>
                  if \<not> neg \<and> u \<ge> 2 ^ 63 then Inl (ErrRange s)
                  else if neg \<and> u > 2 ^ 63 then Inl (ErrRange s)
                  else Inr (if neg then - int u else int u))"

lemma of_char_digit: "d < 10 \<Longrightarrow> (of_char (digit d) :: nat) = 48 + d"
  by (simp add: digit_def of_char_of)

lemma digit_props: "d < 10 \<Longrightarrow> is_digit (digit d)" "d < 10 \<Longrightarrow> digit_val (digit d) = d"
  by (simp_all add: is_digit_def digit_val_def of_char_digit)

lemma dec_not_Nil [simp]: "dec n \<noteq> []"
  by (subst dec.simps) simp

lemma dec_digits: "c \<in> set (dec n) \<Longrightarrow> is_digit c"
proof (induction n rule: dec.induct)
  case (1 n)
  then show ?case
    by (cases "n < 10") (auto simp: dec.simps [of n] digit_props)
qed

lemma parse_uint_append:
  "parse_uint w n (s @ t) =
     (case parse_uint w n s of Inl e \<Rightarrow> Inl e | Inr m \<Rightarrow> parse_uint w m t)"
  by (induction w n s rule: parse_uint.induct) simp_all

lemma parse_uint_dec: "n < 2 ^ 64 \<Longrightarrow> parse_uint w 0 (dec n) = Inr n"
proof (induction n rule: dec.induct)
  case (1 n)
  show ?case
  proof (cases "n < 10")
    case True
    then show ?thesis by (simp add: dec.simps [of n] digit_props)
  next
    case False
    with 1 have IH: "parse_uint w 0 (dec (n div 10)) = Inr (n div 10)" by simp
    have "10 * (n div 10) + n mod 10 = n" by simp
    with False IH "1.prems" show ?thesis
      by (simp add: dec.simps [of n] parse_uint_append digit_props)
  qed
qed

lemma digit_not_sign: "is_digit c \<Longrightarrow> c \<noteq> CHR ''+'' \<and> c \<noteq> CHR ''-''"
  by (auto simp: is_digit_def)

text \<open>Reading what \<open>%d\<close> printed gives the number back.\<close>

lemma Atoi_dec: "n < 2 ^ 63 \<Longrightarrow> Atoi (dec n) = Inr (int n)"
proof -
  assume n: "n < 2 ^ 63"
  obtain c t where d: "dec n = c # t" by (cases "dec n") simp_all
  then have "is_digit c" using dec_digits [of c n] by simp
  then have c: "c \<noteq> CHR ''+''" "c \<noteq> CHR ''-''" using digit_not_sign by simp_all
  have "parse_uint (dec n) 0 (dec n) = Inr n" using n by (simp add: parse_uint_dec)
  then show ?thesis using d c n by (simp add: Atoi_def Let_def)
qed

lemma Atoi_bounds: "Atoi s = Inr v \<Longrightarrow> - (2 ^ 63) \<le> v \<and> v < 2 ^ 63"
  by (auto simp: Atoi_def Let_def split: if_splits sum.splits)

text \<open>\<open>%d\<close> of a signed number.\<close>

definition dec_int :: "int \<Rightarrow> string" where
  "dec_int i = (if i < 0 then CHR ''-'' # dec (nat (- i)) else dec (nat i))"

section \<open>Lines\<close>

text \<open>The lines \<open>bufio.Scanner\<close> returns: a carriage return before the line feed is dropped, a last line
  without line feed counts unless it is empty, and a line of 64 KiB or more ends the scan.\<close>

definition drop_cr :: "string \<Rightarrow> string" where
  "drop_cr s = TrimSuffix s [CHR 0x0D]"

definition scan_lines :: "string \<Rightarrow> string list" where
  "scan_lines s =
     (let parts = Split s [CHR 0x0A];
          lines = (if last parts = [] then butlast parts else parts)
      in map drop_cr (takeWhile (\<lambda>l. length l < 65536) lines))"

section \<open>Separators of one character\<close>

lemma HasPrefix_Cons: "HasPrefix (c # s) (d # p) \<longleftrightarrow> c = d \<and> HasPrefix s p" "HasPrefix s []" "\<not> HasPrefix [] (d # p)"
  by (auto simp: HasPrefix_def)

lemma str_index_char: "c \<notin> set s \<Longrightarrow> str_index (s @ c # t @ r) (c # t) = Some (length s)"
proof (induction s)
  case Nil
  then show ?case by (simp add: HasPrefix_iff)
qed (auto simp: HasPrefix_Cons)

lemma Split_char: "c \<notin> set s \<Longrightarrow> Split (s @ c # r) [c] = s # Split r [c]"
  using str_index_char [of c s "[]" r] by (subst Split.simps) simp

lemma str_index_absent: "c \<notin> set s \<Longrightarrow> str_index s (c # t) = None"
  by (induction s) (auto simp: HasPrefix_Cons)

lemma Split_last: "c \<notin> set s \<Longrightarrow> Split s [c] = [s]"
  by (subst Split.simps) (simp add: str_index_absent)

end
