(* ===== verification/Framing.thy ===== *)
theory Framing
  imports Go_Prelude
begin

text \<open>
  The interface of the length-prefixed framings.  MySQL packets, HTTP/2 frames and TLS records are
  all read the same way: a fixed header, the length of the payload taken from the header, the
  payload.  The locale \<open>length_prefixed\<close> states what such a parser promises; \<open>safe n\<close> says that a
  payload of length \<open>n\<close> can be sliced without a panic.  What a client of any of these parsers relies
  on (which inputs are accepted, that trailing bytes do not matter, that a truncated frame is
  rejected, that consecutive frames are cut apart correctly) is proved once here.
\<close>

locale length_prefixed =
  fixes hdr :: nat
    and plen :: "bytes \<Rightarrow> nat"
    and safe :: "nat \<Rightarrow> bool"
    and mk :: "bytes \<Rightarrow> bytes \<Rightarrow> 'f"
    and parse :: "bytes \<Rightarrow> ('e, 'f) outcome"
  assumes plen_header: "hdr \<le> length d \<Longrightarrow> plen (d @ x) = plen d"
    and parse_short: "length d < hdr \<Longrightarrow> \<exists>e. parse d = Err e"
    and parse_incomplete: "hdr \<le> length d \<Longrightarrow> length d < hdr + plen d \<Longrightarrow> \<exists>e. parse d = Err e"
    and parse_complete: "hdr + plen d \<le> length d \<Longrightarrow> safe (plen d) \<Longrightarrow>
      parse d = Ok (mk (take hdr d) (take (plen d) (drop hdr d)))"
    and parse_unsafe: "hdr + plen d \<le> length d \<Longrightarrow> \<not> safe (plen d) \<Longrightarrow> parse d = Panic"
begin

lemma parse_cases:
  "(\<exists>e. parse d = Err e) \<and> (length d < hdr \<or> length d < hdr + plen d) \<or>
   parse d = Ok (mk (take hdr d) (take (plen d) (drop hdr d))) \<and>
     hdr + plen d \<le> length d \<and> safe (plen d) \<or>
   parse d = Panic \<and> hdr + plen d \<le> length d \<and> \<not> safe (plen d)"
  using parse_short [of d] parse_incomplete [of d] parse_complete [of d] parse_unsafe [of d]
  by (meson leI)

lemma parse_Ok_iff:
  "parse d = Ok f \<longleftrightarrow>
     hdr + plen d \<le> length d \<and> safe (plen d) \<and> f = mk (take hdr d) (take (plen d) (drop hdr d))"
  using parse_cases [of d] by auto

lemma parse_Panic_iff: "parse d = Panic \<longleftrightarrow> hdr + plen d \<le> length d \<and> \<not> safe (plen d)"
  using parse_cases [of d] by auto

lemma parse_Err_iff: "(\<exists>e. parse d = Err e) \<longleftrightarrow> length d < hdr + plen d"
  using parse_cases [of d] by auto

lemma parse_append: "parse d = Ok f \<Longrightarrow> parse (d @ x) = Ok f"
  by (auto simp: parse_Ok_iff plen_header)

lemma parse_truncated:
  assumes "parse d = Ok f" and "k < hdr + plen d"
  shows "\<exists>e. parse (take k d) = Err e"
proof (cases "k < hdr")
  case True
  then show ?thesis by (intro parse_short) simp
next
  case False
  with assms have "hdr \<le> length (take k d)" and "k < length d" by (auto simp: parse_Ok_iff)
  then have "plen (take k d @ drop k d) = plen (take k d)" by (intro plen_header)
  with assms \<open>k < length d\<close> False show ?thesis by (intro parse_incomplete) auto
qed

lemma parse_stream:
  assumes "parse d = Ok f" and "length d = hdr + plen d"
  shows "parse (d @ x) = Ok f \<and> drop (hdr + plen (d @ x)) (d @ x) = x"
  using assms parse_append [OF assms(1)] plen_header [of d x] by simp

end

text \<open>The framings whose payload can always be sliced.\<close>

locale length_prefixed_total = length_prefixed +
  assumes always_safe: "safe n"
begin

lemma parse_never_panics: "parse d \<noteq> Panic"
  by (simp add: parse_Panic_iff always_safe)

end

end
