(* ===== verification/Http2.thy ===== *)
theory Http2
  imports Go_Strings Framing
begin

text \<open>
  The HTTP/2 parser, \<open>src/pkg/protocol/http2.go\<close>: frames, the typed frames (SETTINGS, HEADERS,
  RST_STREAM, GOAWAY, WINDOW_UPDATE, PING), the connection preface and the HPACK decoder with its
  dynamic table.  The decoder is passed as explicit state and returned updated.
\<close>

section \<open>Data\<close>

datatype http2_error =
    HTTP2FrameTooShort | HTTP2IncompleteFrame | HTTP2InvalidSettingsLength
  | HTTP2InvalidHeadersPriority | HTTP2InvalidRstStreamLength | HTTP2InvalidGoAwayLength
  | HTTP2InvalidWindowUpdateLength | HTTP2InvalidPingLength
  | HTTP2InvalidFrameOrDecoder | HTTP2DecodeHeaders http2_error
  | HPACKEmptyData | HPACKInvalidIndex | HPACKInvalidNameIndex | HPACKInvalidLength
  | HPACKIncompleteString

abbreviation HTTP2FlagEndStream :: byte where "HTTP2FlagEndStream \<equiv> 0x1"
abbreviation HTTP2FlagEndHeaders :: byte where "HTTP2FlagEndHeaders \<equiv> 0x4"
abbreviation HTTP2FlagPadded :: byte where "HTTP2FlagPadded \<equiv> 0x8"
abbreviation HTTP2FlagPriority :: byte where "HTTP2FlagPriority \<equiv> 0x20"

definition http2FrameTypeNames :: "(byte \<times> string) list" where
  "http2FrameTypeNames =
     [(0x0, ''DATA''), (0x1, ''HEADERS''), (0x2, ''PRIORITY''), (0x3, ''RST_STREAM''),
      (0x4, ''SETTINGS''), (0x5, ''PUSH_PROMISE''), (0x6, ''PING''), (0x7, ''GOAWAY''),
      (0x8, ''WINDOW_UPDATE''), (0x9, ''CONTINUATION'')]"

record HTTP2Frame =
  hf_Length :: "32 word"
  hf_Type :: byte
  hf_Flags :: byte
  hf_StreamID :: "32 word"
  hf_Payload :: bytes

record HTTP2Setting =
  hs_ID :: "16 word"
  hs_Value :: "32 word"

record HTTP2PriorityField =
  hp_StreamDependency :: "32 word"
  hp_Weight :: byte
  hp_Exclusive :: bool

record HTTP2HeadersFrame =
  hh_StreamID :: "32 word"
  hh_EndStream :: bool
  hh_EndHeaders :: bool
  hh_Priority :: "HTTP2PriorityField option"
  hh_HeaderBlockFragment :: bytes

record HTTP2RstStreamFrame =
  hr_StreamID :: "32 word"
  hr_ErrorCode :: "32 word"

record HTTP2GoAwayFrame =
  hg_LastStreamID :: "32 word"
  hg_ErrorCode :: "32 word"
  hg_DebugData :: bytes

record HTTP2WindowUpdateFrame =
  hw_StreamID :: "32 word"
  hw_Increment :: "32 word"

record HTTP2Request =
  hq_StreamID :: "32 word"
  hq_Method :: string
  hq_Path :: string
  hq_Authority :: string
  hq_Scheme :: string
  hq_Headers :: "string \<rightharpoonup> string"

record HTTP2Response =
  hres_StreamID :: "32 word"
  hres_StatusCode :: int
  hres_Headers :: "string \<rightharpoonup> string"

text \<open>The keys of the static table are 0 to 66 without a gap, so it is a list here.\<close>

definition hpackStaticTable :: "string list" where
  "hpackStaticTable =
     ['''', '':authority'', '':method'', '':method'', '':path'', '':path'', '':scheme'', '':scheme'',
      '':status'', '':status'', '':status'', '':status'', '':status'', '':status'', '':status'', '':status'',
      '':status'', '':status'', '':status'', '':status'', ''accept-charset'', ''accept-encoding'',
      ''accept-language'', ''accept-ranges'', ''accept'', ''access-control-allow-origin'', ''age'',
      ''allow'', ''authorization'', ''cache-control'', ''content-disposition'', ''content-encoding'',
      ''content-language'', ''content-length'', ''content-location'', ''content-range'',
      ''content-type'', ''cookie'', ''date'', ''etag'', ''expect'', ''expires'', ''from'', ''host'',
      ''if-match'', ''if-modified-since'', ''if-none-match'', ''if-range'', ''if-unmodified-since'',
      ''last-modified'', ''link'', ''location'', ''max-forwards'', ''proxy-authenticate'',
      ''proxy-authorization'', ''range'', ''referer'', ''refresh'', ''retry-after'', ''server'',
      ''set-cookie'', ''strict-transport-security'', ''transfer-encoding'', ''user-agent'', ''vary'',
      ''via'', ''www-authenticate'']"

definition HTTP2Magic :: string where
  "HTTP2Magic = ''PRI * HTTP/2.0'' @ [CHR 0x0D, CHR 0x0A, CHR 0x0D, CHR 0x0A] @ ''SM'' @
     [CHR 0x0D, CHR 0x0A, CHR 0x0D, CHR 0x0A]"

section \<open>Frames\<close>

text \<open>\<open>uint32(data[0])<<16 | uint32(data[1])<<8 | uint32(data[2])\<close>; the caller has checked the length.\<close>

definition http2_length :: "bytes \<Rightarrow> 32 word" where
  "http2_length data = push_bit 16 (ucast (data ! 0)) OR push_bit 8 (ucast (data ! 1)) OR ucast (data ! 2)"

definition ParseHTTP2Frame :: "bytes \<Rightarrow> (http2_error, HTTP2Frame) outcome" where
  "ParseHTTP2Frame data =
     (if length data < 9 then Err HTTP2FrameTooShort
      else let len = http2_length data in
        obind (go_index data 3) (\<lambda>typ.
        obind (go_index data 4) (\<lambda>flags.
        obind (u32be_at data 5) (\<lambda>sid.
        let frame = \<lparr>hf_Length = len, hf_Type = typ, hf_Flags = flags,
              hf_StreamID = sid AND 0x7FFFFFFF, hf_Payload = []\<rparr> in
        if length data < 9 + unat len then Err HTTP2IncompleteFrame
        else obind (go_slice data 9 (unat (9 + len))) (\<lambda>payload.
          Ok (frame\<lparr>hf_Payload := payload\<rparr>))))))"

function http2_settings_loop ::
  "bytes \<Rightarrow> nat \<Rightarrow> HTTP2Setting list \<Rightarrow> (http2_error, HTTP2Setting list) outcome" where
  "http2_settings_loop payload i settings =
     (if i < length payload
      then obind (u16be_at payload i) (\<lambda>ident. obind (u32be_at payload (i + 2)) (\<lambda>val.
        http2_settings_loop payload (i + 6) (settings @ [\<lparr>hs_ID = ident, hs_Value = val\<rparr>])))
      else Ok settings)"
  by pat_completeness auto
termination by (relation "measure (\<lambda>(p, i, _). length p - i)") auto

declare http2_settings_loop.simps [simp del]

definition ParseHTTP2SettingsFrame :: "bytes \<Rightarrow> (http2_error, HTTP2Setting list) outcome" where
  "ParseHTTP2SettingsFrame payload =
     (if length payload mod 6 \<noteq> 0 then Err HTTP2InvalidSettingsLength
      else http2_settings_loop payload 0 [])"

definition ParseHTTP2HeadersFrame :: "HTTP2Frame \<Rightarrow> (http2_error, HTTP2HeadersFrame) outcome" where
  "ParseHTTP2HeadersFrame frame =
     (let headersFrame = \<lparr>hh_StreamID = hf_StreamID frame,
            hh_EndStream = (hf_Flags frame AND HTTP2FlagEndStream \<noteq> 0),
            hh_EndHeaders = (hf_Flags frame AND HTTP2FlagEndHeaders \<noteq> 0),
            hh_Priority = None, hh_HeaderBlockFragment = []\<rparr>;
          payload = hf_Payload frame in
      obind
        (if hf_Flags frame AND HTTP2FlagPriority \<noteq> 0 then
           if length payload < 5 then Err HTTP2InvalidHeadersPriority
           else obind (u32be_at payload 0) (\<lambda>dep. obind (go_index payload 0) (\<lambda>b0.
             obind (go_index payload 4) (\<lambda>weight.
               Ok (headersFrame\<lparr>hh_Priority := Some \<lparr>hp_StreamDependency = dep AND 0x7FFFFFFF,
                     hp_Weight = weight, hp_Exclusive = (b0 AND 0x80 \<noteq> 0)\<rparr>\<rparr>, 5))))
         else Ok (headersFrame, 0))
        (\<lambda>(headersFrame, offset). obind (go_from payload offset) (\<lambda>frag.
           Ok (headersFrame\<lparr>hh_HeaderBlockFragment := frag\<rparr>))))"

definition ParseHTTP2RstStreamFrame :: "HTTP2Frame \<Rightarrow> (http2_error, HTTP2RstStreamFrame) outcome" where
  "ParseHTTP2RstStreamFrame frame =
     (if length (hf_Payload frame) \<noteq> 4 then Err HTTP2InvalidRstStreamLength
      else obind (u32be_at (hf_Payload frame) 0) (\<lambda>code.
        Ok \<lparr>hr_StreamID = hf_StreamID frame, hr_ErrorCode = code\<rparr>))"

definition ParseHTTP2GoAwayFrame :: "HTTP2Frame \<Rightarrow> (http2_error, HTTP2GoAwayFrame) outcome" where
  "ParseHTTP2GoAwayFrame frame =
     (if length (hf_Payload frame) < 8 then Err HTTP2InvalidGoAwayLength
      else obind (u32be_at (hf_Payload frame) 0) (\<lambda>sid. obind (u32be_at (hf_Payload frame) 4) (\<lambda>code.
        obind (go_from (hf_Payload frame) 8) (\<lambda>dbg.
          Ok \<lparr>hg_LastStreamID = sid AND 0x7FFFFFFF, hg_ErrorCode = code, hg_DebugData = dbg\<rparr>))))"

definition ParseHTTP2WindowUpdateFrame :: "HTTP2Frame \<Rightarrow> (http2_error, HTTP2WindowUpdateFrame) outcome" where
  "ParseHTTP2WindowUpdateFrame frame =
     (if length (hf_Payload frame) \<noteq> 4 then Err HTTP2InvalidWindowUpdateLength
      else obind (u32be_at (hf_Payload frame) 0) (\<lambda>inc.
        Ok \<lparr>hw_StreamID = hf_StreamID frame, hw_Increment = inc AND 0x7FFFFFFF\<rparr>))"

text \<open>\<open>copy\<close> into an array of eight zero bytes: the result is the opaque data.\<close>

definition ParseHTTP2PingFrame :: "HTTP2Frame \<Rightarrow> (http2_error, bytes) outcome" where
  "ParseHTTP2PingFrame frame =
     (if length (hf_Payload frame) \<noteq> 8 then Err HTTP2InvalidPingLength
      else Ok (take 8 (hf_Payload frame) @ drop (length (hf_Payload frame)) (replicate 8 0)))"

definition GetHTTP2FrameTypeName :: "byte \<Rightarrow> string" where
  "GetHTTP2FrameTypeName frameType =
     (case map_of http2FrameTypeNames frameType of
        Some name \<Rightarrow> name | None \<Rightarrow> ''UNKNOWN('' @ dec (unat frameType) @ '')'')"

definition GetHTTP2ErrorCodeName :: "32 word \<Rightarrow> string" where
  "GetHTTP2ErrorCodeName errorCode =
     (if errorCode = 0x0 then ''NO_ERROR''
      else if errorCode = 0x1 then ''PROTOCOL_ERROR''
      else if errorCode = 0x2 then ''INTERNAL_ERROR''
      else if errorCode = 0x3 then ''FLOW_CONTROL_ERROR''
      else if errorCode = 0x4 then ''SETTINGS_TIMEOUT''
      else if errorCode = 0x5 then ''STREAM_CLOSED''
      else if errorCode = 0x6 then ''FRAME_SIZE_ERROR''
      else if errorCode = 0x7 then ''REFUSED_STREAM''
      else if errorCode = 0x8 then ''CANCEL''
      else if errorCode = 0x9 then ''COMPRESSION_ERROR''
      else if errorCode = 0xa then ''CONNECT_ERROR''
      else if errorCode = 0xb then ''ENHANCE_YOUR_CALM''
      else if errorCode = 0xc then ''INADEQUATE_SECURITY''
      else if errorCode = 0xd then ''HTTP_1_1_REQUIRED''
      else ''UNKNOWN('' @ dec (unat errorCode) @ '')'')"

definition IsHTTP2Magic :: "bytes \<Rightarrow> bool" where
  "IsHTTP2Magic data =
     (if length data < length HTTP2Magic then False
      else gostr (take (length HTTP2Magic) data) = HTTP2Magic)"

section \<open>HPACK\<close>

type_synonym headerField = "string \<times> string"

record HPACKDecoder =
  dynamicTable :: "headerField list"

definition NewHPACKDecoder :: HPACKDecoder where
  "NewHPACKDecoder = \<lparr>dynamicTable = []\<rparr>"

text \<open>The continuation bytes of an integer.  A \<open>uint64\<close> shifted by 64 or more is 0, as \<open>push_bit\<close> has it;
  the sum wraps around.\<close>

function decode_integer_loop :: "bytes \<Rightarrow> nat \<Rightarrow> nat \<Rightarrow> 64 word \<Rightarrow> 64 word \<times> nat" where
  "decode_integer_loop data offset shift result =
     (if offset < length data then
        let b = data ! offset;
            result' = result + push_bit shift (ucast (b AND 0x7F))
        in if b AND 0x80 = 0 then (result', offset + 1)
           else decode_integer_loop data (offset + 1) (shift + 7) result'
      else (result, offset))"
  by pat_completeness auto
termination by (relation "measure (\<lambda>(d, i, _). length d - i)") auto

declare decode_integer_loop.simps [simp del]

definition decodeInteger :: "bytes \<Rightarrow> nat \<Rightarrow> 64 word \<times> nat" where
  "decodeInteger data pre =
     (if length data = 0 then (0, 0)
      else let mask = push_bit pre 1 - 1 :: byte;
               result = ucast (data ! 0 AND mask) :: 64 word
           in if result < ucast mask then (result, 1)
              else decode_integer_loop data 1 pre result)"

text \<open>\<open>consumed + int(length)\<close> and \<open>uint64(consumed) + length\<close> are the same 64 bits; below the length of
  the data the signed and the unsigned reading agree.\<close>

definition decodeString :: "bytes \<Rightarrow> (http2_error, string \<times> nat) outcome" where
  "decodeString data =
     (if length data = 0 then Err HPACKEmptyData
      else case decodeInteger data 7 of (len, consumed) \<Rightarrow>
        if consumed = 0 then Err HPACKInvalidLength
        else let e = (word_of_nat consumed :: 64 word) + len in
          if unat e > length data then Err HPACKIncompleteString
          else obind (go_slice data consumed (unat e)) (\<lambda>s. Ok (gostr s, unat e)))"

text \<open>The part the two literal representations share: name, then value.\<close>

definition decode_literal :: "bytes \<Rightarrow> nat \<Rightarrow> (http2_error, string \<times> string \<times> nat) outcome" where
  "decode_literal data consumed =
     obind (go_from data consumed) (\<lambda>rest. obind (decodeString rest) (\<lambda>(name, nameConsumed).
       obind (go_from data (consumed + nameConsumed)) (\<lambda>rest. obind (decodeString rest) (\<lambda>(val, valueConsumed).
         Ok (name, val, consumed + nameConsumed + valueConsumed)))))"

definition decodeHeaderField ::
  "HPACKDecoder \<Rightarrow> bytes \<Rightarrow> HPACKDecoder \<times> (http2_error, string \<times> string \<times> nat) outcome" where
  "decodeHeaderField d data =
     (if length data = 0 then (d, Err HPACKEmptyData)
      else if data ! 0 AND 0x80 \<noteq> 0 then
        (case decodeInteger data 7 of (index, consumed) \<Rightarrow>
          if consumed = 0 then (d, Err HPACKInvalidIndex)
          else if unat index < length hpackStaticTable
          then (d, Ok (hpackStaticTable ! unat index, '''', consumed))
          else (d, Ok ('''', '''', consumed)))
      else if data ! 0 AND 0xC0 = 0x40 then
        (case decodeInteger data 6 of (_, consumed) \<Rightarrow>
          if consumed = 0 then (d, Err HPACKInvalidNameIndex)
          else case decode_literal data consumed of
            Ok (name, val, n) \<Rightarrow> (d\<lparr>dynamicTable := dynamicTable d @ [(name, val)]\<rparr>, Ok (name, val, n))
          | Err e \<Rightarrow> (d, Err e)
          | Panic \<Rightarrow> (d, Panic))
      else
        (case decodeInteger data 4 of (_, consumed) \<Rightarrow>
          if consumed = 0 then (d, Err HPACKInvalidNameIndex)
          else (d, decode_literal data consumed)))"

subsection \<open>Progress of the decoder\<close>

lemma decode_integer_loop_consumed:
  "offset \<le> length data \<Longrightarrow> decode_integer_loop data offset shift r = (v, n) \<Longrightarrow> offset \<le> n \<and> n \<le> length data"
proof (induction data offset shift r rule: decode_integer_loop.induct)
  case (1 data offset shift result)
  show ?case
  proof (cases "offset < length data \<and> data ! offset AND 0x80 \<noteq> 0")
    case True
    then have "offset + 1 \<le> n \<and> n \<le> length data"
      using "1.prems"
      by (intro "1.IH" [OF _ refl refl]) (auto simp: decode_integer_loop.simps [of _ offset] Let_def)
    then show ?thesis by simp
  next
    case False
    then show ?thesis using "1.prems"
      by (auto simp: decode_integer_loop.simps [of data offset] Let_def split: if_splits)
  qed
qed

lemma decodeInteger_consumed:
  "data \<noteq> [] \<Longrightarrow> decodeInteger data p = (v, n) \<Longrightarrow> 0 < n \<and> n \<le> length data"
  using decode_integer_loop_consumed [of 1 data p]
  by (auto simp: decodeInteger_def Let_def Suc_le_eq split: if_splits)

lemma decodeString_consumed: "decodeString data = Ok (s, n) \<Longrightarrow> 0 < n \<and> n \<le> length data"
  using decodeInteger_consumed [of data 7]
  by (auto simp: decodeString_def Let_def obind_iffs go_slices split: if_splits prod.splits)

lemma decode_literal_consumed:
  "decode_literal data c = Ok (name, val, n) \<Longrightarrow> 0 < n \<and> n \<le> length data"
  by (auto simp: decode_literal_def obind_iffs go_slices dest!: decodeString_consumed)

lemma decodeHeaderField_consumed:
  "decodeHeaderField d data = (d', Ok (name, val, n)) \<Longrightarrow> 0 < n \<and> n \<le> length data"
  using decodeInteger_consumed [of data 7]
  by (auto simp: decodeHeaderField_def split: if_splits prod.splits outcome.splits
      dest: decode_literal_consumed)

text \<open>The loop of \<open>Decode\<close>.  It ends because every field it decodes consumes at least one byte.\<close>

function decode_loop ::
  "HPACKDecoder \<Rightarrow> bytes \<Rightarrow> nat \<Rightarrow> (string \<rightharpoonup> string) \<Rightarrow>
   HPACKDecoder \<times> (http2_error, string \<rightharpoonup> string) outcome" where
  "decode_loop d data offset headers =
     (if offset < length data then
        (case decodeHeaderField d (drop offset data) of
           (d', Ok (name, val, consumed)) \<Rightarrow>
             decode_loop d' data (offset + consumed) (headers(name \<mapsto> val))
         | (d', Err e) \<Rightarrow> (d', Err e)
         | (d', Panic) \<Rightarrow> (d', Panic))
      else (d, Ok headers))"
  by pat_completeness auto
termination
  by (relation "measure (\<lambda>(_, data, offset, _). length data - offset)")
     (auto dest!: decodeHeaderField_consumed [OF sym])

declare decode_loop.simps [simp del]

definition Decode :: "HPACKDecoder \<Rightarrow> bytes \<Rightarrow> HPACKDecoder \<times> (http2_error, string \<rightharpoonup> string) outcome" where
  "Decode d data = decode_loop d data 0 Map.empty"

section \<open>Requests and responses\<close>

definition header_value :: "(string \<rightharpoonup> string) \<Rightarrow> string \<Rightarrow> string" where
  "header_value headers k = (case headers k of Some v \<Rightarrow> v | None \<Rightarrow> '''')"

definition ParseHTTP2Request ::
  "HTTP2HeadersFrame option \<Rightarrow> HPACKDecoder option \<Rightarrow>
   HPACKDecoder option \<times> (http2_error, HTTP2Request) outcome" where
  "ParseHTTP2Request frame decoder =
     (case (frame, decoder) of
        (Some f, Some d) \<Rightarrow>
          (case Decode d (hh_HeaderBlockFragment f) of (d', r) \<Rightarrow>
            (Some d', obind (map_err HTTP2DecodeHeaders r) (\<lambda>headers.
              Ok \<lparr>hq_StreamID = hh_StreamID f,
                  hq_Method = header_value headers '':method'',
                  hq_Path = header_value headers '':path'',
                  hq_Authority = header_value headers '':authority'',
                  hq_Scheme = header_value headers '':scheme'',
                  hq_Headers = headers\<rparr>)))
      | _ \<Rightarrow> (decoder, Err HTTP2InvalidFrameOrDecoder))"

text \<open>\<open>fmt.Sscanf(s, "%d", &n)\<close>: white space without a line break, a sign, digits; the rest of the
  text is ignored.  \<open>None\<close> stands for an error, after which the variable keeps its value.\<close>

function scan_space :: "string \<Rightarrow> string option" where
  "scan_space s =
     (if s = [] then Some []
      else if hd s = CHR 0x0A then None
      else if ws_len s = 0 then Some s
      else scan_space (drop (ws_len s) s))"
  by pat_completeness auto
termination by (relation "measure length") auto

declare scan_space.simps [simp del]

definition sscanf_d :: "string \<Rightarrow> int option" where
  "sscanf_d s =
     (case scan_space s of
        None \<Rightarrow> None
      | Some r \<Rightarrow>
          let sgn = takeWhile (\<lambda>c. c = CHR ''+'' \<or> c = CHR ''-'') (take 1 r);
              ds = takeWhile is_digit (drop (length sgn) r)
          in if ds = [] then None
             else case Atoi (sgn @ ds) of Inl _ \<Rightarrow> None | Inr n \<Rightarrow> Some n)"

definition ParseHTTP2Response ::
  "HTTP2HeadersFrame option \<Rightarrow> HPACKDecoder option \<Rightarrow>
   HPACKDecoder option \<times> (http2_error, HTTP2Response) outcome" where
  "ParseHTTP2Response frame decoder =
     (case (frame, decoder) of
        (Some f, Some d) \<Rightarrow>
          (case Decode d (hh_HeaderBlockFragment f) of (d', r) \<Rightarrow>
            (Some d', obind (map_err HTTP2DecodeHeaders r) (\<lambda>headers.
              Ok \<lparr>hres_StreamID = hh_StreamID f,
                  hres_StatusCode =
                    (case headers '':status'' of
                       None \<Rightarrow> 0
                     | Some status \<Rightarrow> (case sscanf_d status of Some n \<Rightarrow> n | None \<Rightarrow> 0)),
                  hres_Headers = headers\<rparr>)))
      | _ \<Rightarrow> (decoder, Err HTTP2InvalidFrameOrDecoder))"

section \<open>Framing\<close>

lemma http2_length_value: "unat (http2_length d) = be_nat [d ! 0, d ! 1, d ! 2]"
proof -
  have eq: "http2_length d = ucast (d ! 2) OR push_bit 8 (ucast (d ! 1)) OR push_bit 16 (ucast (d ! 0))"
    by (simp add: http2_length_def or.commute or.left_commute)
  have 2: "unat (push_bit 16 (ucast (d ! 0)) :: 32 word) = unat (d ! 0) * 2 ^ 16"
    by (simp add: unat_push_byte)
  show ?thesis unfolding eq
    by (subst unat_or_byte0 | subst unat_or_byte | subst 2 | simp add: 2 unat_or_byte)+
       (simp add: be_nat_def)
qed

lemma http2_length_bound: "unat (http2_length d) < 2 ^ 24"
  using le_nat_less [of "rev [d ! 0, d ! 1, d ! 2]"] by (simp add: http2_length_value be_nat_def)

lemma http2_end: "unat (9 + http2_length d) = 9 + unat (http2_length d)"
  using http2_length_bound [of d] by (subst unat_add_lem [THEN iffD1]) simp_all

text \<open>What \<open>ParseHTTP2Frame\<close> makes of the nine header bytes and the payload.\<close>

definition http2_mk :: "bytes \<Rightarrow> bytes \<Rightarrow> HTTP2Frame" where
  "http2_mk h p = \<lparr>hf_Length = http2_length h, hf_Type = h ! 3, hf_Flags = h ! 4,
     hf_StreamID = be32 (h ! 5) (h ! 6) (h ! 7) (h ! 8) AND 0x7FFFFFFF, hf_Payload = p\<rparr>"

lemma http2_length_take: "9 \<le> n \<Longrightarrow> http2_length (take n d) = http2_length d"
  by (simp add: http2_length_def)

lemma ParseHTTP2Frame_complete:
  assumes "9 + unat (http2_length d) \<le> length d"
  shows "ParseHTTP2Frame d = Ok (http2_mk (take 9 d) (take (unat (http2_length d)) (drop 9 d)))"
  using assms by (simp add: ParseHTTP2Frame_def http2_mk_def http2_end http2_length_take Let_def)

interpretation http2: length_prefixed_total 9 "\<lambda>d. unat (http2_length d)" "\<lambda>_. True" http2_mk ParseHTTP2Frame
proof
  show "unat (http2_length (d @ x)) = unat (http2_length d)" if "9 \<le> length d" for d x :: bytes
    using that by (auto simp: http2_length_def nth_append)
qed (auto simp: ParseHTTP2Frame_complete, auto simp: ParseHTTP2Frame_def Let_def)

text \<open>The wire form of a frame: the reserved bit of the stream identifier is not part of the frame.\<close>

definition http2_frame_bytes :: "bool \<Rightarrow> HTTP2Frame \<Rightarrow> bytes" where
  "http2_frame_bytes reserved f =
     put_be 3 (length (hf_Payload f)) @ [hf_Type f, hf_Flags f] @
     put_be 4 (unat (if reserved then hf_StreamID f OR 0x80000000 else hf_StreamID f)) @ hf_Payload f"

lemma http2_frame_bytes_length [simp]: "length (http2_frame_bytes r f) = 9 + length (hf_Payload f)"
  by (simp add: http2_frame_bytes_def)

lemma http2_length_bytes:
  "length (hf_Payload f) < 2 ^ 24 \<Longrightarrow>
   unat (http2_length (http2_frame_bytes r f @ rest)) = length (hf_Payload f)"
  using be_nat_put_be [of "length (hf_Payload f)" 3]
  by (simp add: http2_length_value http2_frame_bytes_def put_be_3)

lemma and_31_or_high: "(w OR 0x80000000) AND 0x7FFFFFFF = (w AND 0x7FFFFFFF :: 32 word)"
  by (simp add: bit.conj_disj_distrib2)

lemma and_31_id: "unat w < 2 ^ 31 \<Longrightarrow> w AND 0x7FFFFFFF = (w :: 32 word)"
proof -
  assume "unat w < 2 ^ 31"
  then have "take_bit 31 w = w"
    by (simp add: word_unat_eq_iff unsigned_take_bit_eq take_bit_nat_eq_self)
  then show ?thesis by (simp add: take_bit_eq_mask mask_eq_exp_minus_1)
qed

lemma ParseHTTP2Frame_bytes:
  assumes "length (hf_Payload f) < 2 ^ 24" and "unat (hf_StreamID f) < 2 ^ 31"
    and "hf_Length f = word_of_nat (length (hf_Payload f))"
  shows "ParseHTTP2Frame (http2_frame_bytes r f @ rest) = Ok f"
proof -
  let ?d = "http2_frame_bytes r f @ rest" and ?sid = "if r then hf_StreamID f OR 0x80000000 else hf_StreamID f"
  note len = http2_length_bytes [OF assms(1), of r rest]
  have lenw: "http2_length ?d = hf_Length f"
    unfolding assms(3) len [symmetric] by simp
  have sid: "u32be_at ?d 5 = (Ok ?sid :: (http2_error, 32 word) outcome)"
    using be_at_append(2) [of 5 "put_be 3 (length (hf_Payload f)) @ [hf_Type f, hf_Flags f]" ?sid
        "hf_Payload f @ rest"]
    by (simp add: http2_frame_bytes_def)
  have "?sid AND 0x7FFFFFFF = hf_StreamID f"
    using assms(2) by (simp add: and_31_or_high and_31_id)
  moreover have "?d ! 3 = hf_Type f" "?d ! 4 = hf_Flags f"
    and "take (length (hf_Payload f)) (drop 9 ?d) = hf_Payload f"
    by (simp_all add: http2_frame_bytes_def put_be_3)
  moreover have "unat (9 + hf_Length f) = 9 + length (hf_Payload f)"
    using http2_end [of ?d] len lenw by simp
  ultimately show ?thesis
    using len by (simp add: ParseHTTP2Frame_def sid lenw)
qed

text \<open>C8.  HTTP/2 frame round trip: a frame whose payload fits the 24-bit length field and whose
  stream identifier fits 31 bits is read back exactly, whatever the reserved bit is and whatever
  bytes follow; a proper prefix is rejected with an error; and no input makes the parser panic.\<close>

theorem http2_frame_roundtrip:
  assumes "length (hf_Payload f) < 2 ^ 24" and "unat (hf_StreamID f) < 2 ^ 31"
    and "hf_Length f = word_of_nat (length (hf_Payload f))"
  shows "ParseHTTP2Frame (http2_frame_bytes r f @ rest) = Ok f \<and>
    (\<forall>k < 9 + length (hf_Payload f). \<exists>e. ParseHTTP2Frame (take k (http2_frame_bytes r f)) = Err e) \<and>
    ParseHTTP2Frame data \<noteq> Panic"
proof (intro conjI allI impI)
  show "ParseHTTP2Frame (http2_frame_bytes r f @ rest) = Ok f"
    using assms by (rule ParseHTTP2Frame_bytes)
next
  fix k assume "k < 9 + length (hf_Payload f)"
  with http2.parse_truncated ParseHTTP2Frame_bytes [OF assms, of r "[]"]
    http2_length_bytes [OF assms(1), of r "[]"]
  show "\<exists>e. ParseHTTP2Frame (take k (http2_frame_bytes r f)) = Err e" by simp
qed (rule http2.parse_never_panics)

theorem http2_frame_roundtrip_witness:
  "ParseHTTP2Frame (http2_frame_bytes True
     \<lparr>hf_Length = 1, hf_Type = 0x1, hf_Flags = 0x5, hf_StreamID = 3, hf_Payload = [0x82]\<rparr> @ [0x99]) =
   Ok \<lparr>hf_Length = 1, hf_Type = 0x1, hf_Flags = 0x5, hf_StreamID = 3, hf_Payload = [0x82]\<rparr>"
  using http2_frame_roundtrip [of "\<lparr>hf_Length = 1, hf_Type = 0x1, hf_Flags = 0x5, hf_StreamID = 3,
      hf_Payload = [0x82]\<rparr>" True "[0x99]"]
  by simp

section \<open>SETTINGS\<close>

definition http2_setting_bytes :: "HTTP2Setting \<Rightarrow> bytes" where
  "http2_setting_bytes s = put_be 2 (unat (hs_ID s)) @ put_be 4 (unat (hs_Value s))"

lemma http2_setting_bytes_length [simp]: "length (http2_setting_bytes s) = 6"
  by (simp add: http2_setting_bytes_def)

lemma http2_settings_loop_bytes:
  "http2_settings_loop (pre @ concat (map http2_setting_bytes ss)) (length pre) acc = Ok (acc @ ss)"
proof (induction ss arbitrary: pre acc)
  case Nil
  then show ?case by (simp add: http2_settings_loop.simps)
next
  case (Cons s ss)
  let ?p = "pre @ concat (map http2_setting_bytes (s # ss))"
  have ident: "u16be_at ?p (length pre) = (Ok (hs_ID s) :: (http2_error, _) outcome)"
    using be_at_append(1) [of "length pre" pre "hs_ID s"] by (simp add: http2_setting_bytes_def)
  have val: "u32be_at ?p (length pre + 2) = (Ok (hs_Value s) :: (http2_error, _) outcome)"
    using be_at_append(2) [of "length pre + 2" "pre @ put_be 2 (unat (hs_ID s))" "hs_Value s"]
    by (simp add: http2_setting_bytes_def)
  have "http2_settings_loop ?p (length pre + 6) (acc @ [s]) = Ok (acc @ s # ss)"
    using Cons.IH [of "pre @ http2_setting_bytes s" "acc @ [s]"] by simp
  moreover have "\<lparr>hs_ID = hs_ID s, hs_Value = hs_Value s\<rparr> = s" by simp
  ultimately show ?case
    by (subst http2_settings_loop.simps) (simp only: ident val obind.simps, simp)
qed

lemma http2_settings_exist:
  "length p mod 6 = 0 \<Longrightarrow> \<exists>ss. p = concat (map http2_setting_bytes ss)"
proof (induction "length p div 6" arbitrary: p)
  case 0
  then have "p = []" by (metis div_mult_mod_eq length_0_conv mult_zero_left plus_nat.add_0)
  then show ?case by (intro exI [of _ "[]"]) simp
next
  case (Suc n)
  then have "6 \<le> length p" by (cases "length p < 6") simp_all
  then obtain a b c d e f q where p: "p = a # b # c # d # e # f # q"
    by (auto simp: Suc_le_length_iff eval_nat_numeral)
  with Suc have "n = length q div 6" "length q mod 6 = 0" by simp_all
  from Suc(1) [OF this] obtain ss where "q = concat (map http2_setting_bytes ss)" by blast
  then have "p = concat (map http2_setting_bytes (\<lparr>hs_ID = be16 a b, hs_Value = be32 c d e f\<rparr> # ss))"
    by (simp add: p http2_setting_bytes_def put_be_words)
  then show ?case by blast
qed

text \<open>SETTINGS: the parser accepts exactly the payloads that are a sequence of 6-byte settings and
  returns that sequence; every other payload is an error, none is a panic.\<close>

theorem http2_settings_exact:
  "(ParseHTTP2SettingsFrame p = Ok ss \<longleftrightarrow> p = concat (map http2_setting_bytes ss)) \<and>
   (ParseHTTP2SettingsFrame p = Err HTTP2InvalidSettingsLength \<longleftrightarrow> length p mod 6 \<noteq> 0)"
proof -
  have ok: "ParseHTTP2SettingsFrame (concat (map http2_setting_bytes ts)) = Ok ts" for ts
  proof -
    have "length (concat (map http2_setting_bytes ts)) mod 6 = 0" by (induction ts) simp_all
    then show ?thesis
      using http2_settings_loop_bytes [of "[]" ts "[]"] by (simp add: ParseHTTP2SettingsFrame_def)
  qed
  show ?thesis
  proof (cases "length p mod 6 = 0")
    case True
    from http2_settings_exist [OF this] obtain ts where p: "p = concat (map http2_setting_bytes ts)" ..
    show ?thesis
    proof (intro conjI iffI)
      show "p = concat (map http2_setting_bytes ss)" if "ParseHTTP2SettingsFrame p = Ok ss"
        using that p ok [of ts] by simp
      show "ParseHTTP2SettingsFrame p = Ok ss" if "p = concat (map http2_setting_bytes ss)"
        using that ok [of ss] by simp
    qed (use p ok [of ts] True in simp_all)
  next
    case False
    with ok [of ss] show ?thesis by (auto simp: ParseHTTP2SettingsFrame_def)
  qed
qed

section \<open>HPACK integers\<close>

text \<open>The continuation bytes RFC 7541 prescribes: seven bits a byte, least significant first, the top bit
  set on all but the last.\<close>

fun varint_bytes :: "nat \<Rightarrow> bytes" where
  "varint_bytes n =
     (if n < 128 then [word_of_nat n] else (word_of_nat (n mod 128) OR 0x80) # varint_bytes (n div 128))"

declare varint_bytes.simps [simp del]

lemma small_byte_bits:
  assumes "m < 128"
  shows "(word_of_nat m OR 0x80) AND 0x7F = (word_of_nat m :: byte)"
    and "(word_of_nat m OR 0x80) AND 0x80 = (0x80 :: byte)"
    and "word_of_nat m AND 0x80 = (0 :: byte)"
    and "word_of_nat m AND 0x7F = (word_of_nat m :: byte)"
proof -
  have um: "unat (word_of_nat m :: byte) = m" using assms by (simp add: unat_byte_of_nat)
  have t: "take_bit 7 (word_of_nat m :: byte) = word_of_nat m"
    using assms um by (simp add: word_unat_eq_iff unsigned_take_bit_eq take_bit_nat_eq_self)
  then show a: "word_of_nat m AND 0x7F = (word_of_nat m :: byte)"
    by (simp add: take_bit_eq_mask mask_eq_exp_minus_1)
  have "(word_of_nat m AND 0x7F) AND 0x80 = (0 :: byte)" by (simp add: and.assoc)
  with a show z: "word_of_nat m AND 0x80 = (0 :: byte)" by simp
  show "(word_of_nat m OR 0x80) AND 0x7F = (word_of_nat m :: byte)"
    by (simp add: bit.conj_disj_distrib2 a)
  show "(word_of_nat m OR 0x80) AND 0x80 = (0x80 :: byte)"
    by (simp add: bit.conj_disj_distrib2 z)
qed

lemma ucast_small_byte: "m < 128 \<Longrightarrow> (ucast (word_of_nat m :: byte) :: 64 word) = word_of_nat m"
  by (simp add: word_unat_eq_iff unat_ucast_byte unat_byte_of_nat unat_of_nat)

lemma decode_integer_loop_varint:
  "decode_integer_loop (pre @ varint_bytes n @ rest) (length pre) shift r =
     (r + word_of_nat n * 2 ^ shift, length pre + length (varint_bytes n))"
proof (induction n arbitrary: pre shift r rule: varint_bytes.induct)
  case (1 n)
  show ?case
  proof (cases "n < 128")
    case True
    then show ?thesis
      by (simp add: varint_bytes.simps [of n] decode_integer_loop.simps [of _ "length pre"]
          small_byte_bits ucast_small_byte push_bit_eq_mult)
  next
    case False
    let ?b = "word_of_nat (n mod 128) OR 0x80 :: byte"
    have "word_of_nat n = (word_of_nat (n mod 128) + word_of_nat (n div 128) * 128 :: 64 word)"
      by (metis mod_mult_div_eq mult.commute of_nat_add of_nat_mult of_nat_numeral)
    then have "r + word_of_nat (n mod 128) * 2 ^ shift + word_of_nat (n div 128) * 2 ^ (shift + 7) =
        r + word_of_nat n * 2 ^ shift"
      by (simp add: power_add algebra_simps)
    with 1 [OF False, of "pre @ [?b]" "shift + 7" "r + word_of_nat (n mod 128) * 2 ^ shift"] False
    show ?thesis
      by (simp add: varint_bytes.simps [of n] decode_integer_loop.simps [of _ "length pre"]
          small_byte_bits ucast_small_byte push_bit_eq_mult)
  qed
qed

lemma decodeInteger_long:
  assumes "b AND (push_bit pre 1 - 1) = push_bit pre 1 - 1"
    and "(ucast (push_bit pre 1 - 1 :: byte) :: 64 word) = word_of_nat m"
  shows "decodeInteger (b # varint_bytes k @ rest) pre =
    (word_of_nat (m + 2 ^ pre * k), 1 + length (varint_bytes k))"
  using decode_integer_loop_varint [of "[b]" k rest pre "word_of_nat m"] assms
  by (simp add: decodeInteger_def Let_def mult.commute)

text \<open>Integers of more than one byte: for each prefix length the decoder uses and every value from
  the prefix maximum on, the continuation bytes are scaled by \<open>2 ^ pre\<close> instead of 1, so the
  result is \<open>mask + 2 ^ pre * (v - mask)\<close> modulo \<open>2 ^ 64\<close>; below \<open>2 ^ 56\<close> it is the encoded value only
  for the prefix maximum itself.  Values below the prefix maximum are read correctly.\<close>

theorem hpack_integer_scaled:
  fixes rest :: bytes
  assumes "pre \<in> {4, 6, 7}" and "b AND (push_bit pre 1 - 1) = push_bit pre 1 - 1" and "2 ^ pre - 1 \<le> v"
  defines "r \<equiv> decodeInteger (b # varint_bytes (v - (2 ^ pre - 1)) @ rest) pre"
  shows "r = (word_of_nat (2 ^ pre - 1 + 2 ^ pre * (v - (2 ^ pre - 1))),
              1 + length (varint_bytes (v - (2 ^ pre - 1)))) \<and>
         (v < 2 ^ 56 \<longrightarrow> (unat (fst r) = v \<longleftrightarrow> v = 2 ^ pre - 1))"
proof
  have mask: "(ucast (push_bit pre 1 - 1 :: byte) :: 64 word) = word_of_nat (2 ^ pre - 1)"
    using assms(1) by auto
  show r: "r = (word_of_nat (2 ^ pre - 1 + 2 ^ pre * (v - (2 ^ pre - 1))),
                1 + length (varint_bytes (v - (2 ^ pre - 1))))"
    unfolding r_def using assms(2) mask by (rule decodeInteger_long)
  show "v < 2 ^ 56 \<longrightarrow> (unat (fst r) = v \<longleftrightarrow> v = 2 ^ pre - 1)"
  proof
    assume "v < 2 ^ 56"
    with assms(1,3) have "2 ^ pre - 1 + 2 ^ pre * (v - (2 ^ pre - 1)) < (2 :: nat) ^ 64" by auto
    then have "unat (fst r) = 2 ^ pre - 1 + 2 ^ pre * (v - (2 ^ pre - 1))"
      unfolding r fst_conv by (simp only: unat_of_nat) simp
    with assms(1,3) show "unat (fst r) = v \<longleftrightarrow> v = 2 ^ pre - 1" by auto
  qed
qed

theorem hpack_integer_scaled_witness:
  "decodeInteger (0x7f # varint_bytes (200 - (2 ^ 7 - 1)) @ []) 7 = (9471, 2)"
proof -
  have "varint_bytes (200 - (2 ^ 7 - 1)) = [73]" by (simp add: varint_bytes.simps)
  with hpack_integer_scaled [where pre = 7 and b = "0x7f" and v = 200 and rest = "[]"] show ?thesis by simp
qed

section \<open>HPACK strings and fields\<close>

lemma decodeString_short:
  assumes "length s < 127"
  shows "decodeString (word_of_nat (length s) # bytes_of s @ rest) = Ok (s, 1 + length s)"
proof -
  let ?n = "length s"
  have "(ucast (word_of_nat ?n AND 0x7F :: byte) :: 64 word) = word_of_nat ?n"
    using assms by (simp add: small_byte_bits ucast_small_byte)
  moreover have "(word_of_nat ?n :: 64 word) < 127"
    using assms by (simp add: word_less_nat_alt unat_of_nat)
  ultimately have i: "decodeInteger (word_of_nat ?n # bytes_of s @ rest) 7 = (word_of_nat ?n, 1)"
    by (simp add: decodeInteger_def Let_def)
  have "unat ((1 :: 64 word) + word_of_nat ?n) = 1 + ?n"
    using assms by (simp add: unat_word_ariths unat_of_nat)
  then show ?thesis by (simp add: decodeString_def i)
qed

definition hpack_string_bytes :: "string \<Rightarrow> bytes" where
  "hpack_string_bytes s = word_of_nat (length s) # bytes_of s"

text \<open>A literal field with a literal name: with incremental indexing (\<open>0x40\<close>) or without (\<open>0x00\<close>).\<close>

definition hpack_field_bytes :: "bool \<times> headerField \<Rightarrow> bytes" where
  "hpack_field_bytes = (\<lambda>(indexed, name, val).
     (if indexed then 0x40 else 0x00) # hpack_string_bytes name @ hpack_string_bytes val)"

definition hpack_short :: "bool \<times> headerField \<Rightarrow> bool" where
  "hpack_short = (\<lambda>(_, name, val). length name < 127 \<and> length val < 127)"

definition hpack_indexed :: "(bool \<times> headerField) list \<Rightarrow> headerField list" where
  "hpack_indexed fs = map snd (filter fst fs)"

lemma hpack_field_length: "length (hpack_field_bytes (i, name, val)) = 3 + length name + length val"
  by (simp add: hpack_field_bytes_def hpack_string_bytes_def)

lemma decode_literal_short:
  assumes "length name < 127" and "length val < 127"
  shows "decode_literal (b # hpack_string_bytes name @ hpack_string_bytes val @ rest) 1 =
    Ok (name, val, 3 + length name + length val)"
  using decodeString_short [OF assms(1)] decodeString_short [OF assms(2)]
  by (simp add: decode_literal_def hpack_string_bytes_def)

lemma decodeHeaderField_bytes:
  assumes "hpack_short (i, name, val)"
  shows "decodeHeaderField d (hpack_field_bytes (i, name, val) @ rest) =
    (d\<lparr>dynamicTable := dynamicTable d @ hpack_indexed [(i, name, val)]\<rparr>,
     Ok (name, val, 3 + length name + length val))"
  using assms
  by (cases i) (simp_all add: decodeHeaderField_def hpack_field_bytes_def decodeInteger_def
      hpack_short_def hpack_indexed_def decode_literal_short [simplified])

lemma decode_loop_bytes:
  "list_all hpack_short fs \<Longrightarrow>
   decode_loop d (pre @ concat (map hpack_field_bytes fs)) (length pre) headers =
     (d\<lparr>dynamicTable := dynamicTable d @ hpack_indexed fs\<rparr>, Ok (headers ++ map_of (rev (map snd fs))))"
proof (induction fs arbitrary: pre headers d)
  case Nil
  then show ?case by (simp add: decode_loop.simps hpack_indexed_def)
next
  case (Cons f fs)
  obtain i name val where f: "f = (i, name, val)" by (cases f)
  let ?d = "d\<lparr>dynamicTable := dynamicTable d @ hpack_indexed [f]\<rparr>"
  have "decode_loop ?d (pre @ concat (map hpack_field_bytes (f # fs))) (length pre + (3 + length name + length val))
      (headers(name \<mapsto> val)) = (?d\<lparr>dynamicTable := dynamicTable ?d @ hpack_indexed fs\<rparr>,
        Ok (headers(name \<mapsto> val) ++ map_of (rev (map snd fs))))"
    using Cons.IH [of ?d "pre @ hpack_field_bytes f" "headers(name \<mapsto> val)"] Cons.prems
    by (simp add: f hpack_field_length fun_upd_def)
  moreover have "hpack_short (i, name, val)" using Cons.prems f by simp
  moreover have "hpack_field_bytes f \<noteq> []" by (simp add: f hpack_field_bytes_def)
  moreover have "hpack_indexed (f # fs) = hpack_indexed [f] @ hpack_indexed fs"
    by (simp add: hpack_indexed_def)
  moreover have "headers ++ map_of (rev (map snd (f # fs))) = headers(name \<mapsto> val) ++ map_of (rev (map snd fs))"
    by (simp add: f map_add_assoc)
  ultimately show ?case
    by (subst decode_loop.simps) (simp add: f decodeHeaderField_bytes)
qed

text \<open>C25.  HPACK round trip for literal fields with names and values below 127 bytes: decoding a block of
  them gives each name the value of its last occurrence, and the fields marked for indexing, and
  only they, are appended to the dynamic table in order.\<close>

theorem hpack_literals_roundtrip:
  assumes "list_all hpack_short fs"
  shows "Decode d (concat (map hpack_field_bytes fs)) =
    (d\<lparr>dynamicTable := dynamicTable d @ hpack_indexed fs\<rparr>, Ok (map_of (rev (map snd fs))))"
  using decode_loop_bytes [OF assms, of d "[]" Map.empty] by (simp add: Decode_def)

definition hpack_example :: "(bool \<times> headerField) list" where
  "hpack_example = [(True, '':method'', ''GET''), (False, '':path'', ''/a''), (True, '':path'', ''/b'')]"

theorem hpack_literals_roundtrip_witness:
  "list_all hpack_short hpack_example \<and>
   Decode NewHPACKDecoder (concat (map hpack_field_bytes hpack_example)) =
     (\<lparr>dynamicTable = [('':method'', ''GET''), ('':path'', ''/b'')]\<rparr>,
      Ok (map_of [('':path'', ''/b''), ('':path'', ''/a''), ('':method'', ''GET'')]))"
proof -
  have s: "list_all hpack_short hpack_example" by (simp add: hpack_example_def hpack_short_def)
  from hpack_literals_roundtrip [OF s, of NewHPACKDecoder] s show ?thesis
    by (simp add: NewHPACKDecoder_def hpack_indexed_def hpack_example_def)
qed

text \<open>C27.  The only way a string read fails hard: \<open>uint64(consumed)+length\<close> wraps around and lands inside
  the data, so that the slice expression has its bounds the wrong way round.\<close>

theorem hpack_string_panic_exact:
  assumes "length data < 2 ^ 64"
  shows "decodeString data = Panic \<longleftrightarrow>
    (\<exists>len c. data \<noteq> [] \<and> decodeInteger data 7 = (len, c) \<and>
       2 ^ 64 \<le> c + unat len \<and> c + unat len - 2 ^ 64 \<le> length data)"
proof (cases "data = []")
  case True
  then show ?thesis by (simp add: decodeString_def)
next
  case False
  obtain len c where i: "decodeInteger data 7 = (len, c)" by (cases "decodeInteger data 7")
  with False have c: "0 < c" "c \<le> length data" using decodeInteger_consumed by blast+
  have u: "unat (word_of_nat c + len) = (c + unat len) mod 2 ^ 64"
    using c assms by (simp add: unat_word_ariths unat_of_nat)
  have l: "unat len < 2 ^ 64" using unsigned_less [where 'a = nat, of len] by simp
  have "decodeString data = Panic \<longleftrightarrow>
      (c + unat len) mod 2 ^ 64 \<le> length data \<and> (c + unat len) mod 2 ^ 64 < c"
    using False c(1) by (auto simp: decodeString_def i Let_def u obind_iffs go_slices)
  also have "\<dots> \<longleftrightarrow> 2 ^ 64 \<le> c + unat len \<and> c + unat len - 2 ^ 64 \<le> length data"
  proof (cases "c + unat len < 2 ^ 64")
    case True
    then show ?thesis by simp
  next
    case False
    have "(c + unat len) mod 2 ^ 64 = c + unat len - 2 ^ 64"
      using False l c(2) assms by (simp add: mod_if)
    with False l show ?thesis by linarith
  qed
  finally show ?thesis using False i by auto
qed

theorem hpack_string_panic_exact_witness:
  "decodeString ([0x7f, 0xff, 0xff, 0xff, 0xff, 0xff, 0xff, 0xff, 0xff, 0x7f] @ [0x61]) = Panic"
proof -
  have "decodeInteger ([0x7f, 0xff, 0xff, 0xff, 0xff, 0xff, 0xff, 0xff, 0xff, 0x7f] @ [0x61]) 7 =
      (0xffffffffffffffff, 10)"
    by (simp add: decodeInteger_def decode_integer_loop.simps push_bit_eq_mult)
  then show ?thesis
    using hpack_string_panic_exact [of "[0x7f, 0xff, 0xff, 0xff, 0xff, 0xff, 0xff, 0xff, 0xff, 0x7f] @ [0x61]"]
    by simp
qed

text \<open>A header block of eleven bytes crashes the decoder, with any decoder state and whatever
  follows: a literal field whose name announces \<open>2 ^ 64 - 1\<close> bytes.\<close>

lemma hpack_block_crashes_decoder:
  "snd (Decode d ([0x00, 0x7f, 0xff, 0xff, 0xff, 0xff, 0xff, 0xff, 0xff, 0xff, 0x7f] @ rest)) = Panic"
proof -
  let ?name = "0x7f # 0xff # 0xff # 0xff # 0xff # 0xff # 0xff # 0xff # 0xff # 0x7f # rest"
  have i: "decodeInteger ?name 7 = (0xffffffffffffffff, 10)"
    by (simp add: decodeInteger_def decode_integer_loop.simps push_bit_eq_mult)
  have "decodeString ?name = Panic"
    by (simp add: decodeString_def i go_slice_def)
  then have "snd (decodeHeaderField d (0x00 # ?name)) = Panic"
    by (simp add: decodeHeaderField_def decodeInteger_def decode_literal_def)
  then show ?thesis
    by (subst Decode_def, subst decode_loop.simps)
       (auto split: prod.splits outcome.splits simp: snd_def)
qed

section \<open>From a HEADERS frame to a request\<close>

lemma ParseHTTP2HeadersFrame_plain:
  "hf_Flags f AND HTTP2FlagPriority = 0 \<Longrightarrow>
   ParseHTTP2HeadersFrame f = Ok \<lparr>hh_StreamID = hf_StreamID f,
     hh_EndStream = (hf_Flags f AND HTTP2FlagEndStream \<noteq> 0),
     hh_EndHeaders = (hf_Flags f AND HTTP2FlagEndHeaders \<noteq> 0),
     hh_Priority = None, hh_HeaderBlockFragment = hf_Payload f\<rparr>"
  by (simp add: ParseHTTP2HeadersFrame_def)

lemma scan_space_digit: "is_digit c \<Longrightarrow> scan_space (c # s) = Some (c # s)"
proof -
  assume d: "is_digit c"
  then have "is_ascii c" "\<not> ascii_space c" "c \<noteq> CHR 0x0A"
    by (auto simp: is_digit_def is_ascii_def ascii_space_def)
  then show ?thesis by (simp add: scan_space.simps [of "c # s"] ws_len_ascii)
qed

lemma sscanf_d_dec: "n < 2 ^ 63 \<Longrightarrow> sscanf_d (dec n) = Some (int n)"
proof -
  assume n: "n < 2 ^ 63"
  obtain c s where d: "dec n = c # s" by (cases "dec n") simp_all
  have ds: "is_digit x" if "x \<in> set (c # s)" for x
    using that dec_digits [of x n] d by simp
  then have c: "is_digit c" "c \<noteq> CHR ''+'' \<and> c \<noteq> CHR ''-''" using digit_not_sign by simp_all
  have "takeWhile is_digit s = s" using ds by (simp add: takeWhile_eq_all_conv)
  then show ?thesis
    using Atoi_dec [OF n] c unfolding sscanf_d_def d scan_space_digit [OF c(1)]
    by (simp add: takeWhile_eq_all_conv [THEN iffD2])
qed

text \<open>C26.  A HEADERS frame with literal fields is turned into the request it carries: stream
  identifier, method, path, authority and scheme are the values of the pseudo-header fields, the
  last one where a field is repeated and empty where it is missing; and into the response whose
  status code is the number a \<open>:status\<close> field spells.\<close>

theorem http2_headers_to_message:
  assumes "hf_Flags f AND HTTP2FlagPriority = 0" and "hf_Payload f = concat (map hpack_field_bytes fs)"
    and "list_all hpack_short fs"
  defines "h \<equiv> map_of (rev (map snd fs))"
  shows "\<exists>hf d'. ParseHTTP2HeadersFrame f = Ok hf \<and>
    ParseHTTP2Request (Some hf) (Some d) = (Some d', Ok \<lparr>hq_StreamID = hf_StreamID f,
       hq_Method = header_value h '':method'', hq_Path = header_value h '':path'',
       hq_Authority = header_value h '':authority'', hq_Scheme = header_value h '':scheme'', hq_Headers = h\<rparr>) \<and>
    (\<forall>n. n < 2 ^ 63 \<longrightarrow> h '':status'' = Some (dec n) \<longrightarrow>
       ParseHTTP2Response (Some hf) (Some d) =
         (Some d', Ok \<lparr>hres_StreamID = hf_StreamID f, hres_StatusCode = int n, hres_Headers = h\<rparr>))"
proof -
  have dec: "Decode d (hf_Payload f) = (d\<lparr>dynamicTable := dynamicTable d @ hpack_indexed fs\<rparr>, Ok h)"
    using decode_loop_bytes [OF assms(3), of d "[]" Map.empty] assms(2) by (simp add: Decode_def h_def)
  show ?thesis
    by (rule exI, rule exI [of _ "d\<lparr>dynamicTable := dynamicTable d @ hpack_indexed fs\<rparr>"], rule conjI,
        rule ParseHTTP2HeadersFrame_plain [OF assms(1)])
       (simp add: ParseHTTP2Request_def ParseHTTP2Response_def dec sscanf_d_dec)
qed

theorem http2_headers_to_message_witness:
  "\<exists>hf d'. ParseHTTP2HeadersFrame \<lparr>hf_Length = 0, hf_Type = 1, hf_Flags = 5, hf_StreamID = 7,
      hf_Payload = concat (map hpack_field_bytes hpack_example)\<rparr> = Ok hf \<and>
    ParseHTTP2Request (Some hf) (Some NewHPACKDecoder) = (Some d', Ok \<lparr>hq_StreamID = 7,
       hq_Method = ''GET'', hq_Path = ''/b'', hq_Authority = '''', hq_Scheme = '''',
       hq_Headers = map_of (rev (map snd hpack_example))\<rparr>)"
proof -
  have s: "list_all hpack_short hpack_example" by (simp add: hpack_example_def hpack_short_def)
  let ?h = "map_of (rev (map snd hpack_example))"
  have v: "header_value ?h '':method'' = ''GET''" "header_value ?h '':path'' = ''/b''"
    "header_value ?h '':authority'' = ''''" "header_value ?h '':scheme'' = ''''"
    by (simp_all add: hpack_example_def header_value_def)
  show ?thesis
    using http2_headers_to_message [of "\<lparr>hf_Length = 0, hf_Type = 1, hf_Flags = 5, hf_StreamID = 7,
      hf_Payload = concat (map hpack_field_bytes hpack_example)\<rparr>" hpack_example NewHPACKDecoder] s
    by (auto simp: v)
qed

end
