(* ===== verification/Tls.thy ===== *)
theory Tls
  imports Go_Strings Framing
begin

text \<open>
  The TLS parser, \<open>src/pkg/protocol/https.go\<close>: records, the ClientHello message with its extensions
  (server name, ALPN), and the two functions that look into a record for the sniffer.  The source
  keeps the length of a record in a \<open>uint16\<close> and adds 5 to it in that type; the model does the same.
  The structures for ServerHello and for events are not built by any function of the source.
\<close>

section \<open>Data\<close>

definition tlsVersionNames :: "(16 word \<times> string) list" where
  "tlsVersionNames =
     [(0x0300, ''SSLv3.0''), (0x0301, ''TLSv1.0''), (0x0302, ''TLSv1.1''), (0x0303, ''TLSv1.2''),
      (0x0304, ''TLSv1.3'')]"

abbreviation TLSContentTypeChangeCipherSpec :: byte where "TLSContentTypeChangeCipherSpec \<equiv> 20"
abbreviation TLSContentTypeAlert :: byte where "TLSContentTypeAlert \<equiv> 21"
abbreviation TLSContentTypeHandshake :: byte where "TLSContentTypeHandshake \<equiv> 22"
abbreviation TLSContentTypeApplicationData :: byte where "TLSContentTypeApplicationData \<equiv> 23"

abbreviation TLSHandshakeClientHello :: byte where "TLSHandshakeClientHello \<equiv> 1"

definition tlsHandshakeTypeNames :: "(byte \<times> string) list" where
  "tlsHandshakeTypeNames =
     [(1, ''ClientHello''), (2, ''ServerHello''), (11, ''Certificate''), (12, ''ServerKeyExchange''),
      (13, ''CertificateRequest''), (14, ''ServerHelloDone''), (15, ''CertificateVerify''),
      (16, ''ClientKeyExchange''), (20, ''Finished'')]"

abbreviation TLSExtensionServerName :: "16 word" where "TLSExtensionServerName \<equiv> 0x0000"
abbreviation TLSExtensionALPN :: "16 word" where "TLSExtensionALPN \<equiv> 0x0010"

record TLSRecord =
  tr_ContentType :: byte
  tr_Version :: "16 word"
  tr_Length :: "16 word"
  tr_Data :: bytes

record TLSExtension =
  te_Type :: "16 word"
  te_Length :: "16 word"
  te_Data :: bytes

record TLSClientHello =
  tc_Version :: "16 word"
  tc_Random :: bytes
  tc_SessionID :: bytes
  tc_CipherSuites :: "16 word list"
  tc_CompressionMethods :: bytes
  tc_Extensions :: "TLSExtension list"
  tc_ServerName :: string
  tc_ALPNProtocols :: "string list"

datatype tls_error =
    TLSRecordTooShort | TLSIncompleteRecord | TLSClientHelloTooShort | TLSIncompleteSessionID
  | TLSIncompleteCipherSuites | TLSIncompleteCipherSuitesData | TLSIncompleteCompressionMethods
  | TLSIncompleteCompressionMethodsData | TLSIncompleteExtensionsLength | TLSIncompleteExtensionsData

section \<open>Records\<close>

text \<open>\<open>data[5 : 5+record.Length]\<close>: the upper bound is a \<open>uint16\<close> sum.\<close>

definition ParseTLSRecord :: "bytes \<Rightarrow> (tls_error, TLSRecord) outcome" where
  "ParseTLSRecord data =
     (if length data < 5 then Err TLSRecordTooShort
      else obind (go_index data 0) (\<lambda>ct. obind (u16be_at data 1) (\<lambda>ver. obind (u16be_at data 3) (\<lambda>len.
        if length data < 5 + unat len then Err TLSIncompleteRecord
        else obind (go_slice data 5 (unat (5 + len))) (\<lambda>d.
          Ok \<lparr>tr_ContentType = ct, tr_Version = ver, tr_Length = len, tr_Data = d\<rparr>)))))"

section \<open>Extensions\<close>

function parse_extensions_loop ::
  "bytes \<Rightarrow> nat \<Rightarrow> TLSExtension list \<Rightarrow> (tls_error, TLSExtension list) outcome" where
  "parse_extensions_loop data offset extensions =
     (if offset < length data then
        if offset + 4 > length data then Ok extensions
        else obind (u16be_at data offset) (\<lambda>typ. obind (u16be_at data (offset + 2)) (\<lambda>len.
          let offset = offset + 4 in
          if offset + unat len > length data then Ok extensions
          else obind (go_slice data offset (offset + unat len)) (\<lambda>d.
            parse_extensions_loop data (offset + unat len)
              (extensions @ [\<lparr>te_Type = typ, te_Length = len, te_Data = d\<rparr>]))))
      else Ok extensions)"
  by pat_completeness auto
termination by (relation "measure (\<lambda>(d, i, _). length d - i)") auto

declare parse_extensions_loop.simps [simp del]

definition parseTLSExtensions :: "bytes \<Rightarrow> (tls_error, TLSExtension list) outcome" where
  "parseTLSExtensions data = parse_extensions_loop data 0 []"

definition parseServerNameExtension :: "bytes \<Rightarrow> ('e, string) outcome" where
  "parseServerNameExtension data =
     (if length data < 5 then Ok ''''
      else obind (u16be_at data 0) (\<lambda>_. obind (go_index data 2) (\<lambda>nameType.
        if nameType \<noteq> 0 then Ok ''''
        else obind (u16be_at data 3) (\<lambda>nameLen.
          if length data < 5 + unat nameLen then Ok ''''
          else obind (go_slice data 5 (5 + unat nameLen)) (\<lambda>s. Ok (gostr s))))))"

function parse_alpn_loop :: "bytes \<Rightarrow> nat \<Rightarrow> string list \<Rightarrow> ('e, string list) outcome" where
  "parse_alpn_loop data offset protocols =
     (if offset < length data then
        let protoLen = unat (data ! offset); offset = offset + 1 in
        if offset + protoLen > length data then Ok protocols
        else obind (go_slice data offset (offset + protoLen)) (\<lambda>s.
          parse_alpn_loop data (offset + protoLen) (protocols @ [gostr s]))
      else Ok protocols)"
  by pat_completeness auto
termination by (relation "measure (\<lambda>(d, i, _). length d - i)") auto

declare parse_alpn_loop.simps [simp del]

definition parseALPNExtension :: "bytes \<Rightarrow> ('e, string list) outcome" where
  "parseALPNExtension data =
     (if length data < 2 then Ok []
      else obind (u16be_at data 0) (\<lambda>_. parse_alpn_loop data 2 []))"

section \<open>ClientHello\<close>

text \<open>The loop over the cipher suites.  The slice has \<open>cipherSuitesLen/2\<close> elements; writing past it
  panics.\<close>

function cipher_suites_loop ::
  "bytes \<Rightarrow> nat \<Rightarrow> nat \<Rightarrow> nat \<Rightarrow> 16 word list \<Rightarrow> (tls_error, 16 word list) outcome" where
  "cipher_suites_loop data offset n i suites =
     (if i < n then
        obind (u16be_at data (offset + i)) (\<lambda>v.
        if i div 2 < length suites
        then cipher_suites_loop data offset n (i + 2) (suites[i div 2 := v])
        else Panic)
      else Ok suites)"
  by pat_completeness auto
termination by (relation "measure (\<lambda>(_, _, n, i, _). n - i)") auto

declare cipher_suites_loop.simps [simp del]

text \<open>The loop over the extensions that fills in the server name and the protocols.\<close>

primrec scan_extensions :: "TLSExtension list \<Rightarrow> TLSClientHello \<Rightarrow> (tls_error, TLSClientHello) outcome" where
  "scan_extensions [] hello = Ok hello"
| "scan_extensions (ext # exts) hello =
     obind (if te_Type ext = TLSExtensionServerName
            then obind (parseServerNameExtension (te_Data ext)) (\<lambda>s. Ok (hello\<lparr>tc_ServerName := s\<rparr>))
            else Ok hello) (\<lambda>hello.
     obind (if te_Type ext = TLSExtensionALPN
            then obind (parseALPNExtension (te_Data ext)) (\<lambda>ps. Ok (hello\<lparr>tc_ALPNProtocols := ps\<rparr>))
            else Ok hello) (\<lambda>hello.
     scan_extensions exts hello))"

definition ParseTLSClientHello :: "bytes \<Rightarrow> (tls_error, TLSClientHello) outcome" where
  "ParseTLSClientHello data =
     (if length data < 43 then Err TLSClientHelloTooShort
      else obind (u16be_at data 0) (\<lambda>ver. obind (go_slice data 2 34) (\<lambda>random.
        obind (go_index data 34) (\<lambda>b.
        let sessionIDLen = unat b in
        if length data < 35 + sessionIDLen then Err TLSIncompleteSessionID
        else obind (go_slice data 35 (35 + sessionIDLen)) (\<lambda>sid.
        let offset = 35 + sessionIDLen in
        if length data < offset + 2 then Err TLSIncompleteCipherSuites
        else obind (u16be_at data offset) (\<lambda>n.
        let cipherSuitesLen = unat n; offset = offset + 2 in
        if length data < offset + cipherSuitesLen then Err TLSIncompleteCipherSuitesData
        else obind (cipher_suites_loop data offset cipherSuitesLen 0 (replicate (cipherSuitesLen div 2) 0)) (\<lambda>suites.
        let offset = offset + cipherSuitesLen in
        if length data < offset + 1 then Err TLSIncompleteCompressionMethods
        else obind (go_index data offset) (\<lambda>b.
        let compressionMethodsLen = unat b; offset = offset + 1 in
        if length data < offset + compressionMethodsLen then Err TLSIncompleteCompressionMethodsData
        else obind (go_slice data offset (offset + compressionMethodsLen)) (\<lambda>comp.
        let offset = offset + compressionMethodsLen;
            hello = \<lparr>tc_Version = ver, tc_Random = random, tc_SessionID = sid, tc_CipherSuites = suites,
              tc_CompressionMethods = comp, tc_Extensions = [], tc_ServerName = '''', tc_ALPNProtocols = []\<rparr> in
        if offset < length data then
          if length data < offset + 2 then Err TLSIncompleteExtensionsLength
          else obind (u16be_at data offset) (\<lambda>n.
          let extensionsLen = unat n; offset = offset + 2 in
          if length data < offset + extensionsLen then Err TLSIncompleteExtensionsData
          else obind (go_slice data offset (offset + extensionsLen)) (\<lambda>ed.
            obind (parseTLSExtensions ed) (\<lambda>exts.
              scan_extensions exts (hello\<lparr>tc_Extensions := exts\<rparr>))))
        else Ok hello)))))))))"

section \<open>Looking into a record\<close>

definition GetTLSVersionName :: "16 word \<Rightarrow> string" where
  "GetTLSVersionName version =
     (case map_of tlsVersionNames version of
        Some name \<Rightarrow> name | None \<Rightarrow> ''Unknown(0x'' @ hex_digits 4 (unat version) @ '')'')"

definition GetTLSHandshakeTypeName :: "byte \<Rightarrow> string" where
  "GetTLSHandshakeTypeName handshakeType =
     (case map_of tlsHandshakeTypeNames handshakeType of
        Some name \<Rightarrow> name | None \<Rightarrow> ''Unknown('' @ dec (unat handshakeType) @ '')'')"

definition IsTLSRecord :: "bytes \<Rightarrow> ('e, bool) outcome" where
  "IsTLSRecord data =
     (if length data < 5 then Ok False
      else obind (go_index data 0) (\<lambda>contentType. obind (u16be_at data 1) (\<lambda>version.
        if contentType \<noteq> TLSContentTypeHandshake \<and> contentType \<noteq> TLSContentTypeApplicationData \<and>
           contentType \<noteq> TLSContentTypeChangeCipherSpec \<and> contentType \<noteq> TLSContentTypeAlert
        then Ok False
        else Ok (map_of tlsVersionNames version \<noteq> None))))"

text \<open>An error of a callee is handled here, a panic is not.\<close>

primrec otry :: "('e, 'a) outcome \<Rightarrow> ('a \<Rightarrow> ('f, 'b) outcome) \<Rightarrow> ('f, 'b) outcome \<Rightarrow> ('f, 'b) outcome" where
  "otry (Ok v) k h = k v"
| "otry (Err e) k h = h"
| "otry Panic k h = Panic"

definition GetTLSInfo :: "bytes \<Rightarrow> (tls_error, string \<times> 16 word \<times> string) outcome" where
  "GetTLSInfo data =
     obind (IsTLSRecord data) (\<lambda>isrec.
     if \<not> isrec then Ok ('''', 0, '''')
     else otry (ParseTLSRecord data) (\<lambda>rec.
       let version = tr_Version rec in
       if tr_ContentType rec = TLSContentTypeHandshake \<and> length (tr_Data rec) > 0 then
         obind (go_index (tr_Data rec) 0) (\<lambda>handshakeType.
         let handshakeName = GetTLSHandshakeTypeName handshakeType in
         if handshakeType = TLSHandshakeClientHello \<and> length (tr_Data rec) > 1 then
           obind (go_from (tr_Data rec) 1) (\<lambda>msg.
           otry (ParseTLSClientHello msg)
             (\<lambda>hello. if tc_ServerName hello \<noteq> '''' then Ok (handshakeName, version, tc_ServerName hello)
                      else Ok (handshakeName, version, ''''))
             (Ok (handshakeName, version, '''')))
         else Ok (handshakeName, version, ''''))
       else Ok ('''', version, ''''))
     (Ok ('''', 0, '''')))"

definition CheckHTTPOverTLS :: "bytes \<Rightarrow> (tls_error, bool) outcome" where
  "CheckHTTPOverTLS data =
     obind (IsTLSRecord data) (\<lambda>isrec.
     if \<not> isrec then Ok False
     else otry (ParseTLSRecord data) (\<lambda>rec.
       if tr_ContentType rec = TLSContentTypeApplicationData then Ok True
       else if tr_ContentType rec = TLSContentTypeHandshake \<and> length (tr_Data rec) > 0 then
         obind (go_index (tr_Data rec) 0) (\<lambda>handshakeType.
         if handshakeType = TLSHandshakeClientHello then
           obind (go_from (tr_Data rec) 1) (\<lambda>msg.
           otry (ParseTLSClientHello msg)
             (\<lambda>hello. Ok (list_ex (\<lambda>proto. HasPrefix proto ''http'') (tc_ALPNProtocols hello)))
             (Ok False))
         else Ok False)
       else Ok False)
     (Ok False))"

section \<open>Record framing\<close>

definition tls_plen :: "bytes \<Rightarrow> nat" where
  "tls_plen d = unat (be16 (d ! 3) (d ! 4))"

definition tls_mk :: "bytes \<Rightarrow> bytes \<Rightarrow> TLSRecord" where
  "tls_mk h p = \<lparr>tr_ContentType = h ! 0, tr_Version = be16 (h ! 1) (h ! 2), tr_Length = be16 (h ! 3) (h ! 4),
     tr_Data = p\<rparr>"

lemma tls_end: "unat (5 + w) = (if unat w < 65531 then 5 + unat w else unat w - 65531)" for w :: "16 word"
proof -
  have "unat w < 65536" using unsigned_less [where 'a = nat, of w] by simp
  then show ?thesis by (simp add: unat_word_ariths mod_if)
qed

lemma ParseTLSRecord_full:
  assumes "5 + tls_plen d \<le> length d"
  shows "ParseTLSRecord d =
    (if tls_plen d < 65531 then Ok (tls_mk (take 5 d) (take (tls_plen d) (drop 5 d))) else Panic)"
proof -
  have "tls_plen d < 65536" using unsigned_less [where 'a = nat, of "be16 (d ! 3) (d ! 4)"] by (simp add: tls_plen_def)
  moreover have "d \<noteq> []" using assms by auto
  ultimately show ?thesis
    using assms
    by (cases "tls_plen d < 65531")
       (simp_all add: ParseTLSRecord_def tls_plen_def [symmetric] tls_end tls_mk_def go_slice_def numeral_2_eq_2
        del: go_slice_ok)
qed

lemma ParseTLSRecord_short: "length d < 5 \<Longrightarrow> ParseTLSRecord d = Err TLSRecordTooShort"
  by (simp add: ParseTLSRecord_def)

lemma ParseTLSRecord_incomplete:
  "5 \<le> length d \<Longrightarrow> length d < 5 + tls_plen d \<Longrightarrow> ParseTLSRecord d = Err TLSIncompleteRecord"
  by (cases d) (auto simp: ParseTLSRecord_def tls_plen_def)

interpretation tls: length_prefixed 5 tls_plen "\<lambda>n. n < 65531" tls_mk ParseTLSRecord
proof
  show "tls_plen (d @ x) = tls_plen d" if "5 \<le> length d" for d x :: bytes
    using that by (simp add: tls_plen_def nth_append)
qed (auto simp: ParseTLSRecord_full ParseTLSRecord_incomplete ParseTLSRecord_short)

definition tls_record_bytes :: "byte \<Rightarrow> 16 word \<Rightarrow> bytes \<Rightarrow> bytes" where
  "tls_record_bytes ct ver payload = ct # put_be 2 (unat ver) @ put_be 2 (length payload) @ payload"

lemma put_be_2: "put_be 2 n = [word_of_nat (n div 256), word_of_nat n]"
  by (simp add: put_be_def numeral_2_eq_2)

lemma be16_put: "n < 2 ^ 16 \<Longrightarrow> be16 (word_of_nat (n div 256)) (word_of_nat n) = word_of_nat n"
  using be_put(1) [of "word_of_nat n"] by (simp add: unat_of_nat put_be_2)

lemma tls_record_length [simp]: "length (tls_record_bytes ct ver payload) = 5 + length payload"
  by (simp add: tls_record_bytes_def)

lemma tls_plen_bytes:
  "length payload < 2 ^ 16 \<Longrightarrow> tls_plen (tls_record_bytes ct ver payload @ rest) = length payload"
  by (simp add: tls_plen_def tls_record_bytes_def put_be_2 be16_put unat_of_nat)

lemma tls_mk_bytes:
  assumes "length payload < 2 ^ 16"
  shows "tls_mk (take 5 (tls_record_bytes ct ver payload @ rest))
      (take (length payload) (drop 5 (tls_record_bytes ct ver payload @ rest))) =
    \<lparr>tr_ContentType = ct, tr_Version = ver, tr_Length = word_of_nat (length payload), tr_Data = payload\<rparr>"
proof -
  have "be16 (put_be 2 (unat ver) ! 0) (put_be 2 (unat ver) ! 1) = ver" by (rule be_put(1))
  with assms show ?thesis
    by (simp add: tls_mk_def tls_record_bytes_def put_be_2 be16_put)
qed

text \<open>C9.  TLS records: a record is read back exactly, whatever follows it, and a proper prefix is an error,
  as long as its payload is shorter than 65531 bytes; a record of 65531 to 65535 bytes, complete and
  well-formed, crashes the parser, because \<open>5+record.Length\<close> wraps around in 16 bits.\<close>

theorem tls_record_exact:
  assumes "length payload < 2 ^ 16"
  shows "ParseTLSRecord (tls_record_bytes ct ver payload @ rest) =
      (if length payload < 65531
       then Ok \<lparr>tr_ContentType = ct, tr_Version = ver, tr_Length = word_of_nat (length payload), tr_Data = payload\<rparr>
       else Panic) \<and>
    (length payload < 65531 \<longrightarrow>
       (\<forall>k < 5 + length payload. \<exists>e. ParseTLSRecord (take k (tls_record_bytes ct ver payload)) = Err e))"
proof
  show "ParseTLSRecord (tls_record_bytes ct ver payload @ rest) =
      (if length payload < 65531
       then Ok \<lparr>tr_ContentType = ct, tr_Version = ver, tr_Length = word_of_nat (length payload), tr_Data = payload\<rparr>
       else Panic)"
    using ParseTLSRecord_full [of "tls_record_bytes ct ver payload @ rest"] tls_mk_bytes [OF assms]
    by (simp only: tls_plen_bytes [OF assms]) simp
  have pl: "tls_plen (tls_record_bytes ct ver payload) = length payload"
    using tls_plen_bytes [OF assms, of ct ver "[]"] by simp
  show "length payload < 65531 \<longrightarrow>
      (\<forall>k < 5 + length payload. \<exists>e. ParseTLSRecord (take k (tls_record_bytes ct ver payload)) = Err e)"
    using tls.parse_truncated [of "tls_record_bytes ct ver payload"]
      ParseTLSRecord_full [of "tls_record_bytes ct ver payload"] pl by simp
qed

theorem tls_record_exact_witness:
  "ParseTLSRecord (tls_record_bytes 22 0x0301 (replicate 65531 0) @ []) = Panic \<and>
   ParseTLSRecord (tls_record_bytes 23 0x0303 [1, 2] @ [9]) =
     Ok \<lparr>tr_ContentType = 23, tr_Version = 0x0303, tr_Length = 2, tr_Data = [1, 2]\<rparr>"
  using tls_record_exact [of "replicate 65531 0" 22 "0x0301" "[]"]
    tls_record_exact [of "[1, 2]" 23 "0x0303" "[9]"]
  by simp

section \<open>ClientHello\<close>

lemma cipher_suites_loop_odd:
  "odd n \<Longrightarrow> even i \<Longrightarrow> i < n \<Longrightarrow> length suites = n div 2 \<Longrightarrow>
   cipher_suites_loop data offset n i suites = Panic"
proof (induction data offset n i suites rule: cipher_suites_loop.induct)
  case (1 data offset n i suites)
  show ?case
  proof (cases "offset + i + 2 \<le> length data \<and> i div 2 < length suites")
    case True
    with "1.prems" have "i + 2 < n" by (auto elim!: evenE oddE)
    with True "1.IH" [OF "1.prems"(3)] "1.prems" show ?thesis
      by (subst cipher_suites_loop.simps) simp
  next
    case False
    with "1.prems" show ?thesis
      by (subst cipher_suites_loop.simps) (auto simp: u16be_at_def)
  qed
qed

lemma cipher_suites_loop_even:
  "even n \<Longrightarrow> even i \<Longrightarrow> offset + n \<le> length data \<Longrightarrow> length suites = n div 2 \<Longrightarrow>
   \<exists>s. cipher_suites_loop data offset n i suites = Ok s"
proof (induction data offset n i suites rule: cipher_suites_loop.induct)
  case (1 data offset n i suites)
  show ?case
  proof (cases "i < n")
    case True
    with "1.prems" have "i + 2 \<le> n" "i div 2 < n div 2" by (auto elim!: evenE)
    with True "1.IH" [OF True] "1.prems" show ?thesis
      by (subst cipher_suites_loop.simps) simp
  next
    case False
    then show ?thesis by (subst cipher_suites_loop.simps) simp
  qed
qed

lemma parse_extensions_total: "\<exists>exts. parse_extensions_loop data offset acc = Ok exts"
proof (induction data offset acc rule: parse_extensions_loop.induct)
  case (1 data offset acc)
  show ?case
  proof (cases "offset + 4 \<le> length data \<and>
      offset + 4 + unat (be16 (data ! (offset + 2)) (data ! (offset + 2 + 1))) \<le> length data")
    case True
    with "1.IH" show ?thesis by (subst parse_extensions_loop.simps) (simp add: Let_def)
  next
    case False
    then show ?thesis by (subst parse_extensions_loop.simps) (auto simp: Let_def)
  qed
qed

lemma parse_alpn_total: "\<exists>ps. parse_alpn_loop data offset acc = Ok ps"
proof (induction data offset acc rule: parse_alpn_loop.induct)
  case (1 data offset acc)
  then show ?case by (subst parse_alpn_loop.simps) (auto simp: Let_def)
qed

lemma scan_extensions_total: "\<exists>h. scan_extensions exts hello = Ok h"
proof (induction exts arbitrary: hello)
  case (Cons e exts)
  have "\<exists>s. parseServerNameExtension (te_Data e) = (Ok s :: (tls_error, _) outcome)"
    by (cases "te_Data e") (auto simp: parseServerNameExtension_def)
  moreover have "\<exists>ps. parseALPNExtension (te_Data e) = (Ok ps :: (tls_error, _) outcome)"
    using parse_alpn_total by (auto simp: parseALPNExtension_def)
  ultimately show ?case using Cons by auto
qed simp

lemma extensions_not_Panic:
  "parse_extensions_loop data offset acc \<noteq> Panic" "scan_extensions exts hello \<noteq> Panic"
  using parse_extensions_total [of data offset acc] scan_extensions_total [of exts hello] by auto

text \<open>C10.  Exactly which data crashes the ClientHello parser: data that is long enough for its session
  identifier and its cipher suites and whose cipher-suite length is odd.  Every other input is
  parsed or rejected with an error; extensions can never crash it.\<close>

theorem tls_client_hello_panic_exact:
  "ParseTLSClientHello data = Panic \<longleftrightarrow>
     43 \<le> length data \<and> 35 + unat (data ! 34) + 2 \<le> length data \<and>
     (let o' = 35 + unat (data ! 34); n = unat (be16 (data ! o') (data ! (o' + 1)))
      in o' + 2 + n \<le> length data \<and> odd n)"
proof -
  let ?o = "35 + unat (data ! 34)"
  let ?n = "unat (be16 (data ! ?o) (data ! (?o + 1)))"
  show ?thesis
  proof (cases "43 \<le> length data \<and> ?o + 2 \<le> length data \<and> ?o + 2 + ?n \<le> length data")
    case False
    then show ?thesis by (auto simp: ParseTLSClientHello_def Let_def)
  next
    case True
    show ?thesis
    proof (cases "odd ?n")
      case True
      then have "0 < ?n" by (cases ?n) simp_all
      with True have "cipher_suites_loop data (?o + 2) ?n 0 (replicate (?n div 2) 0) = Panic"
        by (intro cipher_suites_loop_odd) simp_all
      with True \<open>43 \<le> length data \<and> ?o + 2 \<le> length data \<and> ?o + 2 + ?n \<le> length data\<close> show ?thesis
        by (auto simp: ParseTLSClientHello_def Let_def)
    next
      case False
      then obtain s where s: "cipher_suites_loop data (?o + 2) ?n 0 (replicate (?n div 2) 0) = Ok s"
        using cipher_suites_loop_even [of ?n 0 "?o + 2" data "replicate (?n div 2) 0"] True by auto
      show ?thesis
        using True False
        by (auto simp: ParseTLSClientHello_def Let_def s [simplified] obind_iffs go_slices parseTLSExtensions_def
            word_at_panic_iff extensions_not_Panic)
    qed
  qed
qed

subsection \<open>Round trip\<close>

definition tls_extension_bytes :: "TLSExtension \<Rightarrow> bytes" where
  "tls_extension_bytes e = put_be 2 (unat (te_Type e)) @ put_be 2 (unat (te_Length e)) @ te_Data e"

definition tls_extension_wf :: "TLSExtension \<Rightarrow> bool" where
  "tls_extension_wf e \<longleftrightarrow> length (te_Data e) = unat (te_Length e)"

lemma tls_extension_bytes_length:
  "tls_extension_wf e \<Longrightarrow> length (tls_extension_bytes e) = 4 + unat (te_Length e)"
  by (simp add: tls_extension_bytes_def tls_extension_wf_def)

lemma parse_extensions_bytes:
  "list_all tls_extension_wf exts \<Longrightarrow>
   parse_extensions_loop (pre @ concat (map tls_extension_bytes exts)) (length pre) acc = Ok (acc @ exts)"
proof (induction exts arbitrary: pre acc)
  case Nil
  then show ?case by (simp add: parse_extensions_loop.simps)
next
  case (Cons e exts)
  let ?d = "pre @ concat (map tls_extension_bytes (e # exts))"
  have len: "length (te_Data e) = unat (te_Length e)" using Cons.prems by (simp add: tls_extension_wf_def)
  have ty: "u16be_at ?d (length pre) = (Ok (te_Type e) :: (tls_error, _) outcome)"
    using be_at_append(1) [of "length pre" pre "te_Type e"] by (simp add: tls_extension_bytes_def)
  have tlen: "u16be_at ?d (length pre + 2) = (Ok (te_Length e) :: (tls_error, _) outcome)"
    using be_at_append(1) [of "length pre + 2" "pre @ put_be 2 (unat (te_Type e))" "te_Length e"]
    by (simp add: tls_extension_bytes_def)
  have sl: "go_slice ?d (length pre + 4) (length pre + 4 + unat (te_Length e)) =
      (Ok (te_Data e) :: (tls_error, _) outcome)"
    using len by (simp add: tls_extension_bytes_def)
  have "length pre + 4 + unat (te_Length e) \<le> length ?d"
    using len by (simp add: tls_extension_bytes_def)
  moreover have "parse_extensions_loop ?d (length pre + 4 + unat (te_Length e)) (acc @ [e]) = Ok (acc @ e # exts)"
    using Cons.IH [of "pre @ tls_extension_bytes e" "acc @ [e]"] Cons.prems
    by (simp add: tls_extension_bytes_length add.assoc)
  moreover have "\<lparr>te_Type = te_Type e, te_Length = te_Length e, te_Data = te_Data e\<rparr> = e" by simp
  moreover have "tls_extension_bytes e \<noteq> []" by (simp add: tls_extension_bytes_def put_be_2)
  ultimately show ?case
    by (subst parse_extensions_loop.simps) (simp only: ty tlen sl Let_def obind.simps, simp)
qed

definition tls_suites_bytes :: "16 word list \<Rightarrow> bytes" where
  "tls_suites_bytes cs = concat (map (\<lambda>c. put_be 2 (unat c)) cs)"

lemma tls_suites_length [simp]: "length (tls_suites_bytes cs) = 2 * length cs"
  unfolding tls_suites_bytes_def by (induction cs) simp_all

lemma cipher_suites_loop_bytes:
  "cipher_suites_loop (pre @ tls_suites_bytes (ds @ cs) @ rest) (length pre) (2 * length (ds @ cs))
     (2 * length ds) (ds @ replicate (length cs) 0) = Ok (ds @ cs)"
proof (induction cs arbitrary: ds)
  case Nil
  then show ?case by (simp add: cipher_suites_loop.simps)
next
  case (Cons c cs)
  let ?d = "pre @ tls_suites_bytes (ds @ c # cs) @ rest"
  have "u16be_at ?d (length pre + 2 * length ds) = (Ok c :: (tls_error, _) outcome)"
    using be_at_append(1) [of "length pre + 2 * length ds" "pre @ tls_suites_bytes ds" c]
    by (simp add: tls_suites_bytes_def [of "ds @ c # cs"] tls_suites_bytes_def [of ds, symmetric])
  moreover have "cipher_suites_loop ?d (length pre) (2 * length (ds @ c # cs)) (2 * length ds + 2)
      (ds @ c # replicate (length cs) 0) = Ok (ds @ c # cs)"
    using Cons.IH [of "ds @ [c]"] by simp
  ultimately show ?case
    by (subst cipher_suites_loop.simps) (simp add: list_update_append)
qed

text \<open>The wire form of a ClientHello with extensions, as the message body behind the handshake header.\<close>

definition tls_hello_bytes :: "TLSClientHello \<Rightarrow> bytes" where
  "tls_hello_bytes h =
     (let ed = concat (map tls_extension_bytes (tc_Extensions h)) in
      put_be 2 (unat (tc_Version h)) @ tc_Random h @
      [word_of_nat (length (tc_SessionID h))] @ tc_SessionID h @
      put_be 2 (2 * length (tc_CipherSuites h)) @ tls_suites_bytes (tc_CipherSuites h) @
      [word_of_nat (length (tc_CompressionMethods h))] @ tc_CompressionMethods h @
      put_be 2 (length ed) @ ed)"

definition tls_hello_wf :: "TLSClientHello \<Rightarrow> bool" where
  "tls_hello_wf h \<longleftrightarrow>
     length (tc_Random h) = 32 \<and> length (tc_SessionID h) < 256 \<and>
     0 < length (tc_CipherSuites h) \<and> length (tc_CipherSuites h) < 2 ^ 15 \<and>
     0 < length (tc_CompressionMethods h) \<and> length (tc_CompressionMethods h) < 256 \<and>
     list_all tls_extension_wf (tc_Extensions h) \<and>
     length (concat (map tls_extension_bytes (tc_Extensions h))) < 2 ^ 16"

text \<open>\<open>ParseTLSClientHello\<close> given what its reads return.\<close>

lemma ParseTLSClientHello_fields:
  fixes data :: bytes
  assumes "u16be_at data 0 = (Ok ver :: (tls_error, _) outcome)"
    and "go_slice data 2 34 = (Ok random :: (tls_error, _) outcome)"
    and "go_index data 34 = (Ok b :: (tls_error, _) outcome)"
    and "go_slice data 35 o1 = (Ok sid :: (tls_error, _) outcome)"
    and "o1 = 35 + unat b" and "u16be_at data o1 = (Ok n :: (tls_error, _) outcome)"
    and "cipher_suites_loop data (o1 + 2) (unat n) 0 (replicate (unat n div 2) 0) = Ok suites"
    and "o2 = o1 + 2 + unat n" and "go_index data o2 = (Ok c :: (tls_error, _) outcome)"
    and "go_slice data (o2 + 1) o3 = (Ok cm :: (tls_error, _) outcome)"
    and "o3 = o2 + 1 + unat c" and "u16be_at data o3 = (Ok m :: (tls_error, _) outcome)"
    and "go_slice data (o3 + 2) (o3 + 2 + unat m) = (Ok ed :: (tls_error, _) outcome)"
    and "43 \<le> length data" and "o3 + 2 + unat m \<le> length data"
  shows "ParseTLSClientHello data = obind (parseTLSExtensions ed) (\<lambda>exts. scan_extensions exts
    \<lparr>tc_Version = ver, tc_Random = random, tc_SessionID = sid, tc_CipherSuites = suites,
     tc_CompressionMethods = cm, tc_Extensions = exts, tc_ServerName = '''', tc_ALPNProtocols = []\<rparr>)"
proof -
  have "\<not> length data < 43" "\<not> length data < o1" "\<not> length data < o1 + 2" "\<not> length data < o2"
    "\<not> length data < o2 + 1" "\<not> length data < o3" "o3 < length data" "\<not> length data < o3 + 2"
    "\<not> length data < o3 + 2 + unat m"
    using assms(5,8,11,14,15) by linarith+
  then show ?thesis
    unfolding ParseTLSClientHello_def
    by (simp only: assms(1-4,6,7,9,10,12,13) assms(5,8,11) [symmetric] obind.simps Let_def if_False if_True
        TLSClientHello.update_convs)
qed

lemma ParseTLSClientHello_bytes:
  assumes "tls_hello_wf h"
  shows "ParseTLSClientHello (tls_hello_bytes h) =
    scan_extensions (tc_Extensions h) (h\<lparr>tc_ServerName := '''', tc_ALPNProtocols := []\<rparr>)"
proof -
  let ?ed = "concat (map tls_extension_bytes (tc_Extensions h))"
  let ?V = "put_be 2 (unat (tc_Version h))" and ?R = "tc_Random h" and ?S = "tc_SessionID h"
    and ?C = "tls_suites_bytes (tc_CipherSuites h)" and ?M = "tc_CompressionMethods h"
  let ?b = "word_of_nat (length ?S) :: byte" and ?c = "word_of_nat (length ?M) :: byte"
    and ?n = "word_of_nat (2 * length (tc_CipherSuites h)) :: 16 word" and ?m = "word_of_nat (length ?ed) :: 16 word"
  let ?data = "tls_hello_bytes h"
  have wf: "length ?R = 32" "unat ?b = length ?S" "unat ?c = length ?M" "length ?ed < 2 ^ 16"
    "unat ?n = 2 * length (tc_CipherSuites h)" "unat ?m = length ?ed" "0 < length (tc_CipherSuites h)" "0 < length ?M"
    using assms unfolding tls_hello_wf_def by (simp_all only: unat_of_nat) simp_all
  have d: "?data = ?V @ ?R @ [?b] @ ?S @ put_be 2 (unat ?n) @ ?C @ [?c] @ ?M @ put_be 2 (unat ?m) @ ?ed"
    by (simp only: wf(5,6)) (simp add: tls_hello_bytes_def Let_def)
  have suites: "cipher_suites_loop ?data (35 + unat ?b + 2) (unat ?n) 0 (replicate (unat ?n div 2) 0) =
      Ok (tc_CipherSuites h)"
    using cipher_suites_loop_bytes [of "?V @ ?R @ [?b] @ ?S @ put_be 2 (unat ?n)" "[]" "tc_CipherSuites h"
        "[?c] @ ?M @ put_be 2 (unat ?m) @ ?ed"] wf(1,2,5)
    by (simp add: d)
  have main: "ParseTLSClientHello ?data = obind (parseTLSExtensions ?ed) (\<lambda>exts. scan_extensions exts
    \<lparr>tc_Version = tc_Version h, tc_Random = ?R, tc_SessionID = ?S, tc_CipherSuites = tc_CipherSuites h,
     tc_CompressionMethods = ?M, tc_Extensions = exts, tc_ServerName = '''', tc_ALPNProtocols = []\<rparr>)"
  proof (rule ParseTLSClientHello_fields [OF _ _ _ _ refl _ suites refl _ _ refl])
    show "u16be_at ?data 0 = Ok (tc_Version h)"
      using be_at_append(1) [of 0 "[]" "tc_Version h"] by (simp add: d)
    show "u16be_at ?data (35 + unat ?b) = Ok ?n"
      using be_at_append(1) [of "35 + unat ?b" "?V @ ?R @ [?b] @ ?S" ?n] wf(1,2) by (simp add: d)
    show "u16be_at ?data (35 + unat ?b + 2 + unat ?n + 1 + unat ?c) = Ok ?m"
      using be_at_append(1) [of "35 + unat ?b + 2 + unat ?n + 1 + unat ?c"
          "?V @ ?R @ [?b] @ ?S @ put_be 2 (unat ?n) @ ?C @ [?c] @ ?M" ?m] wf(1,2,3,5) by (simp add: d)
    show "go_index ?data (35 + unat ?b + 2 + unat ?n) = Ok ?c"
      using go_index_append [of "35 + unat ?b + 2 + unat ?n" "?V @ ?R @ [?b] @ ?S @ put_be 2 (unat ?n) @ ?C" ?c] wf(1,2,5)
      by (simp add: d)
    show "go_slice ?data (35 + unat ?b + 2 + unat ?n + 1) (35 + unat ?b + 2 + unat ?n + 1 + unat ?c) = Ok ?M"
      using go_slice_append [of "35 + unat ?b + 2 + unat ?n + 1" "?V @ ?R @ [?b] @ ?S @ put_be 2 (unat ?n) @ ?C @ [?c]"
          "35 + unat ?b + 2 + unat ?n + 1 + unat ?c" ?M "put_be 2 (unat ?m) @ ?ed"] wf(1,2,3,5)
      by (simp only: d) simp
    show "go_slice ?data (35 + unat ?b + 2 + unat ?n + 1 + unat ?c + 2)
        (35 + unat ?b + 2 + unat ?n + 1 + unat ?c + 2 + unat ?m) = Ok ?ed"
      using go_slice_append_end [of "35 + unat ?b + 2 + unat ?n + 1 + unat ?c + 2"
          "?V @ ?R @ [?b] @ ?S @ put_be 2 (unat ?n) @ ?C @ [?c] @ ?M @ put_be 2 (unat ?m)"
          "35 + unat ?b + 2 + unat ?n + 1 + unat ?c + 2 + unat ?m" ?ed] wf(1,2,3,5,6)
      by (simp only: d) simp
    show "43 \<le> length ?data"
      using wf(1,7,8) by (simp add: d del: length_greater_0_conv)
  qed (use wf in \<open>simp_all add: d nth_append\<close>)
  have eq: "\<lparr>tc_Version = tc_Version h, tc_Random = ?R, tc_SessionID = ?S,
      tc_CipherSuites = tc_CipherSuites h, tc_CompressionMethods = ?M, tc_Extensions = tc_Extensions h,
      tc_ServerName = '''', tc_ALPNProtocols = []\<rparr> = h\<lparr>tc_ServerName := '''', tc_ALPNProtocols := []\<rparr>"
    by simp
  have "parseTLSExtensions ?ed = Ok (tc_Extensions h)"
    using parse_extensions_bytes [of "tc_Extensions h" "[]" "[]"] assms
    by (simp add: parseTLSExtensions_def tls_hello_wf_def)
  then show ?thesis by (simp only: main obind.simps eq)
qed

text \<open>The server-name and the ALPN extension.\<close>

definition sni_bytes :: "string \<Rightarrow> bytes" where
  "sni_bytes name = put_be 2 (3 + length name) @ [0] @ put_be 2 (length name) @ bytes_of name"

definition alpn_list_bytes :: "string list \<Rightarrow> bytes" where
  "alpn_list_bytes ps = concat (map (\<lambda>p. word_of_nat (length p) # bytes_of p) ps)"

definition alpn_bytes :: "string list \<Rightarrow> bytes" where
  "alpn_bytes ps = put_be 2 (length (alpn_list_bytes ps)) @ alpn_list_bytes ps"

definition tls_extension :: "16 word \<Rightarrow> bytes \<Rightarrow> TLSExtension" where
  "tls_extension t d = \<lparr>te_Type = t, te_Length = word_of_nat (length d), te_Data = d\<rparr>"

lemma parseServerNameExtension_bytes:
  assumes "length name < 2 ^ 16"
  shows "parseServerNameExtension (sni_bytes name) = Ok name"
proof -
  have "unat (word_of_nat (length name) :: 16 word) = length name" using assms by (simp add: unat_of_nat)
  then show ?thesis
    using assms by (simp add: parseServerNameExtension_def sni_bytes_def put_be_2 be16_put)
qed

lemma parse_alpn_loop_bytes:
  "list_all (\<lambda>p. length p < 256) ps \<Longrightarrow>
   parse_alpn_loop (pre @ alpn_list_bytes ps) (length pre) acc = (Ok (acc @ ps) :: (tls_error, string list) outcome)"
proof (induction ps arbitrary: pre acc)
  case Nil
  then show ?case by (simp add: parse_alpn_loop.simps alpn_list_bytes_def)
next
  case (Cons p ps)
  have n: "unat (word_of_nat (length p) :: byte) = length p" using Cons.prems by (simp add: unat_byte_of_nat)
  have "parse_alpn_loop (pre @ alpn_list_bytes (p # ps)) (length pre + 1 + length p) (acc @ [p]) =
      (Ok (acc @ p # ps) :: (tls_error, string list) outcome)"
    using Cons.IH [of "pre @ word_of_nat (length p) # bytes_of p" "acc @ [p]"] Cons.prems
    by (simp add: alpn_list_bytes_def)
  then show ?case
    by (subst parse_alpn_loop.simps) (simp add: alpn_list_bytes_def n Let_def)
qed

lemma parseALPNExtension_bytes:
  "list_all (\<lambda>p. length p < 256) ps \<Longrightarrow>
   parseALPNExtension (alpn_bytes ps) = (Ok ps :: (tls_error, string list) outcome)"
  using parse_alpn_loop_bytes [of ps "put_be 2 (length (alpn_list_bytes ps))" "[]"]
  by (simp add: parseALPNExtension_def alpn_bytes_def)

lemma scan_extensions_other:
  "list_all (\<lambda>e. te_Type e \<notin> {TLSExtensionServerName, TLSExtensionALPN}) exts \<Longrightarrow>
   scan_extensions (exts @ rest) hello = scan_extensions rest hello"
  by (induction exts) simp_all

text \<open>C11.  ClientHello round trip: a well-formed ClientHello is read back field by field, and its server
  name and its protocol list are those of its server-name and ALPN extensions, wherever among the
  other extensions the two stand.\<close>

theorem tls_client_hello_roundtrip:
  assumes "tls_hello_wf h"
    and "tc_Extensions h = xs @ [tls_extension TLSExtensionServerName (sni_bytes name)] @ ys @
           [tls_extension TLSExtensionALPN (alpn_bytes ps)] @ zs"
    and "list_all (\<lambda>e. te_Type e \<notin> {TLSExtensionServerName, TLSExtensionALPN}) (xs @ ys @ zs)"
    and "length name < 2 ^ 16" and "list_all (\<lambda>p. length p < 256) ps"
  shows "ParseTLSClientHello (tls_hello_bytes h) = Ok (h\<lparr>tc_ServerName := name, tc_ALPNProtocols := ps\<rparr>)"
  using assms(3-) scan_extensions_other [of zs "[]"]
  by (simp add: ParseTLSClientHello_bytes [OF assms(1)] assms(2) scan_extensions_other tls_extension_def
      parseServerNameExtension_bytes parseALPNExtension_bytes)

definition tls_hello_example :: TLSClientHello where
  "tls_hello_example = \<lparr>tc_Version = 0x0303, tc_Random = replicate 32 7, tc_SessionID = [1],
     tc_CipherSuites = [0x1301, 0x1302], tc_CompressionMethods = [0],
     tc_Extensions = [] @ [tls_extension TLSExtensionServerName (sni_bytes ''db.io'')] @
       [tls_extension 0x002b [2, 3, 4]] @ [tls_extension TLSExtensionALPN (alpn_bytes [''h2''])] @ [],
     tc_ServerName = '''', tc_ALPNProtocols = []\<rparr>"

lemma tls_hello_example_wf: "tls_hello_wf tls_hello_example"
  by (simp add: tls_hello_wf_def tls_hello_example_def tls_extension_wf_def tls_extension_def
      tls_extension_bytes_def sni_bytes_def alpn_bytes_def alpn_list_bytes_def)

theorem tls_client_hello_roundtrip_witness:
  "ParseTLSClientHello (tls_hello_bytes tls_hello_example) =
     Ok (tls_hello_example\<lparr>tc_ServerName := ''db.io'', tc_ALPNProtocols := [''h2'']\<rparr>)"
  by (rule tls_client_hello_roundtrip [OF tls_hello_example_wf,
        of "[]" "''db.io''" "[tls_extension 0x002b [2, 3, 4]]" "[''h2'']" "[]"])
     (simp_all add: tls_hello_example_def tls_extension_def)

text \<open>The record view loses the server name: behind the type byte of a handshake message come three
  length bytes, which \<open>GetTLSInfo\<close> does not skip, so it takes byte 29 of the random for the length of the
  session identifier.  Whenever that byte reaches past the message, the record is reported without
  server name and is not taken for HTTP over TLS, whatever the message says.\<close>

theorem tls_info_misses_client_hello:
  assumes "40 \<le> length body" and "length body < 32 + unat (body ! 31)" and "ver \<in> fst ` set tlsVersionNames"
  defines "rec \<equiv> tls_record_bytes TLSContentTypeHandshake ver (TLSHandshakeClientHello # put_be 3 (length body) @ body)"
  shows "GetTLSInfo rec = Ok (''ClientHello'', ver, '''') \<and> CheckHTTPOverTLS rec = Ok False"
proof -
  let ?msg = "put_be 3 (length body) @ body"
  have short: "length body < 300" using assms(2) unat_byte_less [of "body ! 31"] by simp
  have "ParseTLSClientHello ?msg = Err TLSIncompleteSessionID"
    using assms(1,2) by (simp add: ParseTLSClientHello_def nth_append)
  moreover have "ParseTLSRecord rec = Ok \<lparr>tr_ContentType = TLSContentTypeHandshake, tr_Version = ver,
      tr_Length = word_of_nat (length body + 4), tr_Data = TLSHandshakeClientHello # ?msg\<rparr>"
    using ParseTLSRecord_full [of rec] tls_mk_bytes [of "TLSHandshakeClientHello # ?msg" TLSContentTypeHandshake ver "[]"]
      tls_plen_bytes [of "TLSHandshakeClientHello # ?msg" TLSContentTypeHandshake ver "[]"] short
    by (simp add: rec_def)
  moreover have "IsTLSRecord rec = (Ok True :: (tls_error, bool) outcome)"
  proof -
    have "u16be_at rec 1 = (Ok ver :: (tls_error, _) outcome)"
      using be_at_append(1) [of 1 "[TLSContentTypeHandshake]" ver] by (simp add: rec_def tls_record_bytes_def)
    moreover have "map_of tlsVersionNames ver \<noteq> None" using assms(3) by (simp add: map_of_eq_None_iff)
    ultimately show ?thesis
      unfolding IsTLSRecord_def by (simp only: obind.simps) (simp add: rec_def tls_record_bytes_def)
  qed
  moreover have "GetTLSHandshakeTypeName TLSHandshakeClientHello = ''ClientHello''"
    by (simp add: GetTLSHandshakeTypeName_def tlsHandshakeTypeNames_def)
  ultimately show ?thesis
    by (simp add: GetTLSInfo_def CheckHTTPOverTLS_def)
qed

theorem tls_info_misses_client_hello_witness:
  "GetTLSInfo (tls_record_bytes TLSContentTypeHandshake 0x0301 (TLSHandshakeClientHello #
      put_be 3 (length (tls_hello_bytes (tls_hello_example\<lparr>tc_Random := replicate 32 0xff\<rparr>))) @
      tls_hello_bytes (tls_hello_example\<lparr>tc_Random := replicate 32 0xff\<rparr>))) = Ok (''ClientHello'', 0x0301, '''')"
proof -
  let ?b = "tls_hello_bytes (tls_hello_example\<lparr>tc_Random := replicate 32 0xff\<rparr>)"
  have b: "40 \<le> length ?b" "length ?b < 32 + 255" "?b ! 31 = 0xff"
    by (simp_all add: tls_hello_bytes_def tls_hello_example_def tls_extension_bytes_def tls_extension_def
        sni_bytes_def alpn_bytes_def alpn_list_bytes_def nth_append Let_def)
  then have "length ?b < 32 + unat (?b ! 31)" by simp
  moreover have "(0x0301 :: 16 word) \<in> fst ` set tlsVersionNames" by (simp add: tlsVersionNames_def)
  ultimately show ?thesis using tls_info_misses_client_hello [OF b(1)] by blast
qed

end
