(* ===== verification/Mysql.thy ===== *)
theory Mysql
  imports Go_Strings Framing
begin

text \<open>
  The MySQL parser, \<open>src/pkg/protocol/mysql.go\<close>: the packet framing, the handshake, query, OK, EOF
  and error packets, the length-encoded integers and the classification of SQL statements.  Every
  \<open>fmt.Errorf\<close> of the source is a constructor of \<open>mysql_error\<close>.  The structures the source declares
  for column definitions, rows and events are not built by any of its functions and are left out.
\<close>

section \<open>Data\<close>

datatype mysql_error =
    MySQLHeaderTooShort | MySQLIncompletePacket | MySQLHandshakeTooShort
  | MySQLIncompleteConnectionID | MySQLIncompleteAuthPluginData | MySQLIncompleteCapabilityFlags
  | MySQLIncompleteCharacterSet | MySQLIncompleteStatusFlags
  | MySQLQueryTooShort | MySQLOKTooShort | MySQLEOFTooShort | MySQLErrorTooShort

definition MySQLPacketHeaderSize :: nat where
  "MySQLPacketHeaderSize = 4"

definition MySQLMaxPacketSize :: nat where
  "MySQLMaxPacketSize = 2 ^ 24 - 1"

record MySQLPacket =
  mp_SequenceID :: byte
  mp_Payload :: bytes


record MySQLQueryPacket =
  mq_Command :: byte
  mq_SQL :: string

record MySQLOKPacket =
  mo_AffectedRows :: "64 word"
  mo_LastInsertID :: "64 word"
  mo_StatusFlags :: "16 word"
  mo_Warnings :: "16 word"

record MySQLEOFPacket =
  me_Warnings :: "16 word"
  me_StatusFlags :: "16 word"

record MySQLErrorPacket =
  mr_ErrorCode :: "16 word"
  mr_SQLState :: string
  mr_Message :: string

text \<open>The command bytes and their names, in the order of the source.  \<open>0x0b\<close> has two names there
  (\<open>MySQLCommandOptions\<close> and \<open>MySQLCommandConnect\<close>); the first is kept.\<close>

definition mysqlCommandTypeNames :: "(byte \<times> string) list" where
  "mysqlCommandTypeNames =
    [(0x00, ''SLEEP''), (0x01, ''QUIT''), (0x02, ''INIT_DB''), (0x03, ''QUERY''),
     (0x0b, ''OPTIONS''), (0x09, ''STAT_V''), (0x08, ''REFRESH''), (0x0e, ''PING''),
     (0x0a, ''PROCESS_INFO''), (0x0b, ''CONNECT''), (0x0c, ''PROCESS_KILL''), (0x0d, ''DEBUG''),
     (0x12, ''BINLOG_DUMP''), (0x13, ''TABLE_DUMP''), (0x14, ''CONNECT_OUT''),
     (0x15, ''REGISTER_SLAVE''), (0x16, ''PREPARE''), (0x17, ''EXECUTE''),
     (0x18, ''SEND_LONG_DATA''), (0x19, ''CLOSE_STMT''), (0x1a, ''RESET_STMT''),
     (0x1b, ''SET_OPTION''), (0x1c, ''FETCH'')]"

section \<open>Operations\<close>

text \<open>\<open>int(uint32(data[0]) | uint32(data[1])<<8 | uint32(data[2])<<16)\<close>; the callers have checked
  that there are four bytes.\<close>

definition mysql_payload_len :: "bytes \<Rightarrow> nat" where
  "mysql_payload_len data =
     unat (ucast (data ! 0) OR push_bit 8 (ucast (data ! 1)) OR push_bit 16 (ucast (data ! 2)) :: 32 word)"

definition ParseMySQLPacket :: "bytes \<Rightarrow> (mysql_error, MySQLPacket) outcome" where
  "ParseMySQLPacket data =
     (if length data < MySQLPacketHeaderSize then Err MySQLHeaderTooShort
      else let payloadLen = mysql_payload_len data in
        obind (go_index data 3) (\<lambda>sequenceID.
        if length data < MySQLPacketHeaderSize + payloadLen then Err MySQLIncompletePacket
        else obind (go_slice data MySQLPacketHeaderSize (MySQLPacketHeaderSize + payloadLen)) (\<lambda>payload.
          Ok \<lparr>mp_SequenceID = sequenceID, mp_Payload = payload\<rparr>)))"




definition ParseMySQLQuery :: "bytes \<Rightarrow> (mysql_error, MySQLQueryPacket) outcome" where
  "ParseMySQLQuery data =
     (if length data < 1 then Err MySQLQueryTooShort
      else obind (go_index data 0) (\<lambda>cmd.
        let packet = \<lparr>mq_Command = cmd, mq_SQL = ''''\<rparr> in
        if length data > 1
        then obind (go_from data 1) (\<lambda>sql. Ok (packet\<lparr>mq_SQL := gostr sql\<rparr>))
        else Ok packet))"

text \<open>\<open>readLenEncInteger\<close> returns the value and the number of bytes it used, 0 for a truncated
  integer.  \<open>0xff\<close> falls through to the 8-byte form, as in the source.\<close>

definition readLenEncInteger :: "bytes \<Rightarrow> ('e, 64 word \<times> nat) outcome" where
  "readLenEncInteger data =
     (if length data = 0 then Ok (0, 0)
      else obind (go_index data 0) (\<lambda>firstByte.
        if firstByte < 0xfb then Ok (ucast firstByte, 1)
        else if firstByte = 0xfb then Ok (0, 1)
        else if firstByte = 0xfc then
          if length data < 3 then Ok (0, 0)
          else obind (u16le_at data 1) (\<lambda>v. Ok (ucast v, 3))
        else if firstByte = 0xfd then
          if length data < 4 then Ok (0, 0)
          else obind (go_index data 1) (\<lambda>b1. obind (go_index data 2) (\<lambda>b2. obind (go_index data 3) (\<lambda>b3.
            Ok (ucast b1 OR push_bit 8 (ucast b2) OR push_bit 16 (ucast b3), 4))))
        else if length data < 9 then Ok (0, 0)
        else obind (u64le_at data 1) (\<lambda>v. Ok (v, 9))))"

definition ParseMySQLOK :: "bytes \<Rightarrow> (mysql_error, MySQLOKPacket) outcome" where
  "ParseMySQLOK data =
     (if length data < 7 then Err MySQLOKTooShort
      else let packet = \<lparr>mo_AffectedRows = 0, mo_LastInsertID = 0, mo_StatusFlags = 0, mo_Warnings = 0\<rparr>;
               offset = 1 in
        obind (go_from data offset) (\<lambda>rest.
        obind (readLenEncInteger rest) (\<lambda>(rowCount, consumed).
        let packet = packet\<lparr>mo_AffectedRows := rowCount\<rparr>; offset = offset + consumed in
        obind (go_from data offset) (\<lambda>rest.
        obind (readLenEncInteger rest) (\<lambda>(lastInsertID, consumed).
        let packet = packet\<lparr>mo_LastInsertID := lastInsertID\<rparr>; offset = offset + consumed in
        obind (if offset + 2 \<le> length data
               then obind (u16le_at data offset) (\<lambda>v. Ok (packet\<lparr>mo_StatusFlags := v\<rparr>, offset + 2))
               else Ok (packet, offset)) (\<lambda>(packet, offset).
        if offset + 2 \<le> length data
        then obind (u16le_at data offset) (\<lambda>v. Ok (packet\<lparr>mo_Warnings := v\<rparr>))
        else Ok packet))))))"

definition ParseMySQLEOF :: "bytes \<Rightarrow> (mysql_error, MySQLEOFPacket) outcome" where
  "ParseMySQLEOF data =
     (if length data < 5 then Err MySQLEOFTooShort
      else obind (u16le_at data 1) (\<lambda>w. obind (u16le_at data 3) (\<lambda>s.
        Ok \<lparr>me_Warnings = w, me_StatusFlags = s\<rparr>)))"

definition ParseMySQLError :: "bytes \<Rightarrow> (mysql_error, MySQLErrorPacket) outcome" where
  "ParseMySQLError data =
     (if length data < 4 then Err MySQLErrorTooShort
      else obind (u16le_at data 1) (\<lambda>code.
        let packet = \<lparr>mr_ErrorCode = code, mr_SQLState = '''', mr_Message = ''''\<rparr> in
        obind (if length data > 3 then obind (go_index data 3) (\<lambda>b. Ok (b = of_char (CHR ''#'')))
               else Ok False) (\<lambda>new_format.
        if new_format then
          if length data \<ge> 9
          then obind (go_slice data 4 9) (\<lambda>st. obind (go_from data 9) (\<lambda>msg.
            Ok (packet\<lparr>mr_SQLState := gostr st, mr_Message := gostr msg\<rparr>)))
          else Ok packet
        else obind (go_from data 3) (\<lambda>msg. Ok (packet\<lparr>mr_Message := gostr msg\<rparr>)))))"

definition GetMySQLCommandTypeName :: "byte \<Rightarrow> string" where
  "GetMySQLCommandTypeName command =
     (case map_of mysqlCommandTypeNames command of
        Some name \<Rightarrow> name
      | None \<Rightarrow> ''UNKNOWN(0x'' @ hex_digits 2 (unat command) @ '')'')"

definition IsMySQLPacket :: "bytes \<Rightarrow> ('e, bool) outcome" where
  "IsMySQLPacket data =
     (if length data < MySQLPacketHeaderSize then Ok False
      else let payloadLen = int (mysql_payload_len data) in
        if payloadLen < 0 \<or> payloadLen > int MySQLMaxPacketSize then Ok False
        else obind (go_index data 3) (\<lambda>sequenceID.
          if sequenceID > 255 then Ok False else Ok True))"

text \<open>The keywords \<open>GetMySQLCommand\<close> tests for, in its order.\<close>

definition mysql_keywords :: "string list" where
  "mysql_keywords = [''SELECT'', ''INSERT'', ''UPDATE'', ''DELETE'', ''CREATE'', ''ALTER'', ''DROP'',
     ''TRUNCATE'', ''GRANT'', ''REVOKE'', ''BEGIN'', ''COMMIT'', ''ROLLBACK'']"

definition GetMySQLCommand :: "(string \<Rightarrow> string) \<Rightarrow> string \<Rightarrow> string" where
  "GetMySQLCommand uni sql =
     (let sql = ToUpper uni (TrimSpace sql) in
      case find (HasPrefix sql) mysql_keywords of Some k \<Rightarrow> k | None \<Rightarrow> ''OTHER'')"

section \<open>The packet framing\<close>

lemma mysql_payload_len_eq: "mysql_payload_len data = le_nat [data ! 0, data ! 1, data ! 2]"
proof -
  have "unat (push_bit 16 (ucast (data ! 2)) :: 32 word) = unat (data ! 2) * 2 ^ 16"
    by (simp add: unat_push_byte)
  then show ?thesis
    by (simp add: mysql_payload_len_def unat_or_byte0 unat_or_byte)
qed

lemma mysql_payload_len_bound: "mysql_payload_len data \<le> MySQLMaxPacketSize"
  using le_nat_less [of "[data ! 0, data ! 1, data ! 2]"]
  by (simp add: mysql_payload_len_eq MySQLMaxPacketSize_def del: le_nat.simps)

definition mysql_mk :: "bytes \<Rightarrow> bytes \<Rightarrow> MySQLPacket" where
  "mysql_mk h p = \<lparr>mp_SequenceID = h ! 3, mp_Payload = p\<rparr>"

interpretation mysql: length_prefixed_total 4 mysql_payload_len "\<lambda>_. True" mysql_mk ParseMySQLPacket
  by unfold_locales
    (auto simp: ParseMySQLPacket_def MySQLPacketHeaderSize_def mysql_mk_def mysql_payload_len_eq
      nth_append Let_def)

text \<open>The wire form of a packet, used to state the round trip.\<close>

definition mysql_packet_bytes :: "byte \<Rightarrow> bytes \<Rightarrow> bytes" where
  "mysql_packet_bytes seq payload = put_le 3 (length payload) @ [seq] @ payload"

lemma put_le_3: "put_le 3 n = [word_of_nat n, word_of_nat (n div 256), word_of_nat (n div 256 div 256)]"
  by (simp only: numeral_3_eq_3 put_le.simps)

lemma mysql_payload_len_bytes:
  "length payload < 2 ^ 24 \<Longrightarrow> mysql_payload_len (mysql_packet_bytes seq payload @ rest) = length payload"
  using le_nat_put_le [of "length payload" 3]
  by (simp add: mysql_payload_len_eq mysql_packet_bytes_def put_le_3)

lemma mysql_packet_length [simp]: "length (mysql_packet_bytes seq payload) = 4 + length payload"
  by (simp add: mysql_packet_bytes_def)

lemma ParseMySQLPacket_bytes:
  "length payload < 2 ^ 24 \<Longrightarrow>
   ParseMySQLPacket (mysql_packet_bytes seq payload @ rest) =
     Ok \<lparr>mp_SequenceID = seq, mp_Payload = payload\<rparr>"
  by (simp add: mysql.parse_Ok_iff mysql_payload_len_bytes mysql_mk_def)
     (simp add: mysql_packet_bytes_def put_le_3)

text \<open>C6.  A MySQL packet survives the wire: for every sequence number and every payload the 3-byte
  length field can carry, parsing the packet's bytes returns exactly that packet, whatever bytes
  follow it, and any proper prefix of the packet is rejected with an error.\<close>

theorem mysql_packet_roundtrip:
  assumes "length payload < 2 ^ 24"
  shows "ParseMySQLPacket (mysql_packet_bytes seq payload @ rest) =
           Ok \<lparr>mp_SequenceID = seq, mp_Payload = payload\<rparr> \<and>
         (\<forall>k < 4 + length payload. \<exists>e. ParseMySQLPacket (take k (mysql_packet_bytes seq payload)) = Err e)"
proof (intro conjI allI impI)
  show "ParseMySQLPacket (mysql_packet_bytes seq payload @ rest) =
      Ok \<lparr>mp_SequenceID = seq, mp_Payload = payload\<rparr>"
    using assms by (rule ParseMySQLPacket_bytes)
next
  fix k assume "k < 4 + length payload"
  with mysql.parse_truncated ParseMySQLPacket_bytes [OF assms, of seq "[]"]
    mysql_payload_len_bytes [OF assms, of seq "[]"]
  show "\<exists>e. ParseMySQLPacket (take k (mysql_packet_bytes seq payload)) = Err e" by simp
qed

theorem mysql_packet_roundtrip_witness:
  "ParseMySQLPacket (mysql_packet_bytes 7 [0x0e] @ [0xff]) = Ok \<lparr>mp_SequenceID = 7, mp_Payload = [0x0e]\<rparr>"
  using mysql_packet_roundtrip [of "[0x0e]" 7 "[0xff]"] by simp

text \<open>\<open>IsMySQLPacket\<close> accepts exactly the inputs with a full header: its length test and its
  sequence-number test reject nothing, since a 24-bit length and an 8-bit number never leave the
  ranges they are tested against.\<close>

theorem IsMySQLPacket_accepts_any_header:
  "IsMySQLPacket data = Ok (4 \<le> length data)"
proof -
  have "\<not> (data ! 3 > 255)" by (simp add: not_less word_le_nat_alt unat_byte_le)
  then show ?thesis
    using mysql_payload_len_bound [of data]
    by (auto simp: IsMySQLPacket_def MySQLPacketHeaderSize_def Let_def)
qed

section \<open>Length-encoded integers\<close>

text \<open>The wire form MySQL prescribes: one byte up to 250, then the shortest of the prefixed forms.\<close>

definition lenenc_bytes :: "64 word \<Rightarrow> bytes" where
  "lenenc_bytes v =
     (if unat v < 0xfb then [ucast v]
      else if unat v < 2 ^ 16 then 0xfc # put_le 2 (unat v)
      else if unat v < 2 ^ 24 then 0xfd # put_le 3 (unat v)
      else 0xfe # put_le 8 (unat v))"

lemma readLenEncInteger_bounds:
  "readLenEncInteger data = Ok (v, n) \<Longrightarrow> n \<le> length data \<and> n \<le> 9 \<and> (n = 0 \<longrightarrow> v = 0)"
  by (auto simp: readLenEncInteger_def Suc_le_eq split: if_splits)

lemma readLenEncInteger_total: "\<exists>v n. readLenEncInteger data = Ok (v, n)"
  by (simp add: readLenEncInteger_def)

lemma unat_le24:
  "unat (ucast b1 OR push_bit 8 (ucast b2) OR push_bit 16 (ucast b3) :: 64 word) = le_nat [b1, b2, b3]"
proof -
  have "unat (push_bit 16 (ucast b3) :: 64 word) = unat b3 * 2 ^ 16"
    by (simp add: unat_push_byte)
  then show ?thesis by (simp add: unat_or_byte0 unat_or_byte)
qed

lemma unat_ucast_small:
  fixes v :: "'a::len word"
  assumes "unat v < 2 ^ LENGTH('b::len)"
  shows "unat (ucast v :: 'b word) = unat v"
  using assms by (simp add: unsigned_ucast_eq take_bit_nat_eq_self)

lemma ucast_ucast_small:
  fixes v :: "64 word"
  assumes "unat v < 2 ^ LENGTH('b::len)"
  shows "(ucast (ucast v :: 'b word) :: 64 word) = v"
proof -
  have "unat (ucast v :: 'b word) < 2 ^ 64"
    using unsigned_less [where 'a = nat, of v] by (simp add: unat_ucast_small assms)
  then have "unat (ucast (ucast v :: 'b word) :: 64 word) = unat v"
    by (simp add: unat_ucast_small assms)
  then show ?thesis by (simp add: word_unat_eq_iff)
qed

lemma readLenEncInteger_byte:
  "unat v < 0xfb \<Longrightarrow> readLenEncInteger ((ucast v :: byte) # rest) = Ok (v, 1)"
  by (simp add: readLenEncInteger_def word_less_nat_alt unat_ucast_small ucast_ucast_small)

lemma readLenEncInteger_fc:
  assumes "unat v < 2 ^ 16"
  shows "readLenEncInteger (0xfc # put_le 2 (unat v) @ rest) = Ok (v, 3)"
proof -
  have "unat (ucast v :: 16 word) = unat v" using assms by (simp add: unat_ucast_small)
  with le_at_append(1) [of 1 "[0xfc]" "ucast v" rest]
  have "u16le_at (0xfc # put_le 2 (unat v) @ rest) 1 = (Ok (ucast v) :: ('e, 16 word) outcome)"
    by simp
  then show ?thesis using assms by (simp add: readLenEncInteger_def ucast_ucast_small)
qed

lemma readLenEncInteger_fd:
  assumes "unat v < 2 ^ 24"
  shows "readLenEncInteger (0xfd # put_le 3 (unat v) @ rest) = Ok (v, 4)"
  using le_nat_put_le [of "unat v" 3] assms
  by (simp add: readLenEncInteger_def put_le_3 word_unat_eq_iff unat_le24)

lemma readLenEncInteger_fe: "readLenEncInteger (0xfe # put_le 8 (unat v) @ rest) = Ok (v, 9)"
  using le_at_append(3) [of 1 "[0xfe]" v rest] by (simp add: readLenEncInteger_def)

lemma readLenEncInteger_lenenc:
  "readLenEncInteger (lenenc_bytes v @ rest) = Ok (v, length (lenenc_bytes v))"
  by (auto simp: lenenc_bytes_def readLenEncInteger_byte readLenEncInteger_fc readLenEncInteger_fd
      readLenEncInteger_fe)

text \<open>C31.  \<open>readLenEncInteger\<close> inverts the length-encoding of every 64-bit value, in each of its four
  forms and with any bytes behind it, reports exactly the bytes of the encoding as consumed, and
  never reports more than it was given.\<close>

theorem lenenc_roundtrip:
  "readLenEncInteger (lenenc_bytes v @ rest) = Ok (v, length (lenenc_bytes v)) \<and>
   (\<exists>w n. readLenEncInteger data = Ok (w, n) \<and> n \<le> length data)"
  using readLenEncInteger_lenenc readLenEncInteger_total [of data] readLenEncInteger_bounds by metis

section \<open>OK packets\<close>

lemma ParseMySQLOK_never_panics: "ParseMySQLOK data \<noteq> Panic"
proof (cases "length data < 7")
  case True
  then show ?thesis by (simp add: ParseMySQLOK_def)
next
  case False
  obtain v n where 1: "readLenEncInteger (drop 1 data) = (Ok (v, n) :: (mysql_error, _) outcome)"
    using readLenEncInteger_total by blast
  then have n: "n \<le> length data - 1" using readLenEncInteger_bounds by fastforce
  obtain w m where 2: "readLenEncInteger (drop (1 + n) data) = (Ok (w, m) :: (mysql_error, _) outcome)"
    using readLenEncInteger_total by blast
  show ?thesis using False n 1 2 by (simp add: ParseMySQLOK_def Let_def)
qed

text \<open>The wire form of an OK packet.\<close>

definition mysql_ok_bytes :: "MySQLOKPacket \<Rightarrow> bytes" where
  "mysql_ok_bytes p = [0x00] @ lenenc_bytes (mo_AffectedRows p) @ lenenc_bytes (mo_LastInsertID p) @
     put_le 2 (unat (mo_StatusFlags p)) @ put_le 2 (unat (mo_Warnings p))"

lemma lenenc_bytes_pos: "0 < length (lenenc_bytes v)"
  by (simp add: lenenc_bytes_def)

text \<open>An OK packet survives the wire: parsing the bytes of any OK packet returns its four fields,
  whichever forms the two length-encoded integers take; and no input at all makes the parser
  panic, although it slices at offsets it has computed from the data.\<close>

theorem mysql_ok_roundtrip:
  "ParseMySQLOK (mysql_ok_bytes p @ rest) = Ok p \<and> ParseMySQLOK data \<noteq> Panic"
proof
  let ?a = "lenenc_bytes (mo_AffectedRows p)" and ?b = "lenenc_bytes (mo_LastInsertID p)"
  let ?s = "put_le 2 (unat (mo_StatusFlags p))" and ?w = "put_le 2 (unat (mo_Warnings p))"
  let ?d = "mysql_ok_bytes p @ rest"
  have s: "u16le_at ?d (1 + length ?a + length ?b) = (Ok (mo_StatusFlags p) :: (mysql_error, _) outcome)"
    using le_at_append(1) [of "1 + length ?a + length ?b" "[0x00] @ ?a @ ?b" "mo_StatusFlags p" "?w @ rest"]
    by (simp add: mysql_ok_bytes_def)
  have w: "u16le_at ?d (1 + length ?a + length ?b + 2) = (Ok (mo_Warnings p) :: (mysql_error, _) outcome)"
    using le_at_append(1) [of "1 + length ?a + length ?b + 2" "[0x00] @ ?a @ ?b @ ?s" "mo_Warnings p" rest]
    by (simp add: mysql_ok_bytes_def)
  have len: "length ?d = 5 + length ?a + length ?b + length rest"
    by (simp add: mysql_ok_bytes_def)
  have 1: "drop 1 ?d = ?a @ ?b @ ?s @ ?w @ rest"
    and 2: "drop (1 + length ?a) ?d = ?b @ ?s @ ?w @ rest"
    by (simp_all add: mysql_ok_bytes_def)
  have 7: "\<not> length ?d < 7"
    using lenenc_bytes_pos [of "mo_AffectedRows p"] lenenc_bytes_pos [of "mo_LastInsertID p"] len
    by linarith
  have bounds: "1 + length ?a \<le> length ?d" "1 \<le> length ?d" "1 + length ?a + length ?b + 2 \<le> length ?d"
    "1 + length ?a + length ?b + 2 + 2 \<le> length ?d" using len by simp_all
  show "ParseMySQLOK ?d = Ok p"
    unfolding ParseMySQLOK_def Let_def
    by (simp only: 7 bounds if_False if_True go_from_ok 1 2 readLenEncInteger_lenenc obind.simps s w
        prod.case) simp
next
  show "ParseMySQLOK data \<noteq> Panic" by (rule ParseMySQLOK_never_panics)
qed

section \<open>The handshake\<close>










section \<open>Error packets, SQL statements\<close>

text \<open>An error packet in the 4.1 format (a \<open>#\<close>, five characters of SQL state, the message) and one
  in the old format (the message right after the code, not starting with \<open>#\<close>) are both read back
  exactly, and no input makes the parser panic.\<close>

theorem mysql_error_roundtrip:
  assumes "length st = 5" and "msg' = c # cs" and "c \<noteq> CHR ''#''"
  shows "ParseMySQLError ([0xff] @ put_le 2 (unat code) @ bytes_of (CHR ''#'' # st @ msg)) =
           Ok \<lparr>mr_ErrorCode = code, mr_SQLState = st, mr_Message = msg\<rparr> \<and>
         ParseMySQLError ([0xff] @ put_le 2 (unat code) @ bytes_of msg') =
           Ok \<lparr>mr_ErrorCode = code, mr_SQLState = '''', mr_Message = msg'\<rparr> \<and>
         ParseMySQLError data \<noteq> Panic"
proof (intro conjI)
  have "of_char c \<noteq> (of_char (CHR ''#'') :: byte)"
    using assms(3) by (metis char_of_byte)
  with assms show "ParseMySQLError ([0xff] @ put_le 2 (unat code) @ bytes_of msg') =
      Ok \<lparr>mr_ErrorCode = code, mr_SQLState = '''', mr_Message = msg'\<rparr>"
    by (simp add: ParseMySQLError_def put_nths nth_append char_of_byte)
  show "ParseMySQLError ([0xff] @ put_le 2 (unat code) @ bytes_of (CHR ''#'' # st @ msg)) =
      Ok \<lparr>mr_ErrorCode = code, mr_SQLState = st, mr_Message = msg\<rparr>"
    using assms by (simp add: ParseMySQLError_def put_nths nth_append)
  show "ParseMySQLError data \<noteq> Panic"
    by (simp add: ParseMySQLError_def Let_def)
qed

theorem mysql_error_roundtrip_witness:
  "ParseMySQLError ([0xff] @ put_le 2 (unat (1064 :: 16 word)) @ bytes_of ''#42000syntax'') =
     Ok \<lparr>mr_ErrorCode = 1064, mr_SQLState = ''42000'', mr_Message = ''syntax''\<rparr>"
  using mysql_error_roundtrip [of "''42000''" "''Bad''" "CHR ''B''" "''ad''" 1064 "''syntax''" "[]"]
  by simp

lemma mysql_keywords_unambiguous:
  "list_all (\<lambda>k. list_all (\<lambda>k'. k = k' \<or> take (length k) k' \<noteq> k) mysql_keywords) mysql_keywords"
  by code_simp

lemma mysql_keywords_prefix_free:
  assumes "k \<in> set mysql_keywords" and "k' \<in> set mysql_keywords" and "HasPrefix s k" and "HasPrefix s k'"
  shows "k = k'"
proof -
  have "take (length k) k' = k \<or> take (length k') k = k'"
    using assms(3,4) unfolding HasPrefix_def by (metis le_cases min.absorb1 take_take)
  with assms(1,2) mysql_keywords_unambiguous show ?thesis
    unfolding list_all_iff by metis
qed

lemma find_prefix_keyword:
  assumes "k \<in> set mysql_keywords" and "HasPrefix s k"
  shows "find (HasPrefix s) mysql_keywords = Some k"
proof (cases "find (HasPrefix s) mysql_keywords")
  case None
  with assms show ?thesis by (auto simp: find_None_iff)
next
  case (Some k')
  then have "k' \<in> set mysql_keywords \<and> HasPrefix s k'" by (auto simp: find_Some_iff)
  with assms mysql_keywords_prefix_free Some show ?thesis by auto
qed

lemma keyword_starts:
  "k \<in> set mysql_keywords \<Longrightarrow> k \<noteq> [] \<and> (\<forall>c. c \<in> set k \<longrightarrow> \<not> ascii_space c)"
  by (auto simp: mysql_keywords_def ascii_space_def)

lemma upper_char_space: "ascii_space c \<Longrightarrow> ascii_space (upper_char c)"
  by (auto simp: ascii_space_def upper_char_def)

text \<open>A statement is classified by its first keyword whatever the case of its letters and
  whatever white space surrounds it: ASCII text that is white space, a keyword in any mixture of
  cases, and anything else is reported as that keyword.\<close>

theorem GetMySQLCommand_keyword:
  assumes "k \<in> set mysql_keywords" and "map upper_char w = k"
    and "list_all ascii_space ws" and "list_all is_ascii (w @ text)"
  shows "GetMySQLCommand uni (ws @ w @ text) = k"
proof -
  from assms(1,2) keyword_starts obtain c w' where w: "w = c # w'" by (cases w) auto
  have nsp: "\<not> ascii_space x" if "x \<in> set w" for x
    using upper_char_space [of x] keyword_starts [OF assms(1)] assms(2) that by auto
  obtain t u where t: "TrimSpace (ws @ c # w' @ text) = c # t" "w' @ text = t @ u" "list_all ascii_space u"
    using TrimSpace_ascii [of ws c "w' @ text"] assms(3,4) nsp w by fastforce
  from t(2) consider us where "w' = t @ us" "us @ text = u" | t' where "t = w' @ t'"
    by (metis append_eq_append_conv2)
  then obtain t' where t': "t = w' @ t'"
  proof cases
    case 1
    with t(3) nsp w have "us = []" by (cases us) (auto simp: list_all_iff)
    with 1 that show thesis by simp
  qed (use that in auto)
  have "list_all is_ascii (c # t)" using assms(4) t(2) w by simp
  then have "ToUpper uni (TrimSpace (ws @ w @ text)) = k @ map upper_char t'"
    using t(1) assms(2) w t' by (simp add: ToUpper_ascii)
  then have "HasPrefix (ToUpper uni (TrimSpace (ws @ w @ text))) k" by (simp add: HasPrefix_iff)
  then show ?thesis
    using find_prefix_keyword [OF assms(1)] by (simp add: GetMySQLCommand_def)
qed

theorem GetMySQLCommand_keyword_witness:
  "GetMySQLCommand id '' sElEcT 1'' = ''SELECT''"
proof -
  have "''SELECT'' \<in> set mysql_keywords" "map upper_char ''sElEcT'' = ''SELECT''"
    "list_all ascii_space '' ''" "list_all is_ascii (''sElEcT'' @ '' 1'')"
    by code_simp+
  from GetMySQLCommand_keyword [OF this, of id] show ?thesis by simp
qed

end
