(* ===== verification/Redis.thy ===== *)
theory Redis
  imports Go_Strings
begin

text \<open>
  The Redis parser, \<open>src/pkg/protocol/redis.go\<close>: the RESP reader with its recursion into arrays, the
  computation of the size of an element, commands in array and inline form, keys and categories.
  \<open>Value interface{}\<close> is the datatype \<open>resp_value\<close>; a type assertion on the wrong dynamic type is a
  \<open>Panic\<close>.  \<open>int\<close> is 64 bits wide: the sum \<open>offset+length+2\<close> with a length read from the input
  wraps around.
\<close>

section \<open>Data\<close>

abbreviation RedisRESPArray :: byte where "RedisRESPArray \<equiv> 0x2a"
abbreviation RedisRESPBulk :: byte where "RedisRESPBulk \<equiv> 0x24"
abbreviation RedisRESPSimple :: byte where "RedisRESPSimple \<equiv> 0x2b"
abbreviation RedisRESPError :: byte where "RedisRESPError \<equiv> 0x2d"
abbreviation RedisRESPInteger :: byte where "RedisRESPInteger \<equiv> 0x3a"

datatype resp_value = VNil | VString string | VArray "RedisRESP list"
  and RedisRESP = RedisRESP (resp_Type: byte) (resp_Value: resp_value)

record RedisCommand =
  rc_Name :: string
  rc_Args :: "string list"
  rc_Raw :: string

datatype redis_error =
    RedisEmptyData | RedisIncompleteSimple | RedisIncompleteBulkLength
  | RedisInvalidBulkLength num_error | RedisIncompleteBulkData
  | RedisIncompleteArrayLength | RedisInvalidArrayLength num_error | RedisIncompleteArrayElement
  | RedisUnknownType byte | RedisNotCommandArray | RedisInvalidArrayValue | RedisEmptyCommand
  | RedisInvalidCommandName | RedisEmptyCommandParts

section \<open>The RESP reader\<close>

text \<open>Two's-complement wrap-around of the 64-bit \<open>int\<close>.\<close>

definition wrap64 :: "int \<Rightarrow> int" where
  "wrap64 x = (x + 2 ^ 63) mod 2 ^ 64 - 2 ^ 63"

text \<open>\<open>data[lo:hi]\<close> with signed bounds.\<close>

definition go_slice_int :: "'a list \<Rightarrow> int \<Rightarrow> int \<Rightarrow> ('e, 'a list) outcome" where
  "go_slice_int xs lo hi =
     (if 0 \<le> lo \<and> lo \<le> hi \<and> hi \<le> int (length xs) then go_slice xs (nat lo) (nat hi) else Panic)"

definition crlf :: string where
  "crlf = [CHR 0x0D, CHR 0x0A]"

text \<open>\<open>calculateRESPSize\<close>: the number of bytes an element is taken to occupy.  \<open>$-1\<close> and \<open>*-1\<close> count
  as 4.\<close>

fun calculateRESPSize :: "RedisRESP \<Rightarrow> ('e, nat) outcome"
and calculateRESPSizes :: "RedisRESP list \<Rightarrow> nat \<Rightarrow> ('e, nat) outcome" where
  "calculateRESPSize (RedisRESP t v) =
     (if t = RedisRESPSimple \<or> t = RedisRESPError \<or> t = RedisRESPInteger then
        (case v of VString s \<Rightarrow> Ok (1 + length s + 2) | _ \<Rightarrow> Panic)
      else if t = RedisRESPBulk then
        (case v of
           VNil \<Rightarrow> Ok 4
         | VString s \<Rightarrow> Ok (1 + length (dec (length s)) + 2 + length s + 2)
         | VArray _ \<Rightarrow> Panic)
      else if t = RedisRESPArray then
        (case v of
           VNil \<Rightarrow> Ok 4
         | VArray elems \<Rightarrow> calculateRESPSizes elems (1 + length (dec (length elems)) + 2)
         | VString _ \<Rightarrow> Panic)
      else Ok 0)"
| "calculateRESPSizes [] sz = Ok sz"
| "calculateRESPSizes (e # es) sz =
     obind (calculateRESPSize e) (\<lambda>n. calculateRESPSizes es (sz + n))"

text \<open>\<open>ParseRedisPacket\<close> and the loop over the elements of an array.  The loop works on
  \<open>body = data[1+end+2:]\<close> with an offset into it, so that the bound \<open>offset >= len(data)\<close> of the
  source is \<open>length body \<le> offset\<close>.  \<open>make([]*RedisRESP, 0, length)\<close> panics for a negative length
  and for one whose eight bytes per element exceed the address space of \<open>2 ^ 48\<close> bytes.\<close>

function (sequential) ParseRedisPacket :: "bytes \<Rightarrow> (redis_error, RedisRESP) outcome"
and parseRedisElements ::
  "bytes \<Rightarrow> nat \<Rightarrow> nat \<Rightarrow> RedisRESP list \<Rightarrow> (redis_error, RedisRESP list) outcome" where
  "ParseRedisPacket data =
     (if length data = 0 then Err RedisEmptyData
      else let respType = data ! 0; line = str_index (gostr (drop 1 data)) crlf in
        if respType = RedisRESPSimple \<or> respType = RedisRESPError \<or> respType = RedisRESPInteger then
          (case line of
             None \<Rightarrow> Err RedisIncompleteSimple
           | Some e \<Rightarrow> obind (go_slice data 1 (1 + e)) (\<lambda>s. Ok (RedisRESP respType (VString (gostr s)))))
        else if respType = RedisRESPBulk then
          (case line of
             None \<Rightarrow> Err RedisIncompleteBulkLength
           | Some e \<Rightarrow> obind (go_slice data 1 (1 + e)) (\<lambda>s.
               case Atoi (gostr s) of
                 Inl err \<Rightarrow> Err (RedisInvalidBulkLength err)
               | Inr len \<Rightarrow>
                   let offset = int (1 + e + 2) in
                   if len = -1 then Ok (RedisRESP respType VNil)
                   else if wrap64 (wrap64 (offset + len) + 2) > int (length data)
                   then Err RedisIncompleteBulkData
                   else obind (go_slice_int data offset (wrap64 (offset + len))) (\<lambda>v.
                     Ok (RedisRESP respType (VString (gostr v))))))
        else if respType = RedisRESPArray then
          (case line of
             None \<Rightarrow> Err RedisIncompleteArrayLength
           | Some e \<Rightarrow> obind (go_slice data 1 (1 + e)) (\<lambda>s.
               case Atoi (gostr s) of
                 Inl err \<Rightarrow> Err (RedisInvalidArrayLength err)
               | Inr len \<Rightarrow>
                   if len = -1 then Ok (RedisRESP respType VNil)
                   else if len < 0 \<or> 8 * len > 2 ^ 48 then Panic
                   else obind (parseRedisElements (drop (1 + e + 2) data) 0 (nat len) []) (\<lambda>elements.
                     Ok (RedisRESP respType (VArray elements)))))
        else Err (RedisUnknownType respType))"
| "parseRedisElements body offset n elements =
     (if n = 0 then Ok elements
      else if length body \<le> offset then Err RedisIncompleteArrayElement
      else obind (ParseRedisPacket (drop offset body)) (\<lambda>elem.
        obind (calculateRESPSize elem) (\<lambda>sz.
          parseRedisElements body (offset + sz) (n - 1) (elements @ [elem]))))"
  by pat_completeness auto
termination
  by (relation "measures [case_sum length (\<lambda>(b, _). length b), case_sum (\<lambda>_. 0) (\<lambda>_. 1),
        case_sum (\<lambda>_. 0) (\<lambda>(_, _, n, _). n)]") auto

declare ParseRedisPacket.simps [simp del] parseRedisElements.simps [simp del]

section \<open>Commands\<close>

text \<open>The \<open>if arg, ok := elems[i].Value.(string); ok\<close> loop over the arguments.\<close>

primrec redis_args :: "RedisRESP list \<Rightarrow> string list" where
  "redis_args [] = []"
| "redis_args (e # es) =
     (case resp_Value e of VString arg \<Rightarrow> arg # redis_args es | _ \<Rightarrow> redis_args es)"

definition ParseRedisCommand :: "(string \<Rightarrow> string) \<Rightarrow> bytes \<Rightarrow> (redis_error, RedisCommand) outcome" where
  "ParseRedisCommand uni data =
     obind (ParseRedisPacket data) (\<lambda>resp.
       if resp_Type resp \<noteq> RedisRESPArray then Err RedisNotCommandArray
       else case resp_Value resp of
         VArray elems \<Rightarrow>
           if length elems = 0 then Err RedisEmptyCommand
           else (case resp_Value (elems ! 0) of
             VString nameStr \<Rightarrow>
               Ok \<lparr>rc_Name = ToUpper uni nameStr, rc_Args = redis_args (drop 1 elems), rc_Raw = gostr data\<rparr>
           | _ \<Rightarrow> Err RedisInvalidCommandName)
       | _ \<Rightarrow> Err RedisInvalidArrayValue)"

definition redisCommandCategories :: "(string \<times> string) list" where
  "redisCommandCategories =
     map (\<lambda>c. (c, ''read''))
       [''GET'', ''MGET'', ''HGET'', ''HGETALL'', ''HMGET'', ''HKEYS'', ''HVALS'', ''HLEN'', ''HEXISTS'',
        ''LLEN'', ''LRANGE'', ''LINDEX'', ''SMEMBERS'', ''SISMEMBER'', ''SCARD'', ''ZRANGE'', ''ZSCORE'',
        ''ZCARD'', ''STRLEN''] @
     map (\<lambda>c. (c, ''write''))
       [''SET'', ''DEL'', ''MSET'', ''INCR'', ''DECR'', ''APPEND'', ''SETEX'', ''SETNX'', ''GETSET'', ''HSET'',
        ''HDEL'', ''HMSET'', ''LPUSH'', ''RPUSH'', ''LPOP'', ''RPOP'', ''LSET'', ''LREM'', ''SADD'', ''SREM'',
        ''ZADD'', ''ZREM''] @
     [(''PUBLISH'', ''pubsub'')] @
     map (\<lambda>c. (c, ''transaction'')) [''MULTI'', ''EXEC'', ''DISCARD''] @
     map (\<lambda>c. (c, ''connection'')) [''PING'', ''AUTH'', ''SELECT'', ''QUIT'', ''ECHO''] @
     map (\<lambda>c. (c, ''admin'')) [''INFO'', ''DBSIZE'', ''FLUSHALL'', ''FLUSHDB'']"

definition GetRedisCommandCategory :: "string \<Rightarrow> string" where
  "GetRedisCommandCategory command =
     (case map_of redisCommandCategories command of Some cat \<Rightarrow> cat | None \<Rightarrow> ''read'')"

definition resp_marks :: "byte set" where
  "resp_marks = {RedisRESPArray, RedisRESPBulk, RedisRESPSimple, RedisRESPError, RedisRESPInteger}"

definition IsRedisPacket :: "(string \<Rightarrow> string) \<Rightarrow> bytes \<Rightarrow> bool" where
  "IsRedisPacket uni data =
     (if length data = 0 then False
      else if data ! 0 \<in> resp_marks then True
      else if length data \<ge> 3 then
        let cmd = ToUpper uni (gostr (take 3 data)) in
        cmd = ''GET'' \<or> cmd = ''SET'' \<or> cmd = ''DEL'' \<or> cmd = ''PING''
      else False)"

definition ParseRedisInlineCommand :: "(string \<Rightarrow> string) \<Rightarrow> bytes \<Rightarrow> (redis_error, RedisCommand) outcome" where
  "ParseRedisInlineCommand uni data =
     (let lines = Split (gostr data) crlf in
      if length lines = 0 then Err RedisEmptyCommand
      else let parts = Fields (lines ! 0) in
        if length parts = 0 then Err RedisEmptyCommandParts
        else Ok \<lparr>rc_Name = ToUpper uni (parts ! 0), rc_Args = drop 1 parts, rc_Raw = gostr data\<rparr>)"

text \<open>The commands whose first argument is a key: the labels of the switch in \<open>GetRedisKey\<close>.\<close>

definition redis_key_commands :: "string list" where
  "redis_key_commands =
     [''GET'', ''SET'', ''DEL'', ''APPEND'', ''SETEX'', ''SETNX'', ''GETSET'', ''STRLEN'', ''MGET'', ''MSET'',
      ''INCR'', ''DECR'', ''HSET'', ''HGET'', ''HDEL'', ''HGETALL'', ''HMSET'', ''HMGET'', ''HKEYS'', ''HVALS'',
      ''HLEN'', ''HEXISTS'', ''LPUSH'', ''RPUSH'', ''LPOP'', ''RPOP'', ''LLEN'', ''LRANGE'', ''LINDEX'', ''LSET'',
      ''LREM'', ''SADD'', ''SMEMBERS'', ''SREM'', ''SISMEMBER'', ''SCARD'', ''ZADD'', ''ZRANGE'', ''ZREM'',
      ''ZSCORE'', ''ZCARD'']"

definition GetRedisKey :: "RedisCommand \<Rightarrow> string" where
  "GetRedisKey cmd =
     (if rc_Name cmd \<in> set redis_key_commands \<and> length (rc_Args cmd) > 0 then rc_Args cmd ! 0 else '''')"

definition FormatRedisCommand :: "RedisCommand \<Rightarrow> string" where
  "FormatRedisCommand cmd = Join (rc_Name cmd # rc_Args cmd) '' ''"

section \<open>Well-typed values\<close>

text \<open>The dynamic type of \<open>Value\<close> fits the type mark.\<close>

fun resp_typed :: "RedisRESP \<Rightarrow> bool" where
  "resp_typed (RedisRESP t v) =
     (if t = RedisRESPSimple \<or> t = RedisRESPError \<or> t = RedisRESPInteger then
        (case v of VString _ \<Rightarrow> True | _ \<Rightarrow> False)
      else if t = RedisRESPBulk then (case v of VArray _ \<Rightarrow> False | _ \<Rightarrow> True)
      else if t = RedisRESPArray then
        (case v of VNil \<Rightarrow> True | VArray es \<Rightarrow> list_all resp_typed es | VString _ \<Rightarrow> False)
      else False)"

lemma calculateRESPSizes_ok:
  "(\<And>e. e \<in> set es \<Longrightarrow> \<exists>n. calculateRESPSize e = (Ok n :: ('e, nat) outcome)) \<Longrightarrow>
   \<exists>n. calculateRESPSizes es m = (Ok n :: ('e, nat) outcome) \<and> m \<le> n"
proof (induction es arbitrary: m)
  case Nil
  then show ?case by simp
next
  case (Cons e es)
  obtain k where k: "calculateRESPSize e = (Ok k :: ('e, nat) outcome)" using Cons.prems by auto
  obtain n where "calculateRESPSizes es (m + k) = (Ok n :: ('e, nat) outcome)" "m + k \<le> n"
    using Cons by (meson list.set_intros(2))
  with k show ?case by auto
qed

lemma calculateRESPSize_typed:
  "resp_typed r \<Longrightarrow> \<exists>n. calculateRESPSize r = (Ok n :: ('e, nat) outcome) \<and> 3 \<le> n"
proof (induction r rule: resp_typed.induct)
  case (1 t v)
  show ?case
  proof (cases v)
    case (VArray es)
    with 1 have t: "t = RedisRESPArray" and es: "list_all resp_typed es"
      by (auto split: if_splits)
    have "\<exists>n. calculateRESPSize e = (Ok n :: ('e, nat) outcome)" if "e \<in> set es" for e
      using 1 VArray t es that by (fastforce simp: list_all_iff)
    with calculateRESPSizes_ok [of es "1 + length (dec (length es)) + 2"] VArray t show ?thesis
      by fastforce
  qed (use 1 in \<open>auto split: if_splits\<close>)
qed

text \<open>One equation per branch of \<open>ParseRedisPacket\<close>: the form in which the proofs unfold it.\<close>

lemma slice_line:
  "str_index (gostr d) crlf = Some e \<Longrightarrow> go_slice (t # d) 1 (1 + e) = Ok (take e d)"
  using str_index_Some [of "gostr d" crlf e] by simp

lemma ParseRedisPacket_line:
  assumes "t = RedisRESPSimple \<or> t = RedisRESPError \<or> t = RedisRESPInteger"
  shows "ParseRedisPacket (t # d) =
    (case str_index (gostr d) crlf of
       None \<Rightarrow> Err RedisIncompleteSimple
     | Some e \<Rightarrow> Ok (RedisRESP t (VString (take e (gostr d)))))"
  using assms
  by (subst ParseRedisPacket.simps) (auto simp: slice_line [simplified] gostr_take_drop split: option.splits)

lemma ParseRedisPacket_noline:
  assumes "str_index (gostr d) crlf = None"
  shows "ParseRedisPacket (RedisRESPBulk # d) = Err RedisIncompleteBulkLength"
    and "ParseRedisPacket (RedisRESPArray # d) = Err RedisIncompleteArrayLength"
  using assms by (subst ParseRedisPacket.simps; simp)+

lemma ParseRedisPacket_badnum:
  assumes "str_index (gostr d) crlf = Some e" and "Atoi (take e (gostr d)) = Inl err"
  shows "ParseRedisPacket (RedisRESPBulk # d) = Err (RedisInvalidBulkLength err)"
    and "ParseRedisPacket (RedisRESPArray # d) = Err (RedisInvalidArrayLength err)"
  using assms
  by (subst ParseRedisPacket.simps; simp add: slice_line [simplified] gostr_take_drop Let_def)+

lemma ParseRedisPacket_bulk:
  assumes "str_index (gostr d) crlf = Some e" and "Atoi (take e (gostr d)) = Inr len"
  shows "ParseRedisPacket (RedisRESPBulk # d) =
    (if len = -1 then Ok (RedisRESP RedisRESPBulk VNil)
     else if wrap64 (wrap64 (3 + int e + len) + 2) > 1 + int (length d) then Err RedisIncompleteBulkData
     else obind (go_slice_int (RedisRESPBulk # d) (3 + int e) (wrap64 (3 + int e + len))) (\<lambda>v.
       Ok (RedisRESP RedisRESPBulk (VString (gostr v)))))"
  using assms
  by (subst ParseRedisPacket.simps)
     (simp add: slice_line [simplified] gostr_take_drop Let_def)

lemma ParseRedisPacket_array:
  assumes "str_index (gostr d) crlf = Some e" and "Atoi (take e (gostr d)) = Inr len"
  shows "ParseRedisPacket (RedisRESPArray # d) =
    (if len = -1 then Ok (RedisRESP RedisRESPArray VNil)
     else if len < 0 \<or> 8 * len > 2 ^ 48 then Panic
     else obind (parseRedisElements (drop (e + 2) d) 0 (nat len) []) (\<lambda>elements.
       Ok (RedisRESP RedisRESPArray (VArray elements))))"
  using assms
  by (subst ParseRedisPacket.simps)
     (simp add: slice_line [simplified] gostr_take_drop Let_def)

lemma ParseRedisPacket_unknown:
  "t \<notin> resp_marks \<Longrightarrow> ParseRedisPacket (t # d) = Err (RedisUnknownType t)"
  by (subst ParseRedisPacket.simps) (simp add: resp_marks_def)

lemma redis_mark_cases:
  obtains (line) "t = RedisRESPSimple \<or> t = RedisRESPError \<or> t = RedisRESPInteger"
  | (bulk) "t = RedisRESPBulk" | (array) "t = RedisRESPArray" | (unknown) "t \<notin> resp_marks"
  by (auto simp: resp_marks_def)

lemma redis_number_cases:
  obtains (noline) "str_index (gostr d) crlf = None"
  | (badnum) e err where "str_index (gostr d) crlf = Some e" "Atoi (take e (gostr d)) = Inl err"
  | (num) e len where "str_index (gostr d) crlf = Some e" "Atoi (take e (gostr d)) = Inr len"
proof (cases "str_index (gostr d) crlf")
  case (Some e)
  then show thesis by (cases "Atoi (take e (gostr d))") (auto intro: that)
qed (rule that)

lemma parse_typed:
  "ParseRedisPacket data = Ok r \<Longrightarrow> resp_typed r"
  "parseRedisElements body offset n els = Ok rs \<Longrightarrow> list_all resp_typed els \<Longrightarrow> list_all resp_typed rs"
proof (induction data and body offset n els arbitrary: r and rs
    rule: ParseRedisPacket_parseRedisElements.induct)
  case (1 data)
  show ?case
  proof (cases data)
    case Nil
    with "1.prems" show ?thesis by (simp add: ParseRedisPacket.simps)
  next
    case (Cons t d)
    show ?thesis
    proof (cases t rule: redis_mark_cases)
      case line
      with "1.prems" Cons show ?thesis by (auto simp: ParseRedisPacket_line split: option.splits)
    next
      case bulk
      with "1.prems" Cons show ?thesis
        by (cases d rule: redis_number_cases)
           (auto simp: ParseRedisPacket_noline ParseRedisPacket_badnum ParseRedisPacket_bulk
             obind_eq_Ok_iff split: if_splits)
    next
      case array
      show ?thesis
      proof (cases d rule: redis_number_cases)
        case (num e len)
        from "1.prems" Cons array num have
          "r = RedisRESP RedisRESPArray VNil \<or> (\<exists>es. r = RedisRESP RedisRESPArray (VArray es) \<and>
             \<not> (len < 0 \<or> 8 * len > 2 ^ 48) \<and> parseRedisElements (drop (e + 2) d) 0 (nat len) [] = Ok es)"
          by (auto simp: ParseRedisPacket_array [OF num] obind_eq_Ok_iff split: if_splits)
        with "1.IH" [of t "Some e" e "take e d" len] Cons array num show ?thesis
          by (auto simp: gostr_take_drop)
      qed (use "1.prems" Cons array in \<open>auto simp: ParseRedisPacket_noline ParseRedisPacket_badnum\<close>)
    next
      case unknown
      with "1.prems" Cons show ?thesis by (simp add: ParseRedisPacket_unknown)
    qed
  qed
next
  case (2 body offset n els)
  show ?case
    using "2.prems" "2.IH"
    by (subst (asm) parseRedisElements.simps) (auto simp: obind_eq_Ok_iff split: if_splits)
qed

text \<open>C23.  Whatever the input, a value \<open>ParseRedisPacket\<close> returns carries data of the dynamic type its
  mark announces, at every level of nesting, so that the type assertions of \<open>calculateRESPSize\<close>
  never fail on it; and its computed size is at least 3, so that the element loop always advances.\<close>

theorem redis_values_well_typed:
  assumes "ParseRedisPacket data = Ok r"
  shows "resp_typed r \<and> (\<exists>n. calculateRESPSize r = (Ok n :: (redis_error, nat) outcome) \<and> 3 \<le> n)"
  using parse_typed(1) [OF assms] calculateRESPSize_typed by blast

theorem redis_values_well_typed_witness:
  "ParseRedisPacket (bytes_of (''+OK'' @ crlf)) = Ok (RedisRESP RedisRESPSimple (VString ''OK'')) \<and>
   resp_typed (RedisRESP RedisRESPSimple (VString ''OK''))"
proof -
  have p: "ParseRedisPacket (bytes_of (''+OK'' @ crlf)) = Ok (RedisRESP RedisRESPSimple (VString ''OK''))"
    by code_simp
  show ?thesis using p redis_values_well_typed [OF p] by simp
qed

section \<open>Round trip\<close>

text \<open>The RESP wire form of a value.\<close>

fun resp_text :: "RedisRESP \<Rightarrow> string" where
  "resp_text (RedisRESP t v) = char_of (unat t) #
     (case v of
        VNil \<Rightarrow> ''-1'' @ crlf
      | VString s \<Rightarrow> (if t = RedisRESPBulk then dec (length s) @ crlf @ s @ crlf else s @ crlf)
      | VArray es \<Rightarrow> dec (length es) @ crlf @ concat (map resp_text es))"

text \<open>Well-typed values with no null in them, whose line-oriented strings hold no line break and
  whose bulk strings and arrays are small enough to exist in memory.\<close>

fun resp_plain :: "RedisRESP \<Rightarrow> bool" where
  "resp_plain (RedisRESP t v) =
     (case v of
        VNil \<Rightarrow> False
      | VString s \<Rightarrow> t = RedisRESPBulk \<and> length s < 2 ^ 60 \<or>
          (t = RedisRESPSimple \<or> t = RedisRESPError \<or> t = RedisRESPInteger) \<and> \<not> Contains s crlf
      | VArray es \<Rightarrow> t = RedisRESPArray \<and> 8 * length es \<le> 2 ^ 48 \<and> list_all resp_plain es)"

lemma str_index_crlf: "\<not> Contains s crlf \<Longrightarrow> str_index (s @ crlf @ r) crlf = Some (length s)"
proof (induction s)
  case Nil
  then show ?case by (simp add: crlf_def HasPrefix_def)
next
  case (Cons c s)
  then have nc: "\<not> Contains s crlf" and np: "\<not> HasPrefix (c # s) crlf"
    by (auto simp: Contains_def split: if_splits)
  have "\<not> HasPrefix (c # s @ crlf @ r) crlf"
    using np by (cases s) (auto simp: crlf_def HasPrefix_def)
  with Cons.IH [OF nc] show ?case by simp
qed

lemma dec_no_crlf: "\<not> Contains (dec n) crlf"
proof
  assume "Contains (dec n) crlf"
  then have "CHR 0x0D \<in> set (dec n)" by (auto simp: Contains_iff crlf_def)
  then show False using dec_digits [of "CHR 0x0D" n] by (simp add: is_digit_def)
qed

lemma length_crlf [simp]: "length crlf = 2"
  by (simp add: crlf_def)

lemma calculateRESPSizes_sum:
  "(\<And>e. e \<in> set es \<Longrightarrow> calculateRESPSize e = (Ok (f e) :: ('e, nat) outcome)) \<Longrightarrow>
   calculateRESPSizes es m = (Ok (m + sum_list (map f es)) :: ('e, nat) outcome)"
  by (induction es arbitrary: m) (auto simp: add.assoc)

text \<open>On plain values the computed size is the length of the wire form.\<close>

lemma calculateRESPSize_plain:
  "resp_plain r \<Longrightarrow> calculateRESPSize r = (Ok (length (resp_text r)) :: ('e, nat) outcome)"
proof (induction r rule: resp_plain.induct)
  case (1 t v)
  show ?case
  proof (cases v)
    case (VArray es)
    with 1 have t: "t = RedisRESPArray" by auto
    have "calculateRESPSize e = (Ok (length (resp_text e)) :: ('e, nat) outcome)" if "e \<in> set es" for e
      using 1 VArray that by (auto simp: list_all_iff)
    from calculateRESPSizes_sum [OF this, of es] VArray t show ?thesis
      by (simp add: length_concat comp_def)
  qed (use 1 in auto)
qed

lemma wrap64_id: "- (2 ^ 63) \<le> x \<Longrightarrow> x < 2 ^ 63 \<Longrightarrow> wrap64 x = x"
  by (simp add: wrap64_def)

lemma length_dec_le: "length (dec n) \<le> Suc n"
proof (induction n rule: dec.induct)
  case (1 n)
  then show ?case by (cases "n < 10") (simp_all add: dec.simps [of n])
qed

lemma dec_line:
  "str_index (gostr (bytes_of (dec n @ crlf @ r))) crlf = Some (length (dec n))"
  "n < 2 ^ 63 \<Longrightarrow> Atoi (take (length (dec n)) (gostr (bytes_of (dec n @ crlf @ r)))) = Inr (int n)"
  by (simp_all only: gostr_bytes_of str_index_crlf dec_no_crlf not_False_eq_True)
     (simp add: Atoi_dec)

lemma parse_bulk_text:
  assumes "length s < 2 ^ 60"
  shows "ParseRedisPacket (RedisRESPBulk # bytes_of (dec (length s) @ crlf @ s @ crlf @ rest)) =
    Ok (RedisRESP RedisRESPBulk (VString s))"
proof -
  let ?n = "length s" and ?k = "length (dec (length s))"
  let ?d = "bytes_of (dec ?n @ crlf @ s @ crlf @ rest)"
  have n: "?n < 2 ^ 63" using assms by simp
  note num = dec_line(1) [of ?n "s @ crlf @ rest"] dec_line(2) [OF n, of "s @ crlf @ rest"]
  have k: "int ?k \<le> int ?n + 1" using length_dec_le [of ?n] by linarith
  then have w: "wrap64 (3 + int ?k + int ?n) = 3 + int ?k + int ?n"
    "wrap64 (3 + int ?k + int ?n + 2) = 3 + int ?k + int ?n + 2"
    using assms by (intro wrap64_id; simp)+
  have "go_slice_int (RedisRESPBulk # ?d) (3 + int ?k) (3 + int ?k + int ?n) = (Ok (bytes_of s) :: (redis_error, _) outcome)"
    using go_slice_append [of "3 + ?k" "RedisRESPBulk # bytes_of (dec ?n @ crlf)" "3 + ?k + ?n" "bytes_of s"
        "bytes_of (crlf @ rest)"] by (simp add: go_slice_int_def nat_add_distrib del: go_slice_ok)
  then show ?thesis by (simp only: ParseRedisPacket_bulk [OF num] w) simp
qed

lemma parse_elements_text:
  assumes "\<And>e rest. e \<in> set es \<Longrightarrow> ParseRedisPacket (bytes_of (resp_text e @ rest)) = Ok e"
    and "\<And>e. e \<in> set es \<Longrightarrow> resp_plain e"
  shows "parseRedisElements (bytes_of (pre @ concat (map resp_text es) @ rest)) (length pre) (length es) acc =
    Ok (acc @ es)"
  using assms
proof (induction es arbitrary: pre acc)
  case Nil
  then show ?case by (simp add: parseRedisElements.simps)
next
  case (Cons e es)
  let ?r = "concat (map resp_text es) @ rest"
  have ne: "resp_text e \<noteq> []" by (cases e) simp
  have IH: "parseRedisElements (bytes_of ((pre @ resp_text e) @ ?r)) (length (pre @ resp_text e)) (length es)
      (acc @ [e]) = Ok ((acc @ [e]) @ es)"
    using Cons.prems by (intro Cons.IH) auto
  have elem: "ParseRedisPacket (bytes_of (resp_text e @ ?r)) = Ok e" "resp_plain e"
    using Cons.prems(1) [of e ?r] Cons.prems(2) [of e] by simp_all
  show ?case
    using ne IH elem
    by (subst parseRedisElements.simps) (simp add: bytes_of_take_drop [symmetric] calculateRESPSize_plain)
qed

lemma ParseRedisPacket_text:
  "resp_plain r \<Longrightarrow> ParseRedisPacket (bytes_of (resp_text r @ rest)) = Ok r"
proof (induction r arbitrary: rest rule: resp_plain.induct)
  case (1 t v)
  have t: "of_char (char_of (unat t)) = t" by (rule byte_of_char)
  show ?case
  proof (cases v)
    case VNil
    with 1 show ?thesis by simp
  next
    case (VString s)
    show ?thesis
    proof (cases "t = RedisRESPBulk")
      case True
      with 1 VString parse_bulk_text [of s rest] show ?thesis by (simp add: t)
    next
      case False
      with 1 VString show ?thesis
        by (simp add: t ParseRedisPacket_line str_index_crlf)
    qed
  next
    case (VArray es)
    let ?b = "concat (map resp_text es) @ rest" and ?n = "length es"
    from 1 VArray have arr: "t = RedisRESPArray" "8 * ?n \<le> 2 ^ 48" "list_all resp_plain es" by auto
    have "?n < 2 ^ 63" using arr(2) by simp
    note num = dec_line(1) [of ?n ?b] dec_line(2) [OF this, of ?b]
    have "parseRedisElements (bytes_of ([] @ ?b)) (length ([] :: string)) ?n [] = Ok ([] @ es)"
      by (rule parse_elements_text) (use 1 VArray arr(3) in \<open>auto simp: list_all_iff\<close>)
    moreover have "drop (length (dec ?n) + 2) (bytes_of (dec ?n @ crlf @ ?b)) = bytes_of ?b"
      by simp
    ultimately show ?thesis
      using arr(1,2) VArray ParseRedisPacket_array [OF num] by (simp add: t)
  qed
qed

text \<open>C7.  RESP round trip: for every value without nulls, nested to any depth, parsing its wire form
  returns the value, whatever bytes follow; and \<open>calculateRESPSize\<close> is the length of the wire form,
  so that the elements of an array are found one behind the other.\<close>

theorem redis_roundtrip:
  assumes "resp_plain r"
  shows "ParseRedisPacket (bytes_of (resp_text r @ rest)) = Ok r \<and>
         calculateRESPSize r = (Ok (length (resp_text r)) :: (redis_error, nat) outcome)"
  using ParseRedisPacket_text [OF assms] calculateRESPSize_plain [OF assms] by simp

definition resp_example :: RedisRESP where
  "resp_example = RedisRESP RedisRESPArray (VArray
     [RedisRESP RedisRESPBulk (VString ''SET''),
      RedisRESP RedisRESPArray (VArray [RedisRESP RedisRESPInteger (VString ''42'')]),
      RedisRESP RedisRESPBulk (VString '''')])"

theorem redis_roundtrip_witness:
  "resp_plain resp_example \<and> ParseRedisPacket (bytes_of (resp_text resp_example @ ''+OK'')) = Ok resp_example"
proof -
  have p: "resp_plain resp_example"
    by (simp add: resp_example_def Contains_def HasPrefix_def crlf_def)
  with redis_roundtrip [OF p, of "''+OK''"] show ?thesis by simp
qed

section \<open>Null elements and negative lengths\<close>

text \<open>A null bulk string occupies five bytes on the wire but counts as four.  An array that
  holds one in front of another element is therefore never read: the reader lands on the line feed
  that ends the null and reports it as an unknown type, whatever the rest of the array is.\<close>

theorem redis_null_element_rejected:
  assumes "8 * n \<le> 2 ^ 48" and "2 \<le> n"
  shows "ParseRedisPacket (bytes_of (''*'' @ dec n @ crlf @ ''$-1'' @ crlf @ rest)) = Err (RedisUnknownType 0x0a)"
proof -
  let ?b = "''$-1'' @ crlf @ rest"
  have "n < 2 ^ 63" using assms by simp
  note num = dec_line(1) [of n ?b] dec_line(2) [OF this, of ?b]
  have minus: "Atoi ''-1'' = Inr (- 1)" by (simp add: Atoi_def is_digit_def digit_val_def)
  have "\<not> Contains ''-1'' crlf" by (simp add: Contains_def HasPrefix_def crlf_def)
  from str_index_crlf [OF this, of rest]
  have line: "str_index (gostr (bytes_of (''-1'' @ crlf @ rest))) crlf = Some 2"
    by (simp only: gostr_bytes_of) simp
  have num1: "Atoi (take 2 (gostr (bytes_of (''-1'' @ crlf @ rest)))) = Inr (- 1)"
    by (simp only: gostr_bytes_of) (simp add: minus)
  have nil: "ParseRedisPacket (bytes_of ?b) = Ok (RedisRESP RedisRESPBulk VNil)"
    using ParseRedisPacket_bulk [OF line num1] by simp
  have lf: "ParseRedisPacket (drop 4 (bytes_of ?b)) = Err (RedisUnknownType 0x0a)"
    by (simp add: crlf_def ParseRedisPacket_unknown resp_marks_def)
  obtain m where m: "n = Suc (Suc m)" using assms(2) by (metis add_2_eq_Suc le_Suc_ex)
  have "parseRedisElements (bytes_of ?b) 0 n [] = Err (RedisUnknownType 0x0a)"
    using nil lf unfolding m
    by (subst parseRedisElements.simps, simp, subst parseRedisElements.simps) (simp add: crlf_def)
  moreover have "drop (length (dec n) + 2) (bytes_of (dec n @ crlf @ ?b)) = bytes_of ?b" by simp
  ultimately show ?thesis
    using assms(1) ParseRedisPacket_array [OF num] by simp
qed

theorem redis_null_element_rejected_witness:
  "ParseRedisPacket (bytes_of (''*'' @ dec 2 @ crlf @ ''$-1'' @ crlf @ (''+OK'' @ crlf))) =
     Err (RedisUnknownType 0x0a)"
  by (rule redis_null_element_rejected) simp_all

text \<open>A negative length other than -1 is not rejected but crashes the reader: for every
  magnitude from 2 to the largest a 64-bit integer has, a bulk string or an array that announces it
  makes \<open>ParseRedisPacket\<close> panic, whatever follows.\<close>

theorem redis_negative_length_panics:
  assumes "2 \<le> k" and "k \<le> 2 ^ 63"
  shows "ParseRedisPacket (bytes_of (''$-'' @ dec k @ crlf @ rest)) = Panic \<and>
         ParseRedisPacket (bytes_of (''*-'' @ dec k @ crlf @ rest)) = Panic"
proof -
  let ?l = "CHR ''-'' # dec k" and ?d = "bytes_of ((CHR ''-'' # dec k) @ crlf @ rest)"
  have "\<not> Contains ?l crlf"
    using dec_no_crlf [of k] by (auto simp: Contains_def HasPrefix_def crlf_def split: if_splits)
  then have line: "str_index (gostr ?d) crlf = Some (length ?l)"
    by (simp only: gostr_bytes_of str_index_crlf not_False_eq_True)
  have num: "Atoi (take (length ?l) (gostr ?d)) = Inr (- int k)"
  proof -
    have "parse_uint ?l 0 (dec k) = Inr k" using assms by (simp add: parse_uint_dec)
    then show ?thesis using assms(2) by (simp only: gostr_bytes_of) (simp add: Atoi_def)
  qed
  let ?o = "3 + int (length ?l)"
  have o: "?o \<le> 1 + int (length ?d)" by simp
  have "int (length ?l) \<le> int k + 2" using length_dec_le [of k] by simp
  then have w: "wrap64 (?o + - int k) = ?o - int k" "wrap64 (?o - int k + 2) = ?o - int k + 2"
    using assms by (auto intro: wrap64_id)
  have "go_slice_int (RedisRESPBulk # ?d) ?o (?o - int k) = (Panic :: (redis_error, bytes) outcome)"
    using assms(1) by (simp add: go_slice_int_def)
  then have "ParseRedisPacket (RedisRESPBulk # ?d) = Panic"
    using assms(1) o by (simp only: ParseRedisPacket_bulk [OF line num] w) simp
  moreover have "ParseRedisPacket (RedisRESPArray # ?d) = Panic"
    using assms(1) by (simp only: ParseRedisPacket_array [OF line num]) simp
  ultimately show ?thesis by simp
qed

theorem redis_negative_length_panics_witness:
  "ParseRedisPacket (bytes_of (''$-'' @ dec 5 @ crlf @ ''hello'')) = Panic"
  using redis_negative_length_panics [of 5 "''hello''"] by simp

section \<open>Commands on the wire\<close>

text \<open>The form in which clients send a command: an array of bulk strings.\<close>

definition redis_request :: "string list \<Rightarrow> RedisRESP" where
  "redis_request ws = RedisRESP RedisRESPArray (VArray (map (\<lambda>w. RedisRESP RedisRESPBulk (VString w)) ws))"

lemma redis_args_bulk: "redis_args (map (\<lambda>w. RedisRESP t (VString w)) ws) = ws"
  by (induction ws) simp_all

lemma redis_request_plain:
  "8 * length ws \<le> 2 ^ 48 \<Longrightarrow> list_all (\<lambda>w. length w < 2 ^ 60) ws \<Longrightarrow> resp_plain (redis_request ws)"
  by (simp add: redis_request_def list_all_iff)

text \<open>C24.  A command sent as an array of bulk strings is recognised as Redis and read back: the
  name in upper case, every argument unchanged and in order (whatever bytes it holds, line breaks
  included), and for a command of the key table its key is its first argument.\<close>

theorem redis_command_roundtrip:
  fixes rest :: string
  assumes "8 * length (name # args) \<le> 2 ^ 48" and "list_all (\<lambda>w. length w < 2 ^ 60) (name # args)"
    and "list_all is_ascii name"
  defines "wire \<equiv> resp_text (redis_request (name # args)) @ rest"
  shows "IsRedisPacket uni (bytes_of wire) \<and>
    ParseRedisCommand uni (bytes_of wire) =
      Ok \<lparr>rc_Name = map upper_char name, rc_Args = args, rc_Raw = wire\<rparr> \<and>
    (map upper_char name \<in> set redis_key_commands \<longrightarrow> args \<noteq> [] \<longrightarrow>
       GetRedisKey \<lparr>rc_Name = map upper_char name, rc_Args = args, rc_Raw = wire\<rparr> = hd args)"
proof -
  have "ParseRedisPacket (bytes_of wire) = Ok (redis_request (name # args))"
    unfolding wire_def using assms by (intro ParseRedisPacket_text redis_request_plain)
  then have "ParseRedisCommand uni (bytes_of wire) =
      Ok \<lparr>rc_Name = map upper_char name, rc_Args = args, rc_Raw = wire\<rparr>"
    using assms(3) by (simp add: ParseRedisCommand_def redis_request_def redis_args_bulk ToUpper_ascii)
  moreover have "IsRedisPacket uni (bytes_of wire)"
    by (simp add: wire_def redis_request_def IsRedisPacket_def resp_marks_def)
  ultimately show ?thesis by (simp add: GetRedisKey_def hd_conv_nth)
qed

theorem redis_command_roundtrip_witness:
  "ParseRedisCommand id (bytes_of (resp_text (redis_request [''get'', ''k 1'']) @ [])) =
     Ok \<lparr>rc_Name = ''GET'', rc_Args = [''k 1''], rc_Raw = resp_text (redis_request [''get'', ''k 1''])\<rparr> \<and>
   GetRedisKey \<lparr>rc_Name = ''GET'', rc_Args = [''k 1''], rc_Raw = []\<rparr> = ''k 1''"
proof -
  have u: "map upper_char ''get'' = ''GET''" by code_simp
  have a: "list_all is_ascii ''get''" by code_simp
  have "GetRedisKey \<lparr>rc_Name = ''GET'', rc_Args = [''k 1''], rc_Raw = []\<rparr> = ''k 1''" by code_simp
  with redis_command_roundtrip [of "''get''" "[''k 1'']" id "[]"] a show ?thesis
    by (simp only: u) simp
qed

text \<open>Which ASCII data without a type mark is taken for Redis: exactly the data that starts
  with \<open>get\<close>, \<open>set\<close> or \<open>del\<close> in any case.  The fourth command of the list, \<open>PING\<close>, is compared with
  three bytes and never matches.\<close>

theorem redis_inline_commands:
  assumes "list_all is_ascii (gostr data)" and "data \<noteq> []" and "data ! 0 \<notin> resp_marks"
  shows "IsRedisPacket uni data \<longleftrightarrow> map upper_char (take 3 (gostr data)) \<in> {''GET'', ''SET'', ''DEL''}"
proof -
  have "list_all is_ascii (take 3 (gostr data))"
    using assms(1) by (auto simp: list_all_iff dest: in_set_takeD)
  then have up: "ToUpper uni (gostr (take 3 data)) = map upper_char (take 3 (gostr data))"
    by (simp add: gostr_take_drop ToUpper_ascii)
  have ping: "map upper_char (take 3 (gostr data)) \<noteq> ''PING''"
  proof
    assume "map upper_char (take 3 (gostr data)) = ''PING''"
    then have "length (map upper_char (take 3 (gostr data))) = length ''PING''" by simp
    then show False by simp
  qed
  have "length data \<ge> 3" if "map upper_char (take 3 (gostr data)) \<in> {''GET'', ''SET'', ''DEL''}"
  proof -
    from that have "length (map upper_char (take 3 (gostr data))) = 3"
      by (elim insertE) (simp_all only: list.size, simp_all)
    then show ?thesis by simp
  qed
  then show ?thesis
    using assms(2,3) ping unfolding IsRedisPacket_def up Let_def insert_iff empty_iff length_0_conv by (metis (full_types))
qed

theorem redis_inline_commands_witness:
  "IsRedisPacket id (bytes_of ''Set k v'') \<and> \<not> IsRedisPacket id (bytes_of ''PING'')"
proof -
  have a: "list_all is_ascii ''Set k v''" "list_all is_ascii ''PING''" by code_simp+
  have u: "map upper_char (take 3 ''Set k v'') = ''SET''" "map upper_char (take 3 ''PING'') = ''PIN''"
    by code_simp+
  from redis_inline_commands [of "bytes_of ''Set k v''" id] redis_inline_commands [of "bytes_of ''PING''" id]
  show ?thesis by (simp only: gostr_bytes_of a u) (simp add: resp_marks_def)
qed

end
