(* ===== verification/Kafka.thy ===== *)
theory Kafka
  imports Go_Strings
begin

text \<open>
  The Kafka parser, \<open>src/pkg/protocol/kafka.go\<close>: request and response headers, the topic of the five
  requests the source looks into, and the recognition of a packet.  The \<open>int16\<close> and \<open>int32\<close> fields are
  words that are read with \<open>sint\<close>.  The structures for events, messages and record batches are not
  built by any function of the source and are left out.
\<close>

section \<open>Data\<close>

abbreviation KafkaAPIProduce :: "16 word" where "KafkaAPIProduce \<equiv> 0"
abbreviation KafkaAPIFetch :: "16 word" where "KafkaAPIFetch \<equiv> 1"
abbreviation KafkaAPIMetadata :: "16 word" where "KafkaAPIMetadata \<equiv> 3"
abbreviation KafkaAPICreateTopics :: "16 word" where "KafkaAPICreateTopics \<equiv> 19"
abbreviation KafkaAPIDeleteTopics :: "16 word" where "KafkaAPIDeleteTopics \<equiv> 20"

definition kafkaAPIKeyNames :: "(16 word \<times> string) list" where
  "kafkaAPIKeyNames =
     [(0, ''Produce''), (1, ''Fetch''), (2, ''ListOffsets''), (3, ''Metadata''), (4, ''LeaderAndIsr''),
      (5, ''StopReplica''), (6, ''UpdateMetadata''), (7, ''ControlledShutdown''), (8, ''OffsetCommit''),
      (9, ''OffsetFetch''), (10, ''FindCoordinator''), (11, ''JoinGroup''), (12, ''Heartbeat''),
      (13, ''LeaveGroup''), (14, ''SyncGroup''), (15, ''DescribeGroups''), (16, ''ListGroups''),
      (17, ''SaslHandshake''), (18, ''ApiVersions''), (19, ''CreateTopics''), (20, ''DeleteTopics''),
      (21, ''DeleteRecords''), (22, ''InitProducerId''), (23, ''OffsetForLeaderEpoch''),
      (24, ''AddPartitionsToTxn''), (25, ''AddOffsetsToTxn''), (26, ''EndTxn''),
      (27, ''WriteTxnMarkers''), (28, ''TxnOffset''), (29, ''DescribeAcls''), (30, ''CreateAcls''),
      (31, ''DeleteAcls''), (32, ''AlterConfigs''), (34, ''AlterReplicaLogDirs''),
      (35, ''DescribeLogDirs''), (36, ''SaslAuthenticate''), (37, ''CreatePartitions'')]"

record KafkaRequestHeader =
  kh_ApiKey :: "16 word"
  kh_ApiVersion :: "16 word"
  kh_CorrelationID :: "32 word"
  kh_ClientID :: string

record KafkaResponseHeader =
  kr_CorrelationID :: "32 word"

record KafkaRequest =
  kq_Header :: KafkaRequestHeader
  kq_Topic :: string

record KafkaResponse =
  ks_Header :: KafkaResponseHeader

datatype kafka_error =
    KafkaRequestHeaderTooShort | KafkaIncompleteClientIDLength | KafkaIncompleteClientID
  | KafkaResponseHeaderTooShort | KafkaRequestTooShort | KafkaResponseTooShort

section \<open>Operations\<close>

definition ParseKafkaRequestHeader :: "bytes \<Rightarrow> (kafka_error, KafkaRequestHeader \<times> nat) outcome" where
  "ParseKafkaRequestHeader data =
     (if length data < 10 then Err KafkaRequestHeaderTooShort
      else obind (u16be_at data 0) (\<lambda>key. obind (u16be_at data 2) (\<lambda>ver.
        let offset = 4 in
        obind (u32be_at data offset) (\<lambda>cid.
        let offset = offset + 4 in
        if offset + 2 > length data then Err KafkaIncompleteClientIDLength
        else obind (u16be_at data offset) (\<lambda>n.
        let clientIDLen = unat n; offset = offset + 2 in
        if offset + clientIDLen > length data then Err KafkaIncompleteClientID
        else obind (go_slice data offset (offset + clientIDLen)) (\<lambda>s.
          Ok (\<lparr>kh_ApiKey = key, kh_ApiVersion = ver, kh_CorrelationID = cid, kh_ClientID = gostr s\<rparr>,
              offset + clientIDLen)))))))"

definition ParseKafkaResponseHeader :: "bytes \<Rightarrow> (kafka_error, KafkaResponseHeader \<times> nat) outcome" where
  "ParseKafkaResponseHeader data =
     (if length data < 4 then Err KafkaResponseHeaderTooShort
      else obind (u32be_at data 0) (\<lambda>cid. Ok (\<lparr>kr_CorrelationID = cid\<rparr>, 4)))"

text \<open>The block every branch of \<open>ParseKafkaRequest\<close> ends with: the length of the topic array, then the
  name of its first topic.  \<open>Topic\<close> stays empty where a bound is not met.\<close>

definition kafka_first_topic :: "bytes \<Rightarrow> nat \<Rightarrow> (kafka_error, string) outcome" where
  "kafka_first_topic data offset =
     (if offset + 4 \<le> length data then
        obind (u32be_at data offset) (\<lambda>topicArrayLen.
        let offset = offset + 4 in
        if unat topicArrayLen > 0 \<and> offset + 2 \<le> length data then
          obind (u16be_at data offset) (\<lambda>n.
          let topicNameLen = unat n; offset = offset + 2 in
          if offset + topicNameLen \<le> length data
          then obind (go_slice data offset (offset + topicNameLen)) (\<lambda>s. Ok (gostr s))
          else Ok '''')
        else Ok '''')
      else Ok '''')"

text \<open>\<open>if offset+n <= len(data) \<open>{\<close> offset += n \<open>}\<close>\<close>\<close>

definition kafka_skip :: "bytes \<Rightarrow> nat \<Rightarrow> nat \<Rightarrow> nat" where
  "kafka_skip data n offset = (if offset + n \<le> length data then offset + n else offset)"

definition kafka_produce_topic :: "bytes \<Rightarrow> nat \<Rightarrow> (kafka_error, string) outcome" where
  "kafka_produce_topic data offset =
     (if offset + 2 \<le> length data then
        obind (u16be_at data offset) (\<lambda>n.
        let txnIDLen = unat n;
            offset = offset + 2;
            offset = (if txnIDLen > 0 then offset + txnIDLen else offset);
            offset = kafka_skip data 2 offset;
            offset = kafka_skip data 4 offset
        in kafka_first_topic data offset)
      else Ok '''')"

definition kafka_fetch_topic :: "bytes \<Rightarrow> nat \<Rightarrow> (kafka_error, string) outcome" where
  "kafka_fetch_topic data offset =
     (let offset = kafka_skip data 4 offset;
          offset = kafka_skip data 4 offset;
          offset = kafka_skip data 4 offset;
          offset = kafka_skip data 1 offset
      in kafka_first_topic data offset)"

definition ParseKafkaRequest :: "bytes \<Rightarrow> (kafka_error, KafkaRequest) outcome" where
  "ParseKafkaRequest data =
     (if length data < 10 then Err KafkaRequestTooShort
      else obind (ParseKafkaRequestHeader data) (\<lambda>(header, offset).
        obind (if kh_ApiKey header = KafkaAPIProduce then kafka_produce_topic data offset
               else if kh_ApiKey header = KafkaAPIFetch then kafka_fetch_topic data offset
               else if kh_ApiKey header = KafkaAPIMetadata then kafka_first_topic data offset
               else if kh_ApiKey header = KafkaAPICreateTopics then kafka_first_topic data offset
               else if kh_ApiKey header = KafkaAPIDeleteTopics then kafka_first_topic data offset
               else Ok '''') (\<lambda>topic.
          Ok \<lparr>kq_Header = header, kq_Topic = topic\<rparr>)))"

definition ParseKafkaResponse :: "bytes \<Rightarrow> (kafka_error, KafkaResponse) outcome" where
  "ParseKafkaResponse data =
     (if length data < 4 then Err KafkaResponseTooShort
      else obind (ParseKafkaResponseHeader data) (\<lambda>(header, offset). Ok \<lparr>ks_Header = header\<rparr>))"

definition GetKafkaAPIKeyName :: "16 word \<Rightarrow> string" where
  "GetKafkaAPIKeyName apiKey =
     (case map_of kafkaAPIKeyNames apiKey of
        Some name \<Rightarrow> name | None \<Rightarrow> ''UNKNOWN('' @ dec_int (sint apiKey) @ '')'')"

definition IsKafkaPacket :: "bytes \<Rightarrow> ('e, bool) outcome" where
  "IsKafkaPacket data =
     (if length data < 10 then Ok False
      else obind (u32be_at data 0) (\<lambda>messageSize.
        if sint messageSize < 0 \<or> sint messageSize > 10485760 then Ok False
        else obind (u16be_at data 4) (\<lambda>apiKey.
          if sint apiKey < 0 \<or> sint apiKey > 62 then Ok False
          else obind (u16be_at data 6) (\<lambda>apiVersion.
            if sint apiVersion < 0 \<or> sint apiVersion > 20 then Ok False else Ok True))))"

section \<open>Requests on the wire\<close>

definition kafka_header_bytes :: "KafkaRequestHeader \<Rightarrow> bytes" where
  "kafka_header_bytes h =
     put_be 2 (unat (kh_ApiKey h)) @ put_be 2 (unat (kh_ApiVersion h)) @
     put_be 4 (unat (kh_CorrelationID h)) @
     put_be 2 (length (kh_ClientID h)) @ bytes_of (kh_ClientID h)"

lemma kafka_header_length [simp]: "length (kafka_header_bytes h) = 10 + length (kh_ClientID h)"
  by (simp add: kafka_header_bytes_def)

lemma unat_len16: "n < 2 ^ 16 \<Longrightarrow> unat (word_of_nat n :: 16 word) = n"
  by (simp add: unat_of_nat)

lemma ParseKafkaRequestHeader_bytes:
  assumes "length (kh_ClientID h) < 2 ^ 16"
  shows "ParseKafkaRequestHeader (kafka_header_bytes h @ rest) = Ok (h, length (kafka_header_bytes h))"
proof -
  let ?d = "kafka_header_bytes h @ rest" and ?n = "word_of_nat (length (kh_ClientID h)) :: 16 word"
  let ?k = "put_be 2 (unat (kh_ApiKey h))" and ?v = "put_be 2 (unat (kh_ApiVersion h))"
    and ?c = "put_be 4 (unat (kh_CorrelationID h))"
  have n: "unat ?n = length (kh_ClientID h)" using assms by (rule unat_len16)
  have f: "u16be_at ?d 0 = (Ok (kh_ApiKey h) :: (kafka_error, _) outcome)"
    "u16be_at ?d 2 = (Ok (kh_ApiVersion h) :: (kafka_error, _) outcome)"
    "u32be_at ?d 4 = (Ok (kh_CorrelationID h) :: (kafka_error, _) outcome)"
    "u16be_at ?d 8 = (Ok ?n :: (kafka_error, _) outcome)"
    using be_at_append(1) [of 0 "[]" "kh_ApiKey h"] be_at_append(1) [of 2 ?k "kh_ApiVersion h"]
      be_at_append(2) [of 4 "?k @ ?v" "kh_CorrelationID h"]
      be_at_append(1) [of 8 "?k @ ?v @ ?c" ?n]
    by (simp_all add: kafka_header_bytes_def n)
  have s: "drop 10 (kafka_header_bytes h) = bytes_of (kh_ClientID h)"
    by (simp add: kafka_header_bytes_def)
  show ?thesis
    using n by (simp add: ParseKafkaRequestHeader_def f s)
qed

text \<open>The topic array with its first topic, and the request bodies that lead up to it.\<close>

definition kafka_topics_bytes :: "32 word \<Rightarrow> string \<Rightarrow> bytes" where
  "kafka_topics_bytes cnt topic = put_be 4 (unat cnt) @ put_be 2 (length topic) @ bytes_of topic"


lemma kafka_first_topic_not_Panic: "kafka_first_topic data offset \<noteq> Panic"
  by (simp add: kafka_first_topic_def Let_def)

lemma kafka_first_topic_not_Err: "kafka_first_topic data offset \<noteq> Err e"
  by (simp add: kafka_first_topic_def Let_def)







section \<open>Bounds\<close>

lemma ParseKafkaRequestHeader_cases:
  "(\<exists>e. ParseKafkaRequestHeader data = Err e) \<or>
   (\<exists>h n. ParseKafkaRequestHeader data = Ok (h, n) \<and> 10 \<le> n \<and> n \<le> length data)"
  by (auto simp: ParseKafkaRequestHeader_def Let_def)

lemma kafka_topic_total:
  "\<exists>t. kafka_first_topic data offset = Ok t" "\<exists>t. kafka_produce_topic data offset = Ok t"
  "\<exists>t. kafka_fetch_topic data offset = Ok t"
proof -
  show first: "\<exists>t. kafka_first_topic data offset = Ok t" for offset
    by (cases "kafka_first_topic data offset")
       (simp_all add: kafka_first_topic_not_Err kafka_first_topic_not_Panic)
  show "\<exists>t. kafka_produce_topic data offset = Ok t"
    using first by (auto simp: kafka_produce_topic_def Let_def)
  show "\<exists>t. kafka_fetch_topic data offset = Ok t"
    using first by (auto simp: kafka_fetch_topic_def Let_def)
qed

text \<open>C29.  No bytes crash the Kafka parser: a request is either rejected with an error or returned, and it
  is returned exactly when its header is; the body, however short or inconsistent, only decides the
  topic.\<close>

theorem kafka_request_total:
  "ParseKafkaRequest data \<noteq> Panic \<and>
   ((\<exists>t. ParseKafkaRequest data = Ok \<lparr>kq_Header = h, kq_Topic = t\<rparr>) \<longleftrightarrow>
    (\<exists>n. ParseKafkaRequestHeader data = Ok (h, n)))"
proof -
  have short: "\<nexists>n. ParseKafkaRequestHeader data = Ok (h, n)" if "length data < 10"
    using that by (simp add: ParseKafkaRequestHeader_def)
  from ParseKafkaRequestHeader_cases [of data] show ?thesis
  proof (elim disjE exE conjE)
    fix e assume "ParseKafkaRequestHeader data = Err e"
    then show ?thesis by (simp add: ParseKafkaRequest_def)
  next
    fix g n assume g: "ParseKafkaRequestHeader data = Ok (g, n)" "10 \<le> n" "n \<le> length data"
    then have "\<exists>t. ParseKafkaRequest data = Ok \<lparr>kq_Header = g, kq_Topic = t\<rparr>"
      using kafka_topic_total [of data n] by (auto simp: ParseKafkaRequest_def)
    then obtain t where "ParseKafkaRequest data = Ok \<lparr>kq_Header = g, kq_Topic = t\<rparr>" ..
    with g show ?thesis by auto
  qed
qed

text \<open>A Produce request without a transaction carries the null identifier, length \<open>0xffff\<close>.  The parser
  takes it for an identifier of 65535 bytes: the topic of such a request is never reported, for any
  request shorter than 64 KiB behind its header.\<close>

theorem kafka_null_transaction_hides_topic:
  assumes "length (kh_ClientID h) < 2 ^ 16" and "kh_ApiKey h = KafkaAPIProduce" and "length body < 65535"
  shows "ParseKafkaRequest (kafka_header_bytes h @ [0xff, 0xff] @ body) = Ok \<lparr>kq_Header = h, kq_Topic = ''''\<rparr>"
proof -
  let ?d = "kafka_header_bytes h @ [0xff, 0xff] @ body" and ?o = "length (kafka_header_bytes h)"
  have "put_be 2 (unat (be16 0xff 0xff)) = [0xff, 0xff]" by (rule put_be_words)
  then have f: "u16be_at ?d ?o = (Ok (be16 0xff 0xff) :: (kafka_error, _) outcome)"
    using be_at_append(1) [of ?o "kafka_header_bytes h" "be16 0xff 0xff" body] by simp
  have n: "unat (be16 0xff 0xff) = 65535" by (simp add: unat_be be_nat_def)
  have past: "length ?d < ?o + 2 + 65535" using assms(3) by simp
  have "kafka_produce_topic ?d ?o = kafka_first_topic ?d (?o + 2 + 65535)"
    unfolding kafka_produce_topic_def f using past by (simp add: n kafka_skip_def Let_def)
  also have "\<dots> = Ok ''''" using past by (simp add: kafka_first_topic_def)
  finally show ?thesis
    using assms(2) by (simp add: ParseKafkaRequest_def ParseKafkaRequestHeader_bytes [OF assms(1)])
qed

theorem kafka_null_transaction_hides_topic_witness:
  "ParseKafkaRequest (kafka_header_bytes \<lparr>kh_ApiKey = 0, kh_ApiVersion = 3, kh_CorrelationID = 9, kh_ClientID = ''app''\<rparr> @
      [0xff, 0xff] @ (replicate 6 0 @ kafka_topics_bytes 1 ''orders'')) =
    Ok \<lparr>kq_Header = \<lparr>kh_ApiKey = 0, kh_ApiVersion = 3, kh_CorrelationID = 9, kh_ClientID = ''app''\<rparr>, kq_Topic = ''''\<rparr>"
  using kafka_null_transaction_hides_topic
    [of "\<lparr>kh_ApiKey = 0, kh_ApiVersion = 3, kh_CorrelationID = 9, kh_ClientID = ''app''\<rparr>"
        "replicate 6 0 @ kafka_topics_bytes 1 ''orders''"]
  by (simp add: kafka_topics_bytes_def)

end
