(* ===== verification/Dubbo.thy ===== *)
theory Dubbo
  imports Go_Strings
begin

text \<open>
  The Dubbo parser, \<open>src/pkg/protocol/dubbo.go\<close>: the protocol header, requests and responses, the
  recognition of a packet and the Hessian2 reader, whose cursor is explicit state.  The locale
  \<open>cursor_reader\<close> is the contract every read operation of the reader keeps.  The bodies of requests and
  responses are not decoded by the source; the fields it never fills are left out of the records.
\<close>

section \<open>Data\<close>

definition DubboMagic :: "16 word" where "DubboMagic = 0xdabb"
definition DubboHeaderLength :: nat where "DubboHeaderLength = 16"
definition DubboMaxBodyLength :: int where "DubboMaxBodyLength = 8 * 1024 * 1024"

abbreviation DubboMessageRequest :: byte where "DubboMessageRequest \<equiv> 1"
abbreviation DubboMessageResponse :: byte where "DubboMessageResponse \<equiv> 2"

definition dubboStatusNames :: "(byte \<times> string) list" where
  "dubboStatusNames =
     [(20, ''OK''), (30, ''CLIENT_TIMEOUT''), (31, ''SERVER_TIMEOUT''), (40, ''BAD_REQUEST''),
      (50, ''BAD_RESPONSE''), (60, ''SERVICE_NOT_FOUND''), (70, ''SERVICE_ERROR''),
      (80, ''SERVER_ERROR''), (90, ''CLIENT_ERROR'')]"

record DubboProtocolHeader =
  dh_Magic :: "16 word"
  dh_Flags :: byte
  dh_Status :: byte
  dh_Serialization :: byte
  dh_MessageType :: byte
  dh_EventType :: byte
  dh_IsTwoWay :: bool
  dh_IsEvent :: bool
  dh_BodyLength :: "32 word"
  dh_RequestID :: "64 word"

record DubboRequest =
  dq_Header :: DubboProtocolHeader

record DubboResponse =
  dr_Header :: DubboProtocolHeader

datatype dubbo_error =
    DubboHeaderTooShort | DubboInvalidMagic "16 word" | DubboInvalidBodyLength int
  | DubboRequestTooShort | DubboResponseTooShort
  | HessianEndOfData | HessianInt32 | HessianInt64 | HessianStringLength | HessianString

section \<open>Operations\<close>

definition ParseDubboProtocolHeader :: "bytes \<Rightarrow> (dubbo_error, DubboProtocolHeader) outcome" where
  "ParseDubboProtocolHeader data =
     (if length data < DubboHeaderLength then Err DubboHeaderTooShort
      else obind (u16be_at data 0) (\<lambda>magic.
        if magic \<noteq> DubboMagic then Err (DubboInvalidMagic magic)
        else obind (go_index data 2) (\<lambda>flags.
        let header = \<lparr>dh_Magic = magic, dh_Flags = flags, dh_Status = 0, dh_Serialization = 0,
              dh_MessageType = drop_bit 5 flags AND 0x01, dh_EventType = 0,
              dh_IsTwoWay = (flags AND 0x20 \<noteq> 0), dh_IsEvent = (flags AND 0x10 \<noteq> 0),
              dh_BodyLength = 0, dh_RequestID = 0\<rparr> in
        obind (go_index data 3) (\<lambda>status.
        let header = header\<lparr>dh_Status := status\<rparr>;
            header = (if dh_MessageType header = DubboMessageResponse
                      then header\<lparr>dh_Status := status\<rparr> else header\<lparr>dh_Status := status\<rparr>);
            header = header\<lparr>dh_Serialization := flags AND 0x1f\<rparr> in
        obind (u64be_at data 4) (\<lambda>rid.
        let header = header\<lparr>dh_RequestID := rid\<rparr> in
        obind (u32be_at data 12) (\<lambda>len.
        let header = header\<lparr>dh_BodyLength := len\<rparr> in
        if sint len < 0 \<or> sint len > DubboMaxBodyLength then Err (DubboInvalidBodyLength (sint len))
        else Ok header))))))"

definition ParseDubboRequest :: "bytes \<Rightarrow> (dubbo_error, DubboRequest) outcome" where
  "ParseDubboRequest data =
     (if length data < DubboHeaderLength then Err DubboRequestTooShort
      else obind (ParseDubboProtocolHeader data) (\<lambda>header.
        let request = \<lparr>dq_Header = header\<rparr> in
        if dh_IsEvent header then Ok request
        else if length data > DubboHeaderLength
        then obind (go_from data DubboHeaderLength) (\<lambda>body. Ok request)
        else Ok request))"

definition ParseDubboResponse :: "bytes \<Rightarrow> (dubbo_error, DubboResponse) outcome" where
  "ParseDubboResponse data =
     (if length data < DubboHeaderLength then Err DubboResponseTooShort
      else obind (ParseDubboProtocolHeader data) (\<lambda>header.
        let response = \<lparr>dr_Header = header\<rparr> in
        if dh_IsEvent header then Ok response
        else if length data > DubboHeaderLength
        then obind (go_from data DubboHeaderLength) (\<lambda>body. Ok response)
        else Ok response))"

definition GetDubboStatusName :: "byte \<Rightarrow> string" where
  "GetDubboStatusName status =
     (case map_of dubboStatusNames status of
        Some name \<Rightarrow> name | None \<Rightarrow> ''UNKNOWN('' @ dec (unat status) @ '')'')"

definition GetDubboMessageTypeName :: "byte \<Rightarrow> string" where
  "GetDubboMessageTypeName msgType =
     (if msgType = DubboMessageRequest then ''Request''
      else if msgType = DubboMessageResponse then ''Response''
      else ''Unknown('' @ dec (unat msgType) @ '')'')"

definition GetDubboSerializationName :: "byte \<Rightarrow> string" where
  "GetDubboSerializationName serialization =
     (if serialization = 2 then ''Hessian2''
      else if serialization = 6 then ''JSON''
      else if serialization = 12 then ''Protobuf''
      else ''Unknown('' @ dec (unat serialization) @ '')'')"

definition IsDubboPacket :: "bytes \<Rightarrow> ('e, bool) outcome" where
  "IsDubboPacket data =
     (if length data < DubboHeaderLength then Ok False
      else obind (u16be_at data 0) (\<lambda>magic.
        if magic \<noteq> DubboMagic then Ok False
        else obind (go_index data 2) (\<lambda>flags.
          let msgType = drop_bit 5 flags AND 0x01 in
          if msgType > 1 then Ok False
          else obind (u32be_at data 12) (\<lambda>bodyLength.
            if sint bodyLength < 0 \<or> sint bodyLength > DubboMaxBodyLength then Ok False else Ok True))))"

section \<open>The Hessian2 reader\<close>

record Hessian2Decoder =
  hd_data :: bytes
  hd_offset :: nat

definition NewHessian2Decoder :: "bytes \<Rightarrow> Hessian2Decoder" where
  "NewHessian2Decoder data = \<lparr>hd_data = data, hd_offset = 0\<rparr>"

definition ReadByte :: "Hessian2Decoder \<Rightarrow> Hessian2Decoder \<times> (dubbo_error, byte) outcome" where
  "ReadByte d =
     (if hd_offset d \<ge> length (hd_data d) then (d, Err HessianEndOfData)
      else (case go_index (hd_data d) (hd_offset d) of
              Ok b \<Rightarrow> (d\<lparr>hd_offset := hd_offset d + 1\<rparr>, Ok b)
            | Err e \<Rightarrow> (d, Err e)
            | Panic \<Rightarrow> (d, Panic)))"

definition ReadInt32 :: "Hessian2Decoder \<Rightarrow> Hessian2Decoder \<times> (dubbo_error, 32 word) outcome" where
  "ReadInt32 d =
     (if hd_offset d + 4 > length (hd_data d) then (d, Err HessianInt32)
      else (case u32be_at (hd_data d) (hd_offset d) of
              Ok v \<Rightarrow> (d\<lparr>hd_offset := hd_offset d + 4\<rparr>, Ok v)
            | Err e \<Rightarrow> (d, Err e)
            | Panic \<Rightarrow> (d, Panic)))"

definition ReadInt64 :: "Hessian2Decoder \<Rightarrow> Hessian2Decoder \<times> (dubbo_error, 64 word) outcome" where
  "ReadInt64 d =
     (if hd_offset d + 8 > length (hd_data d) then (d, Err HessianInt64)
      else (case u64be_at (hd_data d) (hd_offset d) of
              Ok v \<Rightarrow> (d\<lparr>hd_offset := hd_offset d + 8\<rparr>, Ok v)
            | Err e \<Rightarrow> (d, Err e)
            | Panic \<Rightarrow> (d, Panic)))"

definition ReadString :: "Hessian2Decoder \<Rightarrow> Hessian2Decoder \<times> (dubbo_error, string) outcome" where
  "ReadString d =
     (if hd_offset d \<ge> length (hd_data d) then (d, Err HessianEndOfData)
      else (case ReadInt32 d of
              (d, Ok len) \<Rightarrow>
                if sint len < 0 then (d, Err HessianStringLength)
                else let n = nat (sint len) in
                  if hd_offset d + n > length (hd_data d) then (d, Err HessianString)
                  else (case go_slice (hd_data d) (hd_offset d) (hd_offset d + n) of
                          Ok v \<Rightarrow> (d\<lparr>hd_offset := hd_offset d + n\<rparr>, Ok (gostr v))
                        | Err e \<Rightarrow> (d, Err e)
                        | Panic \<Rightarrow> (d, Panic))
            | (d, Err e) \<Rightarrow> (d, Err e)
            | (d, Panic) \<Rightarrow> (d, Panic)))"

section \<open>The contract of the read operations\<close>

definition hessian_inv :: "Hessian2Decoder \<Rightarrow> bool" where
  "hessian_inv d \<longleftrightarrow> hd_offset d \<le> length (hd_data d)"

text \<open>Reading the same kind of value again and again, until \<open>n\<close> values are read or one fails.\<close>

primrec read_many :: "('s \<Rightarrow> 's \<times> ('e, 'a) outcome) \<Rightarrow> nat \<Rightarrow> 's \<Rightarrow> 's \<times> ('e, 'a list) outcome" where
  "read_many rd 0 d = (d, Ok [])"
| "read_many rd (Suc n) d =
     (case rd d of
        (d, Ok v) \<Rightarrow> (case read_many rd n d of (d, r) \<Rightarrow> (d, obind r (\<lambda>vs. Ok (v # vs))))
      | (d, Err e) \<Rightarrow> (d, Err e)
      | (d, Panic) \<Rightarrow> (d, Panic))"

locale cursor_reader =
  fixes rd :: "Hessian2Decoder \<Rightarrow> Hessian2Decoder \<times> (dubbo_error, 'a) outcome"
    and width :: "'a \<Rightarrow> nat"
  assumes rd_data: "hd_data (fst (rd d)) = hd_data d"
    and rd_inv: "hessian_inv d \<Longrightarrow> hessian_inv (fst (rd d))"
    and rd_mono: "hd_offset d \<le> hd_offset (fst (rd d))"
    and rd_Ok: "snd (rd d) = Ok v \<Longrightarrow> hd_offset (fst (rd d)) = hd_offset d + width v"
    and rd_no_panic: "snd (rd d) \<noteq> Panic"
begin

lemma read_many_data: "hd_data (fst (read_many rd n d)) = hd_data d"
proof (induction n arbitrary: d)
  case (Suc n)
  then show ?case using rd_data [of d] by (simp split: prod.splits outcome.splits) (metis fst_conv)
qed simp

lemma read_many_inv: "hessian_inv d \<Longrightarrow> hessian_inv (fst (read_many rd n d))"
proof (induction n arbitrary: d)
  case (Suc n)
  then show ?case using rd_inv [of d] by (simp split: prod.splits outcome.splits) (metis fst_conv)
qed simp

lemma read_many_no_panic: "snd (read_many rd n d) \<noteq> Panic"
proof (induction n arbitrary: d)
  case (Suc n)
  then show ?case using rd_no_panic [of d]
    by (simp split: prod.splits outcome.splits add: obind_iffs) (metis snd_conv)
qed simp

lemma read_many_Ok:
  "snd (read_many rd n d) = Ok vs \<Longrightarrow>
   length vs = n \<and> hd_offset (fst (read_many rd n d)) = hd_offset d + sum_list (map width vs)"
proof (induction n arbitrary: d vs)
  case (Suc n)
  obtain d' r where rd: "rd d = (d', r)" by (cases "rd d")
  from Suc.prems rd obtain v where v: "r = Ok v" by (cases r) simp_all
  obtain d'' r' where rm: "read_many rd n d' = (d'', r')" by (cases "read_many rd n d'")
  from Suc.prems rd v rm obtain us where us: "r' = Ok us" "vs = v # us" by (auto simp: obind_iffs)
  from rd_Ok [of d v] rd v have "hd_offset d' = hd_offset d + width v" by simp
  with Suc.IH [of d' us] rd v rm us show ?case by simp
qed simp

end

interpretation hbyte: cursor_reader ReadByte "\<lambda>_. 1"
  by unfold_locales (auto simp: ReadByte_def hessian_inv_def split: if_splits)

interpretation hint32: cursor_reader ReadInt32 "\<lambda>_. 4"
  by unfold_locales (auto simp: ReadInt32_def hessian_inv_def split: if_splits)

interpretation hint64: cursor_reader ReadInt64 "\<lambda>_. 8"
  by unfold_locales (auto simp: ReadInt64_def hessian_inv_def split: if_splits)

interpretation hstring: cursor_reader ReadString "\<lambda>s. 4 + length s"
  by unfold_locales
     (auto simp: ReadString_def ReadInt32_def hessian_inv_def Let_def split: if_splits)

section \<open>Headers\<close>

lemma dubbo_msgtype_bit: "drop_bit 5 f AND 0x01 = (if f AND 0x20 = 0 then 0 else 1 :: byte)"
proof -
  have "(drop_bit 5 f AND 1 :: byte) = of_bool (bit f 5)"
    by (simp add: and_one_eq mod_2_eq_odd bit_iff_odd_drop_bit)
  moreover have "f AND push_bit 5 1 = (if bit f 5 then push_bit 5 1 else 0 :: byte)"
    by (rule bit_eqI) (auto simp: bit_and_iff bit_push_bit_iff bit_1_iff simp del: push_bit_of_1)
  ultimately show ?thesis by simp
qed

text \<open>C32.  Recognition and parsing agree: \<open>IsDubboPacket\<close> accepts exactly the data whose header
  \<open>ParseDubboProtocolHeader\<close> returns, and neither ever panics.\<close>

theorem dubbo_recognised_iff_parsed:
  "(IsDubboPacket data = Ok True \<longleftrightarrow> (\<exists>h. ParseDubboProtocolHeader data = Ok h)) \<and>
   (IsDubboPacket data = Ok True \<or> IsDubboPacket data = Ok False) \<and>
   ParseDubboProtocolHeader data \<noteq> Panic"
proof -
  have "\<not> (drop_bit 5 (data ! 2) AND 0x01 > (1 :: byte))" by (simp only: dubbo_msgtype_bit) simp
  then show ?thesis
    by (auto simp: IsDubboPacket_def ParseDubboProtocolHeader_def DubboHeaderLength_def Let_def)
qed

text \<open>The message type is taken from the bit that also marks two-way calls, one bit wide: a parsed
  header is a request exactly when it is two-way, it is never a response, and its printed type is
  \<open>Request\<close> or \<open>Unknown(0)\<close>.\<close>

theorem dubbo_never_response:
  assumes "ParseDubboProtocolHeader data = Ok h"
  shows "(dh_MessageType h = DubboMessageRequest \<longleftrightarrow> dh_IsTwoWay h) \<and>
    dh_MessageType h \<noteq> DubboMessageResponse \<and>
    GetDubboMessageTypeName (dh_MessageType h) = (if dh_IsTwoWay h then ''Request'' else ''Unknown(0)'')"
proof -
  have "dh_MessageType h = drop_bit 5 (dh_Flags h) AND 0x01" "dh_IsTwoWay h \<longleftrightarrow> dh_Flags h AND 0x20 \<noteq> 0"
    using assms by (auto simp: ParseDubboProtocolHeader_def Let_def obind_iffs split: if_splits)
  then have "dh_MessageType h = (if dh_IsTwoWay h then 1 else 0)" by (simp only: dubbo_msgtype_bit) simp
  moreover have "dec 0 = ''0''" by code_simp
  ultimately show ?thesis by (simp add: GetDubboMessageTypeName_def)
qed

definition dubbo_header_example :: bytes where
  "dubbo_header_example = [0xda, 0xbb, 0x02, 20, 0, 0, 0, 0, 0, 0, 0, 1, 0, 0, 0, 5]"

theorem dubbo_never_response_witness:
  "\<exists>h. ParseDubboProtocolHeader dubbo_header_example = Ok h \<and> dh_Status h = 20 \<and>
     GetDubboMessageTypeName (dh_MessageType h) = ''Unknown(0)''"
proof -
  obtain h where h: "ParseDubboProtocolHeader dubbo_header_example = Ok h" "dh_Status h = 20" "\<not> dh_IsTwoWay h"
    by (auto simp: ParseDubboProtocolHeader_def dubbo_header_example_def DubboHeaderLength_def DubboMagic_def
        DubboMaxBodyLength_def be16_def be32_def)
  with dubbo_never_response [OF h(1)] show ?thesis by auto
qed

section \<open>Strings in sequence\<close>

definition hessian_string_bytes :: "string \<Rightarrow> bytes" where
  "hessian_string_bytes s = put_be 4 (length s) @ bytes_of s"

lemma sint_len32: "n < 2 ^ 31 \<Longrightarrow> sint (word_of_nat n :: 32 word) = int n"
  by (simp add: signed_of_nat signed_take_bit_int_eq_self)

lemma ReadString_bytes:
  assumes "length s < 2 ^ 31"
  shows "ReadString \<lparr>hd_data = pre @ hessian_string_bytes s @ rest, hd_offset = length pre\<rparr> =
    (\<lparr>hd_data = pre @ hessian_string_bytes s @ rest, hd_offset = length pre + 4 + length s\<rparr>, Ok s)"
proof -
  let ?d = "pre @ hessian_string_bytes s @ rest" and ?n = "word_of_nat (length s) :: 32 word"
  have u: "unat ?n = length s" using assms by (simp add: unat_of_nat)
  have n: "u32be_at ?d (length pre) = (Ok ?n :: (dubbo_error, _) outcome)"
    using be_at_append(2) [of "length pre" pre ?n "bytes_of s @ rest"] u by (simp add: hessian_string_bytes_def)
  have i: "ReadInt32 \<lparr>hd_data = ?d, hd_offset = length pre\<rparr> =
      (\<lparr>hd_data = ?d, hd_offset = length pre + 4\<rparr>, Ok ?n)"
    unfolding ReadInt32_def Hessian2Decoder.simps n by (simp add: hessian_string_bytes_def)
  have "go_slice ?d (length pre + 4) (length pre + 4 + length s) = (Ok (bytes_of s) :: (dubbo_error, _) outcome)"
    by (simp add: hessian_string_bytes_def)
  then show ?thesis
    unfolding ReadString_def i by (simp add: sint_len32 [OF assms] hessian_string_bytes_def Let_def)
qed

text \<open>C33.  Strings written one behind the other are read back in order, and the cursor ends behind the
  last of them; and on any data whatever, reading any number of strings never panics, never changes
  the data and never moves the cursor past its end.\<close>

theorem hessian_strings_roundtrip:
  assumes "list_all (\<lambda>s. length s < 2 ^ 31) ss"
  shows "read_many ReadString (length ss) (NewHessian2Decoder (concat (map hessian_string_bytes ss) @ rest)) =
    (\<lparr>hd_data = concat (map hessian_string_bytes ss) @ rest,
      hd_offset = length (concat (map hessian_string_bytes ss))\<rparr>, Ok ss) \<and>
    (hessian_inv d \<longrightarrow> snd (read_many ReadString n d) \<noteq> Panic \<and>
       hd_data (fst (read_many ReadString n d)) = hd_data d \<and> hessian_inv (fst (read_many ReadString n d)))"
proof -
  have "read_many ReadString (length ss)
      \<lparr>hd_data = pre @ concat (map hessian_string_bytes ss) @ rest, hd_offset = length pre\<rparr> =
    (\<lparr>hd_data = pre @ concat (map hessian_string_bytes ss) @ rest,
      hd_offset = length pre + length (concat (map hessian_string_bytes ss))\<rparr>, Ok ss)" for pre
    using assms
  proof (induction ss arbitrary: pre)
    case (Cons s ss)
    have "ReadString \<lparr>hd_data = pre @ concat (map hessian_string_bytes (s # ss)) @ rest, hd_offset = length pre\<rparr> =
        (\<lparr>hd_data = pre @ concat (map hessian_string_bytes (s # ss)) @ rest,
          hd_offset = length (pre @ hessian_string_bytes s)\<rparr>, Ok s)"
      using ReadString_bytes [of s pre] Cons.prems by (simp add: hessian_string_bytes_def)
    with Cons.IH [of "pre @ hessian_string_bytes s"] Cons.prems show ?case by simp
  qed simp
  from this [of "[]"] show ?thesis
    using hstring.read_many_no_panic hstring.read_many_data hstring.read_many_inv
    by (simp add: NewHessian2Decoder_def)
qed

theorem hessian_strings_roundtrip_witness:
  "read_many ReadString (Suc (Suc 0)) (NewHessian2Decoder (concat (map hessian_string_bytes [''svc'', '''']) @ [0x4e])) =
    (\<lparr>hd_data = concat (map hessian_string_bytes [''svc'', '''']) @ [0x4e], hd_offset = 11\<rparr>, Ok [''svc'', ''''])"
  using hessian_strings_roundtrip [of "[''svc'', '''']" "[0x4e]"]
  by (simp add: hessian_string_bytes_def del: read_many.simps)

end
