(* ===== verification/Sniffer.thy ===== *)
theory Sniffer
  imports Mysql Redis Kafka Dubbo
begin

text \<open>
  The protocol sniffer, \<open>src/pkg/protocol/sniffer.go\<close>: detection by configured port, by well-known port
  with a check of the payload, and by payload alone; and the dispatch to the parsers.  The parsers
  \<open>ParseHTTPRequest\<close>, \<open>ParseKafkaPacket\<close>, \<open>ParseDubboPacket\<close> and \<open>ParseDNSPacket\<close> that \<open>ParseL7Event\<close> names are
  not part of the repository; they are parameters of the model.
\<close>

section \<open>Data\<close>

text \<open>The Go type is an \<open>int\<close>; a port override may hold a number that is none of the constants.\<close>

datatype L7Protocol =
    L7ProtocolNone | L7ProtocolHTTP | L7ProtocolHTTPS | L7ProtocolHTTP2 | L7ProtocolMySQL
  | L7ProtocolRedis | L7ProtocolKafka | L7ProtocolDubbo | L7ProtocolDNS | L7ProtocolOther int

abbreviation PortHTTP :: "16 word" where "PortHTTP \<equiv> 80"
abbreviation PortHTTPS :: "16 word" where "PortHTTPS \<equiv> 443"
abbreviation PortHTTPAlt :: "16 word" where "PortHTTPAlt \<equiv> 8080"
abbreviation PortMySQL :: "16 word" where "PortMySQL \<equiv> 3306"
abbreviation PortRedis :: "16 word" where "PortRedis \<equiv> 6379"
abbreviation PortKafka :: "16 word" where "PortKafka \<equiv> 9092"
abbreviation PortDubbo :: "16 word" where "PortDubbo \<equiv> 20880"
abbreviation PortDNS :: "16 word" where "PortDNS \<equiv> 53"

abbreviation MySQLMagicByte :: byte where "MySQLMagicByte \<equiv> 0x00"
abbreviation MySQLQueryCommand :: byte where "MySQLQueryCommand \<equiv> 0x03"
abbreviation MySQLHandshakeV10 :: byte where "MySQLHandshakeV10 \<equiv> 0x0a"

record L7Sniffer =
  portOverride :: "16 word \<rightharpoonup> L7Protocol"

text \<open>A nil map is replaced by an empty one.\<close>

definition NewL7Sniffer :: "(16 word \<rightharpoonup> L7Protocol) option \<Rightarrow> L7Sniffer" where
  "NewL7Sniffer po = \<lparr>portOverride = (case po of None \<Rightarrow> Map.empty | Some m \<Rightarrow> m)\<rparr>"

section \<open>Detection\<close>

definition detectByPort :: "16 word \<Rightarrow> 16 word \<Rightarrow> L7Protocol" where
  "detectByPort srcPort dstPort =
     (if dstPort = PortHTTP \<or> dstPort = PortHTTPS \<or> dstPort = PortHTTPAlt then L7ProtocolHTTP
      else if srcPort = PortHTTP \<or> srcPort = PortHTTPS \<or> srcPort = PortHTTPAlt then L7ProtocolHTTP
      else if dstPort = PortMySQL \<or> srcPort = PortMySQL then L7ProtocolMySQL
      else if dstPort = PortRedis \<or> srcPort = PortRedis then L7ProtocolRedis
      else if dstPort = PortKafka \<or> srcPort = PortKafka then L7ProtocolKafka
      else if dstPort = PortDubbo \<or> srcPort = PortDubbo then L7ProtocolDubbo
      else if dstPort = PortDNS \<or> srcPort = PortDNS then L7ProtocolDNS
      else L7ProtocolNone)"

definition http_methods :: "string list" where
  "http_methods = [''GET'', ''POST'', ''PUT'', ''DELETE'', ''HEAD'', ''OPTIONS'', ''PATCH'', ''CONNECT'', ''TRACE'']"

definition verifyHTTP :: "bytes \<Rightarrow> bool" where
  "verifyHTTP data =
     (if length data < 8 then False
      else if list_ex (\<lambda>method.
          length data \<ge> length method \<and> gostr (take (length method) data) = method \<and>
          length data > length method \<and> data ! length method = of_char (CHR '' '')) http_methods
      then True
      else if length data \<ge> 4 \<and> gostr (take 4 data) = ''HTTP'' then True
      else False)"

text \<open>\<open>data[4]\<close> is read only when \<open>data[0]\<close> is 0; the check in front of it asks for four bytes.\<close>

definition verifyMySQL :: "bytes \<Rightarrow> ('e, bool) outcome" where
  "verifyMySQL data =
     (if length data < MySQLPacketHeaderSize then Ok False
      else obind (go_index data 0) (\<lambda>b0.
        obind (if b0 = MySQLMagicByte
               then obind (go_index data 4) (\<lambda>b4. Ok (b4 = MySQLHandshakeV10)) else Ok False) (\<lambda>handshake.
        if handshake then Ok True
        else if b0 = MySQLQueryCommand then Ok True
        else if b0 = 0x00 \<and> length data > 1 then Ok True
        else if b0 = 0xfe \<and> length data = 5 then Ok True
        else Ok False)))"

definition verifyRedis :: "(string \<Rightarrow> string) \<Rightarrow> bytes \<Rightarrow> bool" where
  "verifyRedis uni data =
     (if length data < 2 then False
      else if data ! 0 \<in> resp_marks then True
      else if length data \<ge> 3 then
        let cmd = ToUpper uni (gostr (take 3 data)) in
        cmd = ''GET'' \<or> cmd = ''SET'' \<or> cmd = ''DEL'' \<or> cmd = ''PING''
      else False)"

definition verifyKafka :: "bytes \<Rightarrow> ('e, bool) outcome" where
  "verifyKafka data =
     (if length data < 4 then Ok False
      else obind (u32be_at data 0) (\<lambda>len. Ok (len > 0 \<and> len < 1048576)))"

definition verifyDubbo :: "bytes \<Rightarrow> ('e, bool) outcome" where
  "verifyDubbo data =
     (if length data < 16 then Ok False
      else obind (u16be_at data 0) (\<lambda>magic. Ok (magic = DubboMagic)))"

definition verifyDNS :: "bytes \<Rightarrow> ('e, bool) outcome" where
  "verifyDNS data =
     (if length data < 12 then Ok False
      else obind (u16be_at data 4) (\<lambda>questions. obind (u16be_at data 6) (\<lambda>answers.
        Ok (questions < 100 \<and> answers < 100))))"

definition verifyProtocol :: "(string \<Rightarrow> string) \<Rightarrow> bytes \<Rightarrow> L7Protocol \<Rightarrow> ('e, bool) outcome" where
  "verifyProtocol uni data proto =
     (case proto of
        L7ProtocolHTTP \<Rightarrow> Ok (verifyHTTP data)
      | L7ProtocolMySQL \<Rightarrow> verifyMySQL data
      | L7ProtocolRedis \<Rightarrow> Ok (verifyRedis uni data)
      | L7ProtocolKafka \<Rightarrow> verifyKafka data
      | L7ProtocolDubbo \<Rightarrow> verifyDubbo data
      | L7ProtocolDNS \<Rightarrow> verifyDNS data
      | _ \<Rightarrow> Ok False)"

definition detectByPayload :: "bytes \<Rightarrow> ('e, L7Protocol) outcome" where
  "detectByPayload data =
     (if length data \<ge> 4 \<and> gostr (take 4 data) = ''HTTP'' then Ok L7ProtocolHTTP
      else if length data \<ge> 4 \<and> data ! 0 = MySQLMagicByte then Ok L7ProtocolMySQL
      else if length data \<ge> 4 \<and> data ! 0 = MySQLQueryCommand then Ok L7ProtocolMySQL
      else if length data \<ge> 1 \<and> data ! 0 \<in> resp_marks then Ok L7ProtocolRedis
      else obind (if length data \<ge> 2
                  then obind (u16be_at data 0) (\<lambda>magic. Ok (magic = DubboMagic)) else Ok False) (\<lambda>dubbo.
        if dubbo then Ok L7ProtocolDubbo
        else obind (if length data \<ge> 12
                    then obind (u16be_at data 4) (\<lambda>questions. obind (u16be_at data 6) (\<lambda>answers.
                      Ok (questions < 100 \<and> answers < 100)))
                    else Ok False) (\<lambda>dns.
          if dns then Ok L7ProtocolDNS else Ok L7ProtocolNone)))"

definition DetectProtocol ::
  "(string \<Rightarrow> string) \<Rightarrow> L7Sniffer \<Rightarrow> bytes \<Rightarrow> 16 word \<Rightarrow> 16 word \<Rightarrow> ('e, L7Protocol) outcome" where
  "DetectProtocol uni s data srcPort dstPort =
     (if length data < 4 then Ok L7ProtocolNone
      else case portOverride s dstPort of
        Some proto \<Rightarrow> Ok proto
      | None \<Rightarrow> (case portOverride s srcPort of
          Some proto \<Rightarrow> Ok proto
        | None \<Rightarrow>
            let proto = detectByPort srcPort dstPort in
            obind (if proto \<noteq> L7ProtocolNone then verifyProtocol uni data proto else Ok False) (\<lambda>verified.
            if verified then Ok proto else detectByPayload data)))"

definition protocolNames :: "(L7Protocol \<times> string) list" where
  "protocolNames =
     [(L7ProtocolNone, ''unknown''), (L7ProtocolHTTP, ''http''), (L7ProtocolHTTPS, ''https''),
      (L7ProtocolHTTP2, ''http2''), (L7ProtocolMySQL, ''mysql''), (L7ProtocolRedis, ''redis''),
      (L7ProtocolKafka, ''kafka''), (L7ProtocolDubbo, ''dubbo''), (L7ProtocolDNS, ''dns'')]"

definition GetProtocolName :: "L7Protocol \<Rightarrow> string" where
  "GetProtocolName proto = (case map_of protocolNames proto of Some name \<Rightarrow> name | None \<Rightarrow> ''unknown'')"

section \<open>Dispatch to the parsers\<close>

text \<open>The parsers the repository does not contain.\<close>

record ('h, 'k, 'd, 'n) l7_parsers =
  lp_ParseHTTPRequest :: "bytes \<Rightarrow> (string, 'h) outcome"
  lp_ParseKafkaPacket :: "bytes \<Rightarrow> (string, 'k) outcome"
  lp_ParseDubboPacket :: "bytes \<Rightarrow> (string, 'd) outcome"
  lp_ParseDNSPacket :: "bytes \<Rightarrow> (string, 'n) outcome"

datatype ('h, 'k, 'd, 'n) l7_event =
  EvHTTP 'h | EvMySQL MySQLPacket | EvRedis RedisRESP | EvKafka 'k | EvDubbo 'd | EvDNS 'n

datatype l7_error =
  L7External string | L7MySQLError mysql_error | L7RedisError redis_error | L7Unsupported L7Protocol

definition omap :: "('a \<Rightarrow> 'b) \<Rightarrow> ('e, 'a) outcome \<Rightarrow> ('e, 'b) outcome" where
  "omap f m = obind m (\<lambda>v. Ok (f v))"

definition ParseL7Event ::
  "('h, 'k, 'd, 'n) l7_parsers \<Rightarrow> bytes \<Rightarrow> L7Protocol \<Rightarrow> (l7_error, ('h, 'k, 'd, 'n) l7_event) outcome" where
  "ParseL7Event ps data proto =
     (case proto of
        L7ProtocolHTTP \<Rightarrow> omap EvHTTP (map_err L7External (lp_ParseHTTPRequest ps data))
      | L7ProtocolMySQL \<Rightarrow> omap EvMySQL (map_err L7MySQLError (ParseMySQLPacket data))
      | L7ProtocolRedis \<Rightarrow> omap EvRedis (map_err L7RedisError (ParseRedisPacket data))
      | L7ProtocolKafka \<Rightarrow> omap EvKafka (map_err L7External (lp_ParseKafkaPacket ps data))
      | L7ProtocolDubbo \<Rightarrow> omap EvDubbo (map_err L7External (lp_ParseDubboPacket ps data))
      | L7ProtocolDNS \<Rightarrow> omap EvDNS (map_err L7External (lp_ParseDNSPacket ps data))
      | _ \<Rightarrow> Err (L7Unsupported proto))"

section \<open>Totality of the checks\<close>

lemma detectByPayload_total: "\<exists>p. detectByPayload data = (Ok p :: ('e, L7Protocol) outcome)"
  by (auto simp: detectByPayload_def)

lemma verify_total:
  "\<exists>v. verifyKafka data = (Ok v :: ('e, bool) outcome)"
  "\<exists>v. verifyDubbo data = (Ok v :: ('e, bool) outcome)"
  "\<exists>v. verifyDNS data = (Ok v :: ('e, bool) outcome)"
  by (auto simp: verifyKafka_def verifyDubbo_def verifyDNS_def)

lemma verifyMySQL_cases:
  assumes "4 \<le> length data"
  shows "verifyMySQL data =
    (if data ! 0 = 0 then (if length data = 4 then Panic else Ok True)
     else Ok (data ! 0 = MySQLQueryCommand \<or> data ! 0 = 0xfe \<and> length data = 5))"
proof -
  have "data \<noteq> []" using assms by auto
  then show ?thesis
    using assms by (auto simp: verifyMySQL_def MySQLPacketHeaderSize_def go_index_def)
qed

lemma verifyProtocol_not_Err: "verifyProtocol uni data p \<noteq> (Err e :: ('e, bool) outcome)"
  by (auto simp: verifyProtocol_def verifyMySQL_def verifyKafka_def verifyDubbo_def verifyDNS_def
      obind_iffs go_slices word_at_not_Err split: L7Protocol.splits if_splits)

lemma verifyProtocol_Panic_iff:
  assumes "4 \<le> length data"
  shows "verifyProtocol uni data p = (Panic :: ('e, bool) outcome) \<longleftrightarrow>
    p = L7ProtocolMySQL \<and> data ! 0 = 0 \<and> length data = 4"
  using verify_total [of data, where 'e = 'e]
  by (auto simp: verifyProtocol_def verifyMySQL_cases [OF assms] split: L7Protocol.splits)

text \<open>C12.  Exactly which traffic crashes the sniffer: a segment of four bytes that starts with 0, on the
  MySQL port (unless a HTTP port takes precedence), when neither port has an override.  All other
  data gets an answer.\<close>

theorem sniffer_panic_exact:
  "DetectProtocol uni s data srcPort dstPort = (Panic :: ('e, L7Protocol) outcome) \<longleftrightarrow>
     length data = 4 \<and> data ! 0 = 0 \<and> portOverride s dstPort = None \<and> portOverride s srcPort = None \<and>
     detectByPort srcPort dstPort = L7ProtocolMySQL"
proof (cases "length data < 4 \<or> portOverride s dstPort \<noteq> None \<or> portOverride s srcPort \<noteq> None")
  case True
  then show ?thesis by (auto simp: DetectProtocol_def split: option.splits)
next
  case False
  then show ?thesis
    using verifyProtocol_Panic_iff [of data uni "detectByPort srcPort dstPort", where 'e = 'e]
      detectByPayload_total [of data, where 'e = 'e]
    by (auto simp: DetectProtocol_def Let_def obind_iffs split: if_splits)
qed

section \<open>What a verdict means\<close>

text \<open>The evidence for a verdict in the bytes and the ports.\<close>

definition l7_evidence :: "(string \<Rightarrow> string) \<Rightarrow> bytes \<Rightarrow> 16 word \<Rightarrow> 16 word \<Rightarrow> L7Protocol \<Rightarrow> bool" where
  "l7_evidence uni data srcPort dstPort proto =
     (case proto of
        L7ProtocolNone \<Rightarrow> True
      | L7ProtocolHTTP \<Rightarrow> HasPrefix (gostr data) ''HTTP'' \<or>
          list_ex (\<lambda>m. HasPrefix (gostr data) (m @ '' '')) http_methods \<and> detectByPort srcPort dstPort = L7ProtocolHTTP
      | L7ProtocolMySQL \<Rightarrow> data ! 0 \<in> {0x00, 0x03} \<or>
          data ! 0 = 0xfe \<and> length data = 5 \<and> detectByPort srcPort dstPort = L7ProtocolMySQL
      | L7ProtocolRedis \<Rightarrow> IsRedisPacket uni data
      | L7ProtocolKafka \<Rightarrow> detectByPort srcPort dstPort = L7ProtocolKafka \<and> be_nat (take 4 data) \<in> {0<..<1048576}
      | L7ProtocolDubbo \<Rightarrow> take 2 data = [0xda, 0xbb]
      | L7ProtocolDNS \<Rightarrow> 12 \<le> length data \<and> be_nat (take 2 (drop 4 data)) < 100 \<and> be_nat (take 2 (drop 6 data)) < 100
      | _ \<Rightarrow> False)"

lemma take_nths:
  "4 \<le> length d \<Longrightarrow> take 4 d = [d ! 0, d ! 1, d ! 2, d ! 3]"
  "2 \<le> length d \<Longrightarrow> take 2 d = [d ! 0, d ! 1]"
  by (auto simp: numeral_eq_Suc Suc_le_length_iff)

lemma be16_value: "i + 2 \<le> length d \<Longrightarrow> unat (be16 (d ! i) (d ! (i + 1))) = be_nat (take 2 (drop i d))"
  using take_nths(2) [of "drop i d"] by (simp add: unat_be)

lemma u32be_head:
  "4 \<le> length d \<Longrightarrow> \<exists>w. u32be_at d 0 = (Ok w :: ('e, 32 word) outcome) \<and> unat w = be_nat (take 4 d)"
  by (simp add: unat_be take_nths) (simp add: numeral_2_eq_2)

lemma dubbo_magic_bytes: "be16 a b = DubboMagic \<longleftrightarrow> a = 0xda \<and> b = 0xbb"
proof
  assume "be16 a b = DubboMagic"
  also have "DubboMagic = be16 0xda 0xbb" by (simp add: DubboMagic_def be16_def)
  finally have "put_be 2 (unat (be16 a b)) = put_be 2 (unat (be16 0xda 0xbb))" by simp
  then have "[a, b] = [0xda, 0xbb]" by (simp only: put_be_words)
  then show "a = 0xda \<and> b = 0xbb" by simp
qed (simp add: be16_def DubboMagic_def)

lemma dns_counts:
  assumes "12 \<le> length data" and "be16 (data ! 4) (data ! 5) < 100" and "be16 (data ! 6) (data ! 7) < 100"
  shows "be_nat (take 2 (drop 4 data)) < 100 \<and> be_nat (take 2 (drop 6 data)) < 100"
  using assms be16_value [of 4 data] be16_value [of 6 data] by (simp add: word_less_nat_alt)

lemma http_prefix: "4 \<le> length data \<Longrightarrow> gostr (take 4 data) = ''HTTP'' \<Longrightarrow> HasPrefix (gostr data) ''HTTP''"
proof -
  have "length ''HTTP'' = 4" by simp
  then show "4 \<le> length data \<Longrightarrow> gostr (take 4 data) = ''HTTP'' \<Longrightarrow> HasPrefix (gostr data) ''HTTP''"
    unfolding HasPrefix_def by (simp only: gostr_take_drop length_gostr)
qed

lemma detectByPayload_evidence:
  assumes "4 \<le> length data" and "detectByPayload data = (Ok p :: ('e, L7Protocol) outcome)"
  shows "l7_evidence uni data srcPort dstPort p"
proof -
  have "data \<noteq> []" using assms(1) by auto
  show ?thesis
  proof (cases "gostr (take 4 data) = ''HTTP''")
    case True
    with assms http_prefix show ?thesis by (simp add: detectByPayload_def l7_evidence_def)
  next
    case False
    with \<open>data \<noteq> []\<close> assms dns_counts [of data] show ?thesis
      unfolding detectByPayload_def
      by (auto simp: l7_evidence_def IsRedisPacket_def dubbo_magic_bytes take_nths split: if_splits)
  qed
qed

lemma verifyProtocol_evidence:
  assumes "4 \<le> length data" and "verifyProtocol uni data p = (Ok True :: ('e, bool) outcome)"
    and "p = detectByPort srcPort dstPort"
  shows "l7_evidence uni data srcPort dstPort p"
proof -
  have "data \<noteq> []" using assms(1) by auto
  consider "p = L7ProtocolHTTP" | "p = L7ProtocolMySQL" | "p = L7ProtocolRedis" | "p = L7ProtocolKafka"
    | "p = L7ProtocolDubbo" | "p = L7ProtocolDNS"
    using assms(2) by (cases p) (auto simp: verifyProtocol_def)
  then show ?thesis
  proof cases
    case 1
    have pre: "HasPrefix (gostr data) (m @ '' '')"
      if "gostr (take (length m) data) = m" "length m < length data" "data ! length m = of_char (CHR '' '')" for m
    proof -
      have "take (Suc (length m)) (gostr data) = m @ [gostr data ! length m]"
        using that by (simp add: take_Suc_conv_app_nth gostr_take_drop)
      also have "gostr data ! length m = CHR '' ''"
        using that(2) by (simp only: nth_gostr that(3) char_of_byte)
      finally show ?thesis using that(2) by (simp add: HasPrefix_def Suc_le_eq)
    qed
    from 1 assms(2) consider m where "m \<in> set http_methods" "gostr (take (length m) data) = m"
        "length m < length data" "data ! length m = of_char (CHR '' '')" | "gostr (take 4 data) = ''HTTP''"
      unfolding verifyProtocol_def verifyHTTP_def list_ex_iff by (auto split: if_splits)
    then show ?thesis
      using 1 assms(3) http_prefix [OF assms(1)] pre by cases (auto simp: l7_evidence_def list_ex_iff)
  next
    case 2
    with assms show ?thesis
      by (auto simp: verifyProtocol_def verifyMySQL_cases [OF assms(1)] l7_evidence_def split: if_splits)
  next
    case 3
    with assms \<open>data \<noteq> []\<close> show ?thesis
      by (auto simp: verifyProtocol_def verifyRedis_def l7_evidence_def IsRedisPacket_def split: if_splits)
  next
    case 4
    obtain w where "u32be_at data 0 = (Ok w :: ('e, 32 word) outcome)" "unat w = be_nat (take 4 data)"
      using u32be_head [OF assms(1), where 'e = 'e] by blast
    with 4 assms show ?thesis
      unfolding verifyProtocol_def verifyKafka_def by (simp add: l7_evidence_def word_less_nat_alt)
  next
    case 5
    with assms show ?thesis
      by (auto simp: verifyProtocol_def verifyDubbo_def l7_evidence_def take_nths dubbo_magic_bytes split: if_splits)
  next
    case 6
    with assms dns_counts [of data] show ?thesis
      by (auto simp: verifyProtocol_def verifyDNS_def l7_evidence_def split: if_splits)
  qed
qed

text \<open>C13.  Every verdict without an override is backed by the bytes: HTTP by a response line, or by a method
  and a blank on a HTTP port; MySQL by its first byte; Redis by \<open>IsRedisPacket\<close>; Kafka by port and length
  prefix; Dubbo by its magic number; DNS by its counts.  HTTPS and HTTP/2 are never reported.\<close>

theorem sniffer_verdict_has_evidence:
  assumes "portOverride s dstPort = None" and "portOverride s srcPort = None"
    and "DetectProtocol uni s data srcPort dstPort = Ok p"
  shows "l7_evidence uni data srcPort dstPort p \<and> p \<noteq> L7ProtocolHTTPS \<and> p \<noteq> L7ProtocolHTTP2"
proof -
  have "l7_evidence uni data srcPort dstPort p"
  proof (cases "length data < 4")
    case True
    with assms show ?thesis by (simp add: DetectProtocol_def l7_evidence_def)
  next
    case False
    then have len: "4 \<le> length data" by simp
    with assms show ?thesis
      using detectByPayload_evidence [OF len] verifyProtocol_evidence [OF len]
      by (auto simp: DetectProtocol_def Let_def obind_iffs split: if_splits)
  qed
  then show ?thesis by (auto simp: l7_evidence_def)
qed

theorem sniffer_verdict_has_evidence_witness:
  "\<exists>p. DetectProtocol id (NewL7Sniffer None) [0x03, 0, 0, 0, 0x53] 50000 3306 = (Ok p :: (unit, L7Protocol) outcome) \<and>
     p \<noteq> L7ProtocolHTTPS \<and> l7_evidence id [0x03, 0, 0, 0, 0x53] 50000 3306 p"
proof -
  have "DetectProtocol id (NewL7Sniffer None) [0x03, 0, 0, 0, 0x53] 50000 3306 =
      (Ok L7ProtocolMySQL :: (unit, L7Protocol) outcome)"
    by (simp add: DetectProtocol_def NewL7Sniffer_def detectByPort_def verifyProtocol_def verifyMySQL_cases)
  with sniffer_verdict_has_evidence [OF _ _ this] show ?thesis by (simp add: NewL7Sniffer_def)
qed

section \<open>What the sniffer misses\<close>

text \<open>MySQL traffic is recognised by the low byte of its packet length, not by its command byte: on the
  MySQL port a packet with a non-empty payload is reported as MySQL exactly when the payload length is
  0 or 3 modulo 256.\<close>

theorem sniffer_mysql_by_length:
  assumes "portOverride s dstPort = None" and "portOverride s srcPort = None"
    and "detectByPort srcPort dstPort = L7ProtocolMySQL" and "0 < length payload" and "length payload < 2 ^ 24"
  shows "DetectProtocol uni s (mysql_packet_bytes seq payload) srcPort dstPort = (Ok L7ProtocolMySQL :: ('e, L7Protocol) outcome)
    \<longleftrightarrow> length payload mod 256 \<in> {0, 3}"
proof -
  let ?d = "mysql_packet_bytes seq payload" and ?b = "word_of_nat (length payload) :: byte"
  have b: "?d ! 0 = ?b" by (simp add: mysql_packet_bytes_def put_le_3)
  have eq: "?b = word_of_nat k \<longleftrightarrow> length payload mod 256 = k" if "k < 256" for k
    using that by (simp add: word_unat_eq_iff unat_byte_of_nat)
  have len: "4 < length ?d" using assms(4) by (simp del: length_greater_0_conv)
  have "\<not> (?b = 0xfe \<and> length ?d = 5)" using eq [of 254] by auto
  then have v: "verifyProtocol uni ?d L7ProtocolMySQL = (Ok (?b = 0 \<or> ?b = 3) :: ('e, bool) outcome)"
    using len by (auto simp: verifyProtocol_def verifyMySQL_cases b)
  have "detectByPayload ?d \<noteq> (Ok L7ProtocolMySQL :: ('e, L7Protocol) outcome)" if "?b \<noteq> 0" "?b \<noteq> 3"
    using that len by (auto simp: detectByPayload_def b obind_iffs split: if_splits)
  with v len assms(1-3) have "DetectProtocol uni s ?d srcPort dstPort = (Ok L7ProtocolMySQL :: ('e, L7Protocol) outcome)
      \<longleftrightarrow> ?b = 0 \<or> ?b = 3"
    by (auto simp: DetectProtocol_def)
  then show ?thesis using eq [of 0] eq [of 3] by simp
qed

theorem sniffer_mysql_by_length_witness:
  "DetectProtocol id (NewL7Sniffer None) (mysql_packet_bytes 0 (0x03 # bytes_of ''select 1'')) 50000 3306 \<noteq>
     (Ok L7ProtocolMySQL :: (unit, L7Protocol) outcome)"
  using sniffer_mysql_by_length [of "NewL7Sniffer None" 3306 50000 "0x03 # bytes_of ''select 1''" id 0, where 'e = unit]
  by (simp add: NewL7Sniffer_def detectByPort_def)

text \<open>HTTP requests are recognised on the HTTP ports only: away from the well-known ports, a request
  (a method, a blank and more) is reported as unknown, although it is HTTP to \<open>verifyHTTP\<close>.\<close>

theorem sniffer_http_request_needs_port:
  assumes "m \<in> set http_methods" and "data = bytes_of (m @ '' '') @ rest" and "8 \<le> length data" and "data ! 4 \<noteq> 0"
    and "portOverride s dstPort = None" and "portOverride s srcPort = None"
    and "detectByPort srcPort dstPort = L7ProtocolNone"
  shows "verifyHTTP data \<and> DetectProtocol uni s data srcPort dstPort = (Ok L7ProtocolNone :: ('e, L7Protocol) outcome)"
proof
  have "data ! length m = of_char (CHR '' '')" "gostr (take (length m) data) = m" "length m < length data"
    by (simp_all add: assms(2) gostr_take_drop nth_append)
  with assms(1,3) show "verifyHTTP data"
    unfolding verifyHTTP_def by (auto simp: list_ex_iff)
  have q: "be16 (data ! 4) (data ! 5) \<ge> 100"
  proof -
    have "0 < unat (data ! 4)" using assms(4) by (simp add: unat_gt_0)
    then show ?thesis by (simp add: word_le_nat_alt unat_be be_nat_def)
  qed
  have "data ! 0 \<notin> {0, 3, 0xda} \<union> resp_marks \<and> gostr (take 4 data) \<noteq> ''HTTP''"
    using assms(1) unfolding gostr_eq_bytes by (auto simp: http_methods_def assms(2) resp_marks_def)
  with assms(3) q have "detectByPayload data = (Ok L7ProtocolNone :: ('e, L7Protocol) outcome)"
    by (auto simp: detectByPayload_def dubbo_magic_bytes not_less)
  with assms(3,5-) show "DetectProtocol uni s data srcPort dstPort = (Ok L7ProtocolNone :: ('e, L7Protocol) outcome)"
    by (simp add: DetectProtocol_def)
qed

theorem sniffer_http_request_needs_port_witness:
  "DetectProtocol id (NewL7Sniffer None) (bytes_of (''GET'' @ '' '') @ bytes_of ''/ HTTP/1.1'') 50000 3000 =
     (Ok L7ProtocolNone :: (unit, L7Protocol) outcome)"
  using sniffer_http_request_needs_port [of "''GET''" "bytes_of (''GET'' @ '' '') @ bytes_of ''/ HTTP/1.1''"
      "bytes_of ''/ HTTP/1.1''" "NewL7Sniffer None" 3000 50000 id, where 'e = unit]
  by (simp add: NewL7Sniffer_def detectByPort_def http_methods_def)

end
