(* ===== verification/Perf.thy ===== *)
theory Perf
  imports Complex_Main Go_Strings
begin

text \<open>
  The performance analyzers, \<open>src/pkg/perf/analyzer.go\<close>: CPU samples per process, allocations per
  process, block I/O per device, and the readers of \<open>/proc\<close>.  Counters are 64-bit words and wrap around.
  A Go map is a HOL map; the order in which \<open>range\<close> visits it is not determined, so the operations that
  depend on it take the visited values as an argument, constrained by \<open>range_order\<close>, and the theorems
  hold for every such order.  The mutexes make each operation atomic, so an operation is one function
  on the state.  The percentages are exact rationals; the rounding of \<open>float64\<close> is not modelled.
\<close>

section \<open>Ranking\<close>

text \<open>The pair of nested loops both \<open>GetTopCPU\<close> and \<open>GetTopAlloc\<close> use to sort; \<open>key\<close> is the field they
  compare.\<close>

definition swap_at :: "'a list \<Rightarrow> nat \<Rightarrow> nat \<Rightarrow> 'a list" where
  "swap_at xs i j = xs[i := xs ! j, j := xs ! i]"

function sort_inner :: "('a \<Rightarrow> 64 word) \<Rightarrow> nat \<Rightarrow> nat \<Rightarrow> 'a list \<Rightarrow> 'a list" where
  "sort_inner key i j xs =
     (if j < length xs
      then sort_inner key i (j + 1) (if key (xs ! j) > key (xs ! i) then swap_at xs i j else xs)
      else xs)"
  by pat_completeness auto
termination by (relation "measure (\<lambda>(_, _, j, xs). length xs - j)") (auto simp: swap_at_def)

declare sort_inner.simps [simp del]

lemma length_swap_at [simp]: "length (swap_at xs i j) = length xs"
  by (simp add: swap_at_def)

lemma length_sort_inner [simp]: "length (sort_inner key i j xs) = length xs"
proof (induction key i j xs rule: sort_inner.induct)
  case (1 key i j xs)
  then show ?case by (subst sort_inner.simps) simp
qed

function sort_outer :: "('a \<Rightarrow> 64 word) \<Rightarrow> nat \<Rightarrow> 'a list \<Rightarrow> 'a list" where
  "sort_outer key i xs =
     (if i < length xs then sort_outer key (i + 1) (sort_inner key i (i + 1) xs) else xs)"
  by pat_completeness auto
termination by (relation "measure (\<lambda>(_, i, xs). length xs - i)") auto

declare sort_outer.simps [simp del]

text \<open>\<open>if n > len(procs) \<open>{\<close> n = len(procs) \<open>}\<close>; return procs[:n]\<close>\<close>

definition top_n :: "('a \<Rightarrow> 64 word) \<Rightarrow> 'a list \<Rightarrow> int \<Rightarrow> ('e, 'a list) outcome" where
  "top_n key procs n =
     (let sorted = sort_outer key 0 procs;
          n = (if n > int (length sorted) then int (length sorted) else n)
      in if n < 0 then Panic else go_slice sorted 0 (nat n))"

definition range_order :: "('k \<rightharpoonup> 'v) \<Rightarrow> 'v list \<Rightarrow> bool" where
  "range_order m vs \<longleftrightarrow> (\<exists>ks. distinct ks \<and> set ks = dom m \<and> map Some vs = map m ks)"

section \<open>CPU samples\<close>

record ProcessCPU =
  pc_PID :: "32 word"
  pc_Comm :: string
  pc_TotalNS :: "64 word"
  pc_UserNS :: "64 word"
  pc_SystemNS :: "64 word"

record SchedAnalyzer =
  sa_samples :: "32 word \<rightharpoonup> ProcessCPU"
  sa_interval :: int

definition NewSchedAnalyzer :: "int \<Rightarrow> SchedAnalyzer" where
  "NewSchedAnalyzer interval = \<lparr>sa_samples = Map.empty, sa_interval = interval\<rparr>"

definition RecordSample :: "SchedAnalyzer \<Rightarrow> 32 word \<Rightarrow> string \<Rightarrow> 64 word \<Rightarrow> SchedAnalyzer" where
  "RecordSample s pid comm deltaNS =
     (let p = (case sa_samples s pid of
                 Some p \<Rightarrow> p
               | None \<Rightarrow> \<lparr>pc_PID = pid, pc_Comm = comm, pc_TotalNS = 0, pc_UserNS = 0, pc_SystemNS = 0\<rparr>)
      in s\<lparr>sa_samples := (sa_samples s)(pid \<mapsto> p\<lparr>pc_TotalNS := pc_TotalNS p + deltaNS\<rparr>)\<rparr>)"

definition GetTopCPU :: "ProcessCPU list \<Rightarrow> int \<Rightarrow> ('e, ProcessCPU list) outcome" where
  "GetTopCPU procs n = top_n pc_TotalNS procs n"

definition Reset :: "SchedAnalyzer \<Rightarrow> SchedAnalyzer" where
  "Reset s = s\<lparr>sa_samples := Map.empty\<rparr>"

section \<open>Allocations\<close>

record AllocInfo =
  ai_PID :: "32 word"
  ai_Bytes :: "64 word"
  ai_Count :: "64 word"
  ai_AllocNS :: "64 word"
  ai_FreeNS :: "64 word"

record MemLeakDetector =
  ml_allocs :: "32 word \<rightharpoonup> AllocInfo"

definition NewMemLeakDetector :: MemLeakDetector where
  "NewMemLeakDetector = \<lparr>ml_allocs = Map.empty\<rparr>"

definition RecordAlloc :: "MemLeakDetector \<Rightarrow> 32 word \<Rightarrow> 64 word \<Rightarrow> MemLeakDetector" where
  "RecordAlloc m pid bytes =
     (let info = (case ml_allocs m pid of
                    Some info \<Rightarrow> info
                  | None \<Rightarrow> \<lparr>ai_PID = pid, ai_Bytes = 0, ai_Count = 0, ai_AllocNS = 0, ai_FreeNS = 0\<rparr>)
      in m\<lparr>ml_allocs := (ml_allocs m)(pid \<mapsto>
             info\<lparr>ai_Bytes := ai_Bytes info + bytes, ai_Count := ai_Count info + 1\<rparr>)\<rparr>)"

definition RecordFree :: "MemLeakDetector \<Rightarrow> 32 word \<Rightarrow> 64 word \<Rightarrow> MemLeakDetector" where
  "RecordFree m pid bytes =
     (case ml_allocs m pid of
        Some info \<Rightarrow>
          if ai_Bytes info \<ge> bytes
          then m\<lparr>ml_allocs := (ml_allocs m)(pid \<mapsto> info\<lparr>ai_Bytes := ai_Bytes info - bytes\<rparr>)\<rparr>
          else m
      | None \<Rightarrow> m)"

definition GetTopAlloc :: "AllocInfo list \<Rightarrow> int \<Rightarrow> ('e, AllocInfo list) outcome" where
  "GetTopAlloc allocs n = top_n ai_Bytes allocs n"

section \<open>Block I/O\<close>

record BlockIOStats =
  bs_Device :: string
  bs_ReadCount :: "64 word"
  bs_WriteCount :: "64 word"
  bs_ReadBytes :: "64 word"
  bs_WriteBytes :: "64 word"
  bs_ReadLatNS :: "64 word"
  bs_WriteLatNS :: "64 word"

record BlockIOAnalyzer =
  ba_ios :: "string \<rightharpoonup> BlockIOStats"

definition NewBlockIOAnalyzer :: BlockIOAnalyzer where
  "NewBlockIOAnalyzer = \<lparr>ba_ios = Map.empty\<rparr>"

definition RecordIO :: "BlockIOAnalyzer \<Rightarrow> string \<Rightarrow> bool \<Rightarrow> 64 word \<Rightarrow> 64 word \<Rightarrow> BlockIOAnalyzer" where
  "RecordIO b device isWrite bytes latencyNS =
     (let stats = (case ba_ios b device of
                     Some stats \<Rightarrow> stats
                   | None \<Rightarrow> \<lparr>bs_Device = device, bs_ReadCount = 0, bs_WriteCount = 0, bs_ReadBytes = 0,
                       bs_WriteBytes = 0, bs_ReadLatNS = 0, bs_WriteLatNS = 0\<rparr>);
          stats = (if isWrite
                   then stats\<lparr>bs_WriteCount := bs_WriteCount stats + 1, bs_WriteBytes := bs_WriteBytes stats + bytes,
                          bs_WriteLatNS := bs_WriteLatNS stats + latencyNS\<rparr>
                   else stats\<lparr>bs_ReadCount := bs_ReadCount stats + 1, bs_ReadBytes := bs_ReadBytes stats + bytes,
                          bs_ReadLatNS := bs_ReadLatNS stats + latencyNS\<rparr>)
      in b\<lparr>ba_ios := (ba_ios b)(device \<mapsto> stats)\<rparr>)"

definition GetStats :: "BlockIOAnalyzer \<Rightarrow> string \<rightharpoonup> BlockIOStats" where
  "GetStats b = ba_ios b"

section \<open>Host metrics\<close>

text \<open>\<open>strconv.ParseUint(s, 10, 64)\<close> with the error ignored: 0 for a malformed number, the largest value for
  one out of range.\<close>

definition parse_uint64 :: "string \<Rightarrow> 64 word" where
  "parse_uint64 s =
     (case ParseUint s of Inr n \<Rightarrow> word_of_nat n | Inl (ErrSyntax _) \<Rightarrow> 0 | Inl (ErrRange _) \<Rightarrow> - 1)"

record HostMetrics =
  hm_CPU :: rat
  hm_Mem :: rat
  hm_Disk :: rat
  hm_NetRx :: "64 word"
  hm_NetTx :: "64 word"

definition percent :: "64 word \<Rightarrow> 64 word \<Rightarrow> rat" where
  "percent a b = of_nat (unat a) / of_nat (unat b) * 100"

text \<open>The contents of the three files are arguments; \<open>None\<close> stands for an error of \<open>os.ReadFile\<close>.\<close>

definition collectCPUUsage :: "string option \<Rightarrow> rat" where
  "collectCPUUsage stat =
     (case stat of
        None \<Rightarrow> 0
      | Some data \<Rightarrow>
          (case scan_lines data of
             [] \<Rightarrow> 0
           | line # _ \<Rightarrow>
               if HasPrefix line ''cpu '' then
                 let fields = Fields line in
                 if length fields \<ge> 5 then
                   let user = parse_uint64 (fields ! 1); nice = parse_uint64 (fields ! 2);
                       system = parse_uint64 (fields ! 3); idle = parse_uint64 (fields ! 4);
                       total = user + nice + system + idle
                   in if total > 0 then percent (user + system) total else 0
                 else 0
               else 0))"

fun mem_lines :: "string list \<Rightarrow> 64 word \<times> 64 word \<Rightarrow> 64 word \<times> 64 word" where
  "mem_lines [] acc = acc"
| "mem_lines (line # lines) (tot, available) =
     (let fields = Fields line in
      if length fields < 2 then mem_lines lines (tot, available)
      else let val = parse_uint64 (fields ! 1) in
        if HasPrefix (fields ! 0) ''MemTotal'' then mem_lines lines (val, available)
        else if HasPrefix (fields ! 0) ''MemAvailable'' then mem_lines lines (tot, val)
        else mem_lines lines (tot, available))"

definition collectMemUsage :: "string option \<Rightarrow> rat" where
  "collectMemUsage meminfo =
     (case meminfo of
        None \<Rightarrow> 0
      | Some data \<Rightarrow>
          (case mem_lines (scan_lines data) (0, 0) of (tot, available) \<Rightarrow>
             if tot > 0 then percent (tot - available) tot else 0))"

definition collectDiskUsage :: rat where
  "collectDiskUsage = 0"

fun net_lines :: "string list \<Rightarrow> 64 word \<times> 64 word \<Rightarrow> 64 word \<times> 64 word" where
  "net_lines [] acc = acc"
| "net_lines (line # lines) (rx, tx) =
     (case str_index line '':'' of
        None \<Rightarrow> net_lines lines (rx, tx)
      | Some idx \<Rightarrow>
          let fields = Fields (drop (idx + 1) line) in
          if length fields \<ge> 10
          then net_lines lines (rx + parse_uint64 (fields ! 0), tx + parse_uint64 (fields ! 8))
          else net_lines lines (rx, tx))"

definition collectNetStats :: "string option \<Rightarrow> 64 word \<times> 64 word" where
  "collectNetStats netdev =
     (case netdev of None \<Rightarrow> (0, 0) | Some data \<Rightarrow> net_lines (drop 2 (scan_lines data)) (0, 0))"

definition CollectHostMetrics :: "string option \<Rightarrow> string option \<Rightarrow> string option \<Rightarrow> HostMetrics" where
  "CollectHostMetrics stat meminfo netdev =
     \<lparr>hm_CPU = collectCPUUsage stat, hm_Mem = collectMemUsage meminfo, hm_Disk = collectDiskUsage,
      hm_NetRx = fst (collectNetStats netdev), hm_NetTx = snd (collectNetStats netdev)\<rparr>"

section \<open>The ranking is correct\<close>

lemma swap_at_props:
  assumes "i < j" and "j < length xs"
  shows "mset (swap_at xs i j) = mset xs" and "take i (swap_at xs i j) = take i xs"
    and "swap_at xs i j ! i = xs ! j" and "swap_at xs i j ! j = xs ! i"
    and "k \<noteq> i \<Longrightarrow> k \<noteq> j \<Longrightarrow> swap_at xs i j ! k = xs ! k"
  using assms mset_swap [of j xs i] by (simp_all add: swap_at_def)

lemma sort_inner_props:
  assumes "i < j" and "i < length xs" and "\<And>k. i \<le> k \<Longrightarrow> k < j \<Longrightarrow> k < length xs \<Longrightarrow> key (xs ! k) \<le> key (xs ! i)"
  shows "mset (sort_inner key i j xs) = mset xs \<and> take i (sort_inner key i j xs) = take i xs \<and>
    (\<forall>k. i \<le> k \<longrightarrow> k < length xs \<longrightarrow> key (sort_inner key i j xs ! k) \<le> key (sort_inner key i j xs ! i))"
  using assms
proof (induction key i j xs rule: sort_inner.induct)
  case (1 key i j xs)
  show ?case
  proof (cases "j < length xs")
    case False
    with "1.prems" show ?thesis by (simp add: sort_inner.simps)
  next
    case True
    let ?ys = "if key (xs ! j) > key (xs ! i) then swap_at xs i j else xs"
    have le: "key (?ys ! k) \<le> key (?ys ! i)" if "i \<le> k" "k < j + 1" for k
    proof (cases "key (xs ! j) > key (xs ! i)")
      case gt: True
      have "key (xs ! k) \<le> key (xs ! j)" if "k \<noteq> j" using "1.prems"(3) [of k] \<open>i \<le> k\<close> \<open>k < j + 1\<close> that gt True by simp
      then show ?thesis
        using gt True "1.prems"(1) that swap_at_props(3-5) [of i j xs] by (cases "k = i"; cases "k = j") auto
    next
      case False
      then show ?thesis using "1.prems"(3) [of k] that True by (cases "k = j") auto
    qed
    have "mset ?ys = mset xs" "take i ?ys = take i xs" "length ?ys = length xs"
      using swap_at_props(1,2) [OF "1.prems"(1) True] by simp_all
    with "1.IH" [OF True _ _ le] "1.prems"(1,2) show ?thesis
      by (subst (1 2 3 4) sort_inner.simps) (simp add: True)
  qed
qed

text \<open>The state of the outer loop: the first \<open>i\<close> elements are in order and none is smaller than one behind
  them.\<close>

definition ranked_upto :: "('a \<Rightarrow> 64 word) \<Rightarrow> nat \<Rightarrow> 'a list \<Rightarrow> bool" where
  "ranked_upto key i xs \<longleftrightarrow> (\<forall>a b. a < i \<longrightarrow> a < b \<longrightarrow> b < length xs \<longrightarrow> key (xs ! b) \<le> key (xs ! a))"

lemma sort_inner_ranked:
  assumes "ranked_upto key i xs" and "i < length xs"
  shows "ranked_upto key (i + 1) (sort_inner key i (i + 1) xs)"
proof -
  let ?ys = "sort_inner key i (i + 1) xs"
  have "key (xs ! k) \<le> key (xs ! i)" if "i \<le> k" "k < i + 1" for k using that by (cases "k = i") simp_all
  with sort_inner_props [of i "i + 1" xs key] assms(2)
  have ys: "mset ?ys = mset xs" "take i ?ys = take i xs"
    "\<And>k. i \<le> k \<Longrightarrow> k < length xs \<Longrightarrow> key (?ys ! k) \<le> key (?ys ! i)" by auto
  have same: "?ys ! a = xs ! a" if "a < i" for a using ys(2) that by (metis nth_take)
  have "mset (drop i ?ys) = mset (drop i xs)"
    using ys(1,2) by (metis add_left_cancel append_take_drop_id mset_append)
  then have same_set: "set (drop i ?ys) = set (drop i xs)" by (metis set_mset_mset)
  have bk: "\<exists>b'. i \<le> b' \<and> b' < length xs \<and> ?ys ! b = xs ! b'" if "i \<le> b" "b < length xs" for b
  proof -
    have "drop i ?ys ! (b - i) \<in> set (drop i ?ys)" using that by (intro nth_mem) simp
    then have "?ys ! b \<in> set (drop i xs)" using that same_set by simp
    then obtain c where "c < length xs - i" "?ys ! b = xs ! (i + c)" by (auto simp: in_set_conv_nth)
    then show ?thesis by (intro exI [of _ "i + c"]) simp
  qed
  show ?thesis
    unfolding ranked_upto_def
  proof (intro allI impI)
    fix a b assume ab: "a < i + 1" "a < b" "b < length ?ys"
    show "key (?ys ! b) \<le> key (?ys ! a)"
    proof (cases "a < i \<and> b < i \<or> a = i")
      case True
      with ab same ys(3) [of b] assms(1) show ?thesis by (auto simp: ranked_upto_def)
    next
      case False
      with ab obtain b' where "i \<le> b'" "b' < length xs" "?ys ! b = xs ! b'" using bk [of b] by auto
      with False ab same [of a] assms(1) show ?thesis by (auto simp: ranked_upto_def)
    qed
  qed
qed

lemma sort_outer_props:
  "ranked_upto key i xs \<Longrightarrow> i \<le> length xs \<Longrightarrow>
   mset (sort_outer key i xs) = mset xs \<and> ranked_upto key (length xs) (sort_outer key i xs)"
proof (induction key i xs rule: sort_outer.induct)
  case (1 key i xs)
  show ?case
  proof (cases "i < length xs")
    case True
    have "mset (sort_inner key i (i + 1) xs) = mset xs"
      using sort_inner_props [of i "i + 1" xs key] True by (auto simp: le_less_Suc_eq)
    with "1.IH" [OF True sort_inner_ranked [OF "1.prems"(1) True]] True show ?thesis
      by (subst (1 2) sort_outer.simps) simp
  next
    case False
    with "1.prems" show ?thesis by (simp add: sort_outer.simps)
  qed
qed

lemma top_n_total: "0 \<le> n \<Longrightarrow> \<exists>best. top_n key procs n = Ok best"
  by (auto simp: top_n_def Let_def)

lemma top_n_props:
  assumes "top_n key procs n = (Ok best :: ('e, 'a list) outcome)"
  shows "length best = min (nat n) (length procs) \<and> sorted_wrt (\<lambda>a b. key b \<le> key a) best \<and>
    (\<exists>rest. mset procs = mset best + mset rest \<and> (\<forall>a \<in> set best. \<forall>b \<in> set rest. key b \<le> key a))"
proof -
  let ?s = "sort_outer key 0 procs"
  have s: "mset ?s = mset procs" "ranked_upto key (length procs) ?s"
    using sort_outer_props [of key 0 procs] by (simp_all add: ranked_upto_def)
  then have len: "length ?s = length procs" by (metis size_mset)
  from assms have best: "best = take (nat n) ?s" "0 \<le> n"
    by (auto simp: top_n_def Let_def go_slices split: if_splits)
  have "mset procs = mset best + mset (drop (nat n) ?s)"
    unfolding best s(1) [symmetric] by (metis append_take_drop_id mset_append)
  moreover have "key b \<le> key a" if "a \<in> set best" "b \<in> set (drop (nat n) ?s)" for a b
  proof -
    from that best obtain i where "a = ?s ! i" "i < nat n" "i < length procs"
      using len by (auto simp: in_set_conv_nth)
    moreover from that obtain j where "b = ?s ! (nat n + j)" "nat n + j < length procs"
      using len by (auto simp: in_set_conv_nth)
    ultimately show ?thesis using s(2) len by (simp add: ranked_upto_def)
  qed
  moreover have "sorted_wrt (\<lambda>a b. key b \<le> key a) best"
    using s(2) len by (auto simp: best sorted_wrt_iff_nth_less ranked_upto_def)
  ultimately show ?thesis using best len by (auto simp: min.commute)
qed

text \<open>C22.  \<open>GetTopCPU\<close> for every order in which the map is visited: for a non-negative \<open>n\<close> it returns the
  \<open>n\<close> busiest processes (all of them if there are fewer), busiest first, each recorded process at most
  once and none that is left out busier than one that is returned; for a negative \<open>n\<close> it panics.\<close>

theorem GetTopCPU_correct:
  assumes "range_order (sa_samples s) procs"
  shows "(n < 0 \<longrightarrow> GetTopCPU procs n = (Panic :: ('e, ProcessCPU list) outcome)) \<and>
    (0 \<le> n \<longrightarrow> (\<exists>best rest. GetTopCPU procs n = (Ok best :: ('e, ProcessCPU list) outcome) \<and>
       length best = min (nat n) (card (dom (sa_samples s))) \<and>
       sorted_wrt (\<lambda>a b. pc_TotalNS b \<le> pc_TotalNS a) best \<and>
       mset procs = mset best + mset rest \<and>
       (\<forall>a \<in> set best. \<forall>b \<in> set rest. pc_TotalNS b \<le> pc_TotalNS a)))"
proof (intro conjI impI)
  assume "n < 0"
  then show "GetTopCPU procs n = (Panic :: ('e, ProcessCPU list) outcome)"
    by (simp add: GetTopCPU_def top_n_def)
next
  assume n: "0 \<le> n"
  obtain ks where ks: "distinct ks" "set ks = dom (sa_samples s)" "map Some procs = map (sa_samples s) ks"
    using assms by (auto simp: range_order_def)
  have "length procs = card (dom (sa_samples s))"
    using ks by (metis distinct_card length_map)
  moreover obtain best where "GetTopCPU procs n = (Ok best :: ('e, ProcessCPU list) outcome)"
    using top_n_total [OF n] unfolding GetTopCPU_def by blast
  ultimately show "\<exists>best rest. GetTopCPU procs n = (Ok best :: ('e, ProcessCPU list) outcome) \<and>
       length best = min (nat n) (card (dom (sa_samples s))) \<and>
       sorted_wrt (\<lambda>a b. pc_TotalNS b \<le> pc_TotalNS a) best \<and>
       mset procs = mset best + mset rest \<and>
       (\<forall>a \<in> set best. \<forall>b \<in> set rest. pc_TotalNS b \<le> pc_TotalNS a)"
    using top_n_props [of pc_TotalNS procs n best, where 'e = 'e] by (auto simp: GetTopCPU_def)
qed

definition sched_example :: SchedAnalyzer where
  "sched_example = RecordSample (RecordSample (RecordSample (NewSchedAnalyzer 1) 7 ''sh'' 5) 9 ''db'' 30) 7 ''x'' 10"

lemma sched_example_samples:
  "sa_samples sched_example =
     [7 \<mapsto> \<lparr>pc_PID = 7, pc_Comm = ''sh'', pc_TotalNS = 15, pc_UserNS = 0, pc_SystemNS = 0\<rparr>,
      9 \<mapsto> \<lparr>pc_PID = 9, pc_Comm = ''db'', pc_TotalNS = 30, pc_UserNS = 0, pc_SystemNS = 0\<rparr>]"
  by (auto simp: sched_example_def RecordSample_def NewSchedAnalyzer_def Let_def fun_eq_iff)

theorem GetTopCPU_correct_witness:
  "range_order (sa_samples sched_example)
     [\<lparr>pc_PID = 7, pc_Comm = ''sh'', pc_TotalNS = 15, pc_UserNS = 0, pc_SystemNS = 0\<rparr>,
      \<lparr>pc_PID = 9, pc_Comm = ''db'', pc_TotalNS = 30, pc_UserNS = 0, pc_SystemNS = 0\<rparr>] \<and>
   (\<exists>best. GetTopCPU
     [\<lparr>pc_PID = 7, pc_Comm = ''sh'', pc_TotalNS = 15, pc_UserNS = 0, pc_SystemNS = 0\<rparr>,
      \<lparr>pc_PID = 9, pc_Comm = ''db'', pc_TotalNS = 30, pc_UserNS = 0, pc_SystemNS = 0\<rparr>] 1 = (Ok best :: (unit, _) outcome) \<and>
     length best = 1)"
proof -
  have r: "range_order (sa_samples sched_example)
     [\<lparr>pc_PID = 7, pc_Comm = ''sh'', pc_TotalNS = 15, pc_UserNS = 0, pc_SystemNS = 0\<rparr>,
      \<lparr>pc_PID = 9, pc_Comm = ''db'', pc_TotalNS = 30, pc_UserNS = 0, pc_SystemNS = 0\<rparr>]"
    unfolding range_order_def sched_example_samples by (intro exI [of _ "[7, 9]"]) auto
  have "card (dom (sa_samples sched_example)) = 2" unfolding sched_example_samples by simp
  with r GetTopCPU_correct [OF r, of 1, where 'e = unit] show ?thesis by auto
qed

section \<open>Allocation accounting\<close>

datatype mem_op = MemAlloc "32 word" "64 word" | MemFree "32 word" "64 word"

fun mem_step :: "MemLeakDetector \<Rightarrow> mem_op \<Rightarrow> MemLeakDetector" where
  "mem_step m (MemAlloc pid n) = RecordAlloc m pid n"
| "mem_step m (MemFree pid n) = RecordFree m pid n"

definition mem_bytes :: "MemLeakDetector \<Rightarrow> 32 word \<Rightarrow> nat" where
  "mem_bytes m pid = (case ml_allocs m pid of Some info \<Rightarrow> unat (ai_Bytes info) | None \<Rightarrow> 0)"

text \<open>What a process has allocated in a sequence of operations, and the accounting the detector promises:
  an allocation adds, a release subtracts unless it exceeds the balance, then it is ignored.\<close>

fun alloc_total :: "32 word \<Rightarrow> mem_op list \<Rightarrow> nat" where
  "alloc_total pid [] = 0"
| "alloc_total pid (MemAlloc q n # ops) = (if q = pid then unat n else 0) + alloc_total pid ops"
| "alloc_total pid (MemFree q n # ops) = alloc_total pid ops"

fun balance :: "32 word \<Rightarrow> nat \<Rightarrow> mem_op list \<Rightarrow> nat" where
  "balance pid b [] = b"
| "balance pid b (MemAlloc q n # ops) = balance pid (if q = pid then b + unat n else b) ops"
| "balance pid b (MemFree q n # ops) = balance pid (if q = pid \<and> unat n \<le> b then b - unat n else b) ops"

lemma mem_bytes_step:
  "mem_bytes (RecordAlloc m q n) pid =
     (if q = pid then (mem_bytes m pid + unat n) mod 2 ^ 64 else mem_bytes m pid)"
  "mem_bytes (RecordFree m q n) pid =
     (if q = pid \<and> unat n \<le> mem_bytes m pid then mem_bytes m pid - unat n else mem_bytes m pid)"
proof -
  show "mem_bytes (RecordAlloc m q n) pid =
     (if q = pid then (mem_bytes m pid + unat n) mod 2 ^ 64 else mem_bytes m pid)"
    by (auto simp: mem_bytes_def RecordAlloc_def Let_def unat_word_ariths split: option.splits)
  show "mem_bytes (RecordFree m q n) pid =
     (if q = pid \<and> unat n \<le> mem_bytes m pid then mem_bytes m pid - unat n else mem_bytes m pid)"
    by (auto simp: mem_bytes_def RecordFree_def word_le_nat_alt unat_sub split: option.splits)
qed

text \<open>C39.  The leak detector keeps the balance of every process exactly, whatever the order of its
  operations, as long as the bytes allocated by the process fit 64 bits: a release that exceeds the
  balance is ignored and never makes the counter wrap around.\<close>

theorem mem_detector_balance:
  assumes "mem_bytes m pid + alloc_total pid ops < 2 ^ 64"
  shows "mem_bytes (foldl mem_step m ops) pid = balance pid (mem_bytes m pid) ops"
  using assms
proof (induction ops arbitrary: m)
  case Nil
  then show ?case by simp
next
  case (Cons op ops)
  show ?case
  proof (cases op)
    case (MemAlloc q n)
    with Cons.prems Cons.IH [of "RecordAlloc m q n"] show ?thesis by (auto simp: mem_bytes_step)
  next
    case (MemFree q n)
    with Cons.prems Cons.IH [of "RecordFree m q n"] show ?thesis by (auto simp: mem_bytes_step)
  qed
qed

theorem mem_detector_balance_witness:
  "mem_bytes (foldl mem_step NewMemLeakDetector
     [MemAlloc 7 100, MemFree 7 30, MemFree 7 500, MemAlloc 8 1, MemFree 7 60]) 7 = 10"
  using mem_detector_balance [of NewMemLeakDetector 7 "[MemAlloc 7 100, MemFree 7 30, MemFree 7 500, MemAlloc 8 1, MemFree 7 60]"]
  by (simp add: mem_bytes_def NewMemLeakDetector_def del: foldl_Cons)

section \<open>Percentages\<close>

lemma percent_le_100: "b > 0 \<Longrightarrow> percent a b \<le> 100 \<longleftrightarrow> a \<le> b"
proof -
  assume "b > 0"
  then have b: "0 < unat b" by (simp add: word_less_nat_alt)
  have "(of_nat m / of_nat n * 100 \<le> (100 :: rat)) = (m \<le> n)" if "0 < n" for m n :: nat
    using that by (simp add: field_simps)
  from this [OF b] show ?thesis unfolding percent_def word_le_nat_alt .
qed

text \<open>The memory percentage is in range unless \<open>/proc/meminfo\<close> reports more available than total memory;
  then the unsigned difference wraps around.\<close>

lemma collectMemUsage_in_range:
  assumes "mem_lines (scan_lines data) (0, 0) = (tot, available)" and "tot > 0"
  shows "collectMemUsage (Some data) \<le> 100 \<longleftrightarrow> available \<le> tot"
proof -
  have "tot - available \<le> tot \<longleftrightarrow> available \<le> tot"
    by (metis word_le_sub1 word_sub_le_iff)
  then show ?thesis using assms by (simp add: collectMemUsage_def percent_le_100)
qed

end
