(* ===== verification/Output.thy ===== *)
theory Output
  imports Complex_Main Go_Strings "HOL-Library.Multiset"
begin

text \<open>
  The writers, \<open>src/internal/output\<close>: the client that posts batches to the edge (\<open>edge.go\<close>), the ClickHouse
  writer (\<open>clickhouse.go\<close>) and the writer that fans out to several (\<open>multi.go\<close>).

  The JSON encoder, the HTTP server and the database answer are arguments of the operations.  What an
  operation does to the outside is returned as a list of effects: batches sent, inserted, dropped or
  lost, and the time slept.  The functions describe one goroutine; the step relation \<open>edge_step\<close> describes
  the client as several goroutines use it at once, between the points where the source takes and
  releases the mutex.  The contract of a writer, that every event handed over is still pending or has
  met a fate that the effects name, is the locale \<open>event_writer\<close>.
\<close>

section \<open>Events\<close>

record Event =
  ev_Timestamp :: int
  ev_ProbeID :: string
  ev_Category :: string
  ev_EventType :: string
  ev_SrcIP :: string
  ev_DstIP :: string
  ev_SrcPort :: "16 word"
  ev_DstPort :: "16 word"
  ev_Protocol :: string
  ev_Bytes :: "64 word"
  ev_Packets :: "64 word"
  ev_LatencyMs :: rat
  ev_Service :: string
  ev_Details :: string
  ev_Tags :: string
  ev_TenantID :: string
  ev_ClusterID :: string
  ev_PodName :: string
  ev_Namespace :: string
  ev_NodeName :: string

definition mk_event :: "int \<Rightarrow> string \<Rightarrow> string \<Rightarrow> string \<Rightarrow> string \<Rightarrow> Event" where
  "mk_event ts probe cat typ details =
     \<lparr>ev_Timestamp = ts, ev_ProbeID = probe, ev_Category = cat, ev_EventType = typ, ev_SrcIP = '''',
      ev_DstIP = '''', ev_SrcPort = 0, ev_DstPort = 0, ev_Protocol = '''', ev_Bytes = 0, ev_Packets = 0,
      ev_LatencyMs = 0, ev_Service = '''', ev_Details = details, ev_Tags = '''', ev_TenantID = '''',
      ev_ClusterID = '''', ev_PodName = '''', ev_Namespace = '''', ev_NodeName = ''''\<rparr>"

section \<open>The edge client\<close>

datatype post_result = PostError string | PostStatus int string

datatype edge_error = EdgeMarshal string | EdgePost string | EdgeStatus int string

text \<open>The rows the ClickHouse writer inserts one at a time, with the columns of their tables.\<close>

datatype ch_row =
    MetricsRow int string rat rat rat "64 word" "64 word" "64 word" "64 word"
  | ProcessRow int string "32 word" string string string string
  | FileRow int string "32 word" string string string "32 word"
  | SyscallRow int string "32 word" string "64 word" "64 word" "64 word"

datatype effect =
    Sent "Event list" | Slept int | DroppedAfterRetries "Event list" | NotMarshalled "Event list"
  | Inserted "Event list" | NotInserted "Event list" | Logged string | LoggedError "edge_error + string"
  | InsertedRow ch_row

text \<open>\<open>flushTimer\<close> is nil until \<open>Start\<close> is called; \<open>stopCh\<close> is closed by \<open>Stop\<close>.\<close>

record EdgeClient =
  ec_addr :: string
  ec_probeID :: string
  ec_batch :: "Event list"
  ec_batchSize :: nat
  ec_flushTimer :: bool
  ec_stopped :: bool
  ec_retryCount :: nat

definition NewEdgeClient :: "string \<Rightarrow> string \<Rightarrow> EdgeClient" where
  "NewEdgeClient addr probeID =
     \<lparr>ec_addr = addr, ec_probeID = probeID, ec_batch = [], ec_batchSize = 2000, ec_flushTimer = False,
      ec_stopped = False, ec_retryCount = 0\<rparr>"

definition edge_Start :: "EdgeClient \<Rightarrow> EdgeClient" where
  "edge_Start e = e\<lparr>ec_flushTimer := True\<rparr>"

text \<open>\<open>time.Second * time.Duration(1<<uint(e.retryCount-1))\<close>, capped at 60 seconds: the shift and the
  product are 64 bits wide, the comparison is signed.\<close>

definition edge_backoff :: "nat \<Rightarrow> int" where
  "edge_backoff retryCount =
     (let backoff = sint (1000000000 * push_bit (retryCount - 1) 1 :: 64 word)
      in if backoff > 60 * 1000000000 then 60 * 1000000000 else backoff)"

definition edge_retry :: "EdgeClient \<Rightarrow> Event list \<Rightarrow> EdgeClient \<times> effect list" where
  "edge_retry e events =
     (let e = e\<lparr>ec_retryCount := ec_retryCount e + 1\<rparr> in
      if ec_retryCount e > 100
      then (e\<lparr>ec_retryCount := 0\<rparr>, [DroppedAfterRetries events])
      else (e\<lparr>ec_batch := ec_batch e @ events\<rparr>, [Slept (edge_backoff (ec_retryCount e))]))"

text \<open>\<open>marshal\<close> is \<open>json.Marshal\<close> (\<open>Inl\<close> its error), \<open>net\<close> the answer to the POST request.\<close>

definition edge_Flush ::
  "(Event list \<Rightarrow> string + string) \<Rightarrow> (string \<Rightarrow> string \<Rightarrow> post_result) \<Rightarrow> EdgeClient \<Rightarrow>
   EdgeClient \<times> effect list \<times> (edge_error, unit) outcome" where
  "edge_Flush marshal net e =
     (if length (ec_batch e) = 0 then (e, [], Ok ())
      else let events = ec_batch e; e = e\<lparr>ec_batch := []\<rparr> in
        case marshal events of
          Inl err \<Rightarrow> (e, [NotMarshalled events], Err (EdgeMarshal err))
        | Inr data \<Rightarrow>
            (case net (''http://'' @ ec_addr e @ ''/api/v1/ingest'') data of
               PostError err \<Rightarrow> (case edge_retry e events of (e, fx) \<Rightarrow> (e, fx, Err (EdgePost err)))
             | PostStatus code body \<Rightarrow>
                 if code \<noteq> 200
                 then (case edge_retry e events of (e, fx) \<Rightarrow> (e, fx, Err (EdgeStatus code body)))
                 else (e\<lparr>ec_retryCount := 0\<rparr>, [Sent events], Ok ())))"

definition edge_WriteEvent ::
  "(Event list \<Rightarrow> string + string) \<Rightarrow> (string \<Rightarrow> string \<Rightarrow> post_result) \<Rightarrow> EdgeClient \<Rightarrow> Event \<Rightarrow>
   EdgeClient \<times> effect list \<times> (edge_error, unit) outcome" where
  "edge_WriteEvent marshal net e ev =
     (let e = e\<lparr>ec_batch := ec_batch e @ [ev]\<rparr>;
          needFlush = length (ec_batch e) \<ge> ec_batchSize e
      in if needFlush then edge_Flush marshal net e else (e, [], Ok ()))"

definition edge_WriteBatch ::
  "(Event list \<Rightarrow> string + string) \<Rightarrow> (string \<Rightarrow> string \<Rightarrow> post_result) \<Rightarrow> EdgeClient \<Rightarrow> Event list \<Rightarrow>
   EdgeClient \<times> effect list \<times> (edge_error, unit) outcome" where
  "edge_WriteBatch marshal net e events =
     edge_Flush marshal net (e\<lparr>ec_batch := ec_batch e @ events\<rparr>)"

text \<open>\<open>%.2f\<close> of an exactly known number: rounded to the nearest hundredth, ties to even.\<close>

definition fmt_f2 :: "rat \<Rightarrow> string" where
  "fmt_f2 x =
     (let a = \<bar>x\<bar> * 100; f = \<lfloor>a\<rfloor>; r = a - of_int f;
          k = (if r < 1 / 2 then f else if r > 1 / 2 then f + 1 else if even f then f else f + 1)
      in (if x < 0 then ''-'' else '''') @ dec (nat (k div 100)) @ ''.'' @
         dec (nat (k mod 100 div 10)) @ dec (nat (k mod 10)))"

text \<open>The pieces of the format strings: a quoted key with its colon, and a string between quotes, which \<open>%s\<close>
  does not escape.\<close>

definition quoted :: "string \<Rightarrow> string" where
  "quoted s = CHR 0x22 # s @ [CHR 0x22]"

definition json_object :: "(string \<times> string) list \<Rightarrow> string" where
  "json_object kvs = ''{'' @ Join (map (\<lambda>(k, v). quoted k @ '':'' @ v) kvs) '','' @ ''}''"

definition metrics_event ::
  "int \<Rightarrow> string \<Rightarrow> rat \<Rightarrow> rat \<Rightarrow> rat \<Rightarrow> 64 word \<Rightarrow> 64 word \<Rightarrow> 64 word \<Rightarrow> 64 word \<Rightarrow> Event" where
  "metrics_event now probeID cpu mem disk netRx netTx diskRead diskWrite =
     mk_event now probeID ''metrics'' ''host_metrics''
       (json_object [(''cpu'', fmt_f2 cpu), (''mem'', fmt_f2 mem), (''disk'', fmt_f2 disk),
          (''net_rx'', dec (unat netRx)), (''net_tx'', dec (unat netTx)),
          (''disk_read'', dec (unat diskRead)), (''disk_write'', dec (unat diskWrite))])"

definition process_event ::
  "int \<Rightarrow> string \<Rightarrow> 32 word \<Rightarrow> string \<Rightarrow> string \<Rightarrow> string \<Rightarrow> string \<Rightarrow> Event" where
  "process_event ts probeID pid comm exe args eventType =
     mk_event ts probeID ''process'' eventType
       (json_object [(''pid'', dec (unat pid)), (''comm'', quoted comm), (''exe'', quoted exe), (''args'', quoted args)])"

definition file_event ::
  "int \<Rightarrow> string \<Rightarrow> 32 word \<Rightarrow> string \<Rightarrow> string \<Rightarrow> string \<Rightarrow> 32 word \<Rightarrow> Event" where
  "file_event ts probeID pid comm filename operation result =
     mk_event ts probeID ''file'' ''file_open''
       (json_object [(''pid'', dec (unat pid)), (''comm'', quoted comm), (''filename'', quoted filename),
          (''operation'', quoted operation), (''result'', dec_int (sint result))])"

definition syscall_event ::
  "int \<Rightarrow> string \<Rightarrow> 32 word \<Rightarrow> string \<Rightarrow> 64 word \<Rightarrow> 64 word \<Rightarrow> 64 word \<Rightarrow> Event" where
  "syscall_event ts probeID pid comm syscallNr latencyNs cnt =
     mk_event ts probeID ''syscall'' ''syscall''
       (json_object [(''pid'', dec (unat pid)), (''comm'', quoted comm), (''syscall'', dec (unat syscallNr)),
          (''latency_ns'', dec (unat latencyNs)), (''count'', dec (unat cnt))])"

text \<open>\<open>WriteMetrics\<close>, \<open>WriteProcessEvent\<close>, \<open>WriteFileEvent\<close> and \<open>WriteSyscallEvent\<close> are \<open>edge_WriteEvent\<close> on these
  events.\<close>

definition edge_WriteMetrics where
  "edge_WriteMetrics marshal net e now probeID cpu mem disk netRx netTx diskRead diskWrite =
     edge_WriteEvent marshal net e (metrics_event now probeID cpu mem disk netRx netTx diskRead diskWrite)"

definition edge_WriteProcessEvent where
  "edge_WriteProcessEvent marshal net e ts probeID pid comm exe args eventType =
     edge_WriteEvent marshal net e (process_event ts probeID pid comm exe args eventType)"

definition edge_WriteFileEvent where
  "edge_WriteFileEvent marshal net e ts probeID pid comm filename operation result =
     edge_WriteEvent marshal net e (file_event ts probeID pid comm filename operation result)"

definition edge_WriteSyscallEvent where
  "edge_WriteSyscallEvent marshal net e ts probeID pid comm syscallNr latencyNs cnt =
     edge_WriteEvent marshal net e (syscall_event ts probeID pid comm syscallNr latencyNs cnt)"

text \<open>\<open>Stop\<close> closes \<open>stopCh\<close> (a panic the second time), stops the timer (a panic when it is nil) and
  flushes; \<open>Close\<close> is \<open>Stop\<close> and returns nil.\<close>

definition edge_Stop ::
  "(Event list \<Rightarrow> string + string) \<Rightarrow> (string \<Rightarrow> string \<Rightarrow> post_result) \<Rightarrow> EdgeClient \<Rightarrow>
   EdgeClient \<times> effect list \<times> (edge_error, unit) outcome" where
  "edge_Stop marshal net e =
     (if ec_stopped e then (e, [], Panic)
      else let e = e\<lparr>ec_stopped := True\<rparr> in
        if \<not> ec_flushTimer e then (e, [], Panic)
        else case edge_Flush marshal net e of (e, fx, _) \<Rightarrow> (e, fx, Ok ()))"

definition edge_Close where
  "edge_Close marshal net e = edge_Stop marshal net e"

section \<open>The ClickHouse writer\<close>

record ClickHouseWriter =
  ch_batch :: "Event list"
  ch_batchSize :: nat
  ch_stopped :: bool

text \<open>The answers of the database (\<open>None\<close> for no error): to \<open>Open\<close>, \<open>Ping\<close>, the five \<open>CREATE TABLE\<close>
  statements, \<open>Begin\<close>, \<open>Prepare\<close>, one \<open>Exec\<close> per event, \<open>Commit\<close>, the \<open>Exec\<close> of a single row, and \<open>Close\<close>.\<close>

record ch_db =
  db_Open :: "string \<Rightarrow> string option"
  db_Ping :: "string option"
  db_CreateTable :: "string \<Rightarrow> string option"
  db_ExecRow :: "ch_row \<Rightarrow> string option"
  db_Begin :: "string option"
  db_Prepare :: "string option"
  db_Exec :: "Event \<Rightarrow> string option"
  db_Commit :: "string option"
  db_Close :: "string option"

definition err_of :: "string option \<Rightarrow> (string, unit) outcome" where
  "err_of r = (case r of None \<Rightarrow> Ok () | Some e \<Rightarrow> Err e)"

datatype ch_new_error = ChOpen string | ChPing string

definition ch_tables :: "string list" where
  "ch_tables = [''ebpf_events'', ''host_metrics'', ''process_events'', ''file_events'', ''syscall_events'']"

text \<open>\<open>createTables\<close> logs the tables it cannot create and never fails.\<close>

definition createTables :: "ch_db \<Rightarrow> effect list" where
  "createTables db =
     concat (map (\<lambda>t. case db_CreateTable db t of None \<Rightarrow> [] | Some err \<Rightarrow> [Logged (''clickhouse: create table warning: '' @ err)]) ch_tables)"

definition NewClickHouseWriter ::
  "ch_db \<Rightarrow> string \<Rightarrow> string \<Rightarrow> string \<Rightarrow> string \<Rightarrow> effect list \<times> (ch_new_error, ClickHouseWriter) outcome" where
  "NewClickHouseWriter db addr user password database =
     (let dsn = ''clickhouse://'' @ user @ '':'' @ password @ ''@'' @ addr @ ''/'' @ database in
      case db_Open db dsn of
        Some err \<Rightarrow> ([], Err (ChOpen err))
      | None \<Rightarrow>
          (case db_Ping db of
             Some err \<Rightarrow> ([], Err (ChPing err))
           | None \<Rightarrow> (createTables db, Ok \<lparr>ch_batch = [], ch_batchSize = 2000, ch_stopped = False\<rparr>)))"

text \<open>\<open>WriteMetrics\<close>, \<open>WriteProcessEvent\<close>, \<open>WriteFileEvent\<close> and \<open>WriteSyscallEvent\<close> each execute one insert.\<close>

definition ch_WriteRow ::
  "ch_db \<Rightarrow> ClickHouseWriter \<Rightarrow> ch_row \<Rightarrow> ClickHouseWriter \<times> effect list \<times> (string, unit) outcome" where
  "ch_WriteRow db w row =
     (w, (if db_ExecRow db row = None then [InsertedRow row] else []), err_of (db_ExecRow db row))"

text \<open>An event whose \<open>Exec\<close> fails is logged and skipped; without the commit nothing of the batch is
  stored.\<close>

definition ch_Flush :: "ch_db \<Rightarrow> ClickHouseWriter \<Rightarrow> ClickHouseWriter \<times> effect list \<times> (string, unit) outcome" where
  "ch_Flush db w =
     (if length (ch_batch w) = 0 then (w, [], Ok ())
      else let events = ch_batch w; w = w\<lparr>ch_batch := []\<rparr> in
        case db_Begin db of
          Some err \<Rightarrow> (w, [NotInserted events], Err err)
        | None \<Rightarrow>
            (case db_Prepare db of
               Some err \<Rightarrow> (w, [NotInserted events], Err err)
             | None \<Rightarrow>
                 let good = filter (\<lambda>ev. db_Exec db ev = None) events;
                     bad = filter (\<lambda>ev. db_Exec db ev \<noteq> None) events;
                     logs = map (\<lambda>ev. Logged (''clickhouse: insert event: '' @ the (db_Exec db ev))) bad
                 in if db_Commit db = None
                    then (w, logs @ [Inserted good, NotInserted bad], err_of (db_Commit db))
                    else (w, logs @ [NotInserted events], err_of (db_Commit db))))"

definition ch_WriteEvent ::
  "ch_db \<Rightarrow> ClickHouseWriter \<Rightarrow> Event \<Rightarrow> ClickHouseWriter \<times> effect list \<times> (string, unit) outcome" where
  "ch_WriteEvent db w ev =
     (let w = w\<lparr>ch_batch := ch_batch w @ [ev]\<rparr>;
          needFlush = length (ch_batch w) \<ge> ch_batchSize w
      in if needFlush then (case ch_Flush db w of (w, fx, _) \<Rightarrow> (w, fx, Ok ())) else (w, [], Ok ()))"

definition ch_WriteBatch ::
  "ch_db \<Rightarrow> ClickHouseWriter \<Rightarrow> Event list \<Rightarrow> ClickHouseWriter \<times> effect list \<times> (string, unit) outcome" where
  "ch_WriteBatch db w events =
     (case ch_Flush db (w\<lparr>ch_batch := ch_batch w @ events\<rparr>) of (w, fx, _) \<Rightarrow> (w, fx, Ok ()))"

definition ch_Stop :: "ch_db \<Rightarrow> ClickHouseWriter \<Rightarrow> ClickHouseWriter \<times> effect list \<times> (string, unit) outcome" where
  "ch_Stop db w =
     (if ch_stopped w then (w, [], Panic)
      else case ch_Flush db (w\<lparr>ch_stopped := True\<rparr>) of (w, fx, _) \<Rightarrow> (w, fx, Ok ()))"

definition ch_Close :: "ch_db \<Rightarrow> ClickHouseWriter \<Rightarrow> ClickHouseWriter \<times> effect list \<times> (string, unit) outcome" where
  "ch_Close db w =
     (case ch_Stop db w of
        (w, fx, Ok _) \<Rightarrow> (w, fx, err_of (db_Close db))
      | (w, fx, r) \<Rightarrow> (w, fx, r))"

section \<open>Several writers\<close>

text \<open>A value of the interface \<open>Writer\<close> is one of the two implementations; \<open>writer_env\<close> holds the answers of
  the outside world to both.\<close>

datatype any_writer = WEdge EdgeClient | WClickHouse ClickHouseWriter

record writer_env =
  we_marshal :: "Event list \<Rightarrow> string + string"
  we_net :: "string \<Rightarrow> string \<Rightarrow> post_result"
  we_db :: ch_db

definition as_edge where
  "as_edge r = (case r of (e, fx, res) \<Rightarrow> (WEdge e, fx, map_err Inl res))"

definition as_ch where
  "as_ch r = (case r of (w, fx, res) \<Rightarrow> (WClickHouse w, fx, map_err Inr res))"

definition w_WriteEvent ::
  "writer_env \<Rightarrow> Event \<Rightarrow> any_writer \<Rightarrow> any_writer \<times> effect list \<times> (edge_error + string, unit) outcome" where
  "w_WriteEvent env ev w =
     (case w of
        WEdge e \<Rightarrow> as_edge (edge_WriteEvent (we_marshal env) (we_net env) e ev)
      | WClickHouse c \<Rightarrow> as_ch (ch_WriteEvent (we_db env) c ev))"

definition w_WriteBatch ::
  "writer_env \<Rightarrow> Event list \<Rightarrow> any_writer \<Rightarrow> any_writer \<times> effect list \<times> (edge_error + string, unit) outcome" where
  "w_WriteBatch env evs w =
     (case w of
        WEdge e \<Rightarrow> as_edge (edge_WriteBatch (we_marshal env) (we_net env) e evs)
      | WClickHouse c \<Rightarrow> as_ch (ch_WriteBatch (we_db env) c evs))"

definition w_Flush ::
  "writer_env \<Rightarrow> any_writer \<Rightarrow> any_writer \<times> effect list \<times> (edge_error + string, unit) outcome" where
  "w_Flush env w =
     (case w of
        WEdge e \<Rightarrow> as_edge (edge_Flush (we_marshal env) (we_net env) e)
      | WClickHouse c \<Rightarrow> as_ch (ch_Flush (we_db env) c))"

definition w_Close ::
  "writer_env \<Rightarrow> any_writer \<Rightarrow> any_writer \<times> effect list \<times> (edge_error + string, unit) outcome" where
  "w_Close env w =
     (case w of
        WEdge e \<Rightarrow> as_edge (edge_Close (we_marshal env) (we_net env) e)
      | WClickHouse c \<Rightarrow> as_ch (ch_Close (we_db env) c))"

text \<open>The loop every method of \<open>MultiWriter\<close> is: call each writer, log its error and go on; the result is
  nil.  A panic ends the loop.\<close>

fun multi_each ::
  "('w \<Rightarrow> 'w \<times> effect list \<times> (edge_error + string, unit) outcome) \<Rightarrow> 'w list \<Rightarrow>
   'w list \<times> effect list \<times> (edge_error + string, unit) outcome" where
  "multi_each f [] = ([], [], Ok ())"
| "multi_each f (w # ws) =
     (case f w of
        (w, fx, Panic) \<Rightarrow> (w # ws, fx, Panic)
      | (w, fx, Err err) \<Rightarrow> (case multi_each f ws of (ws, gx, r) \<Rightarrow> (w # ws, fx @ [LoggedError err] @ gx, r))
      | (w, fx, Ok _) \<Rightarrow> (case multi_each f ws of (ws, gx, r) \<Rightarrow> (w # ws, fx @ gx, r)))"

text \<open>The four methods that write something other than an event: the edge client wraps it into an event,
  the ClickHouse writer inserts a row.\<close>

definition w_WriteMetrics where
  "w_WriteMetrics env now probeID cpu mem disk netRx netTx diskRead diskWrite w =
     (case w of
        WEdge e \<Rightarrow> as_edge (edge_WriteMetrics (we_marshal env) (we_net env) e now probeID cpu mem disk netRx netTx diskRead diskWrite)
      | WClickHouse c \<Rightarrow> as_ch (ch_WriteRow (we_db env) c (MetricsRow now probeID cpu mem disk netRx netTx diskRead diskWrite)))"

definition w_WriteProcessEvent where
  "w_WriteProcessEvent env ts probeID pid comm exe args eventType w =
     (case w of
        WEdge e \<Rightarrow> as_edge (edge_WriteProcessEvent (we_marshal env) (we_net env) e ts probeID pid comm exe args eventType)
      | WClickHouse c \<Rightarrow> as_ch (ch_WriteRow (we_db env) c (ProcessRow ts probeID pid comm exe args eventType)))"

definition w_WriteFileEvent where
  "w_WriteFileEvent env ts probeID pid comm filename operation result w =
     (case w of
        WEdge e \<Rightarrow> as_edge (edge_WriteFileEvent (we_marshal env) (we_net env) e ts probeID pid comm filename operation result)
      | WClickHouse c \<Rightarrow> as_ch (ch_WriteRow (we_db env) c (FileRow ts probeID pid comm filename operation result)))"

definition w_WriteSyscallEvent where
  "w_WriteSyscallEvent env ts probeID pid comm syscallNr latencyNs cnt w =
     (case w of
        WEdge e \<Rightarrow> as_edge (edge_WriteSyscallEvent (we_marshal env) (we_net env) e ts probeID pid comm syscallNr latencyNs cnt)
      | WClickHouse c \<Rightarrow> as_ch (ch_WriteRow (we_db env) c (SyscallRow ts probeID pid comm syscallNr latencyNs cnt)))"

definition multi_WriteMetrics where
  "multi_WriteMetrics env ws now probeID cpu mem disk netRx netTx diskRead diskWrite =
     multi_each (w_WriteMetrics env now probeID cpu mem disk netRx netTx diskRead diskWrite) ws"

definition multi_WriteProcessEvent where
  "multi_WriteProcessEvent env ws ts probeID pid comm exe args eventType =
     multi_each (w_WriteProcessEvent env ts probeID pid comm exe args eventType) ws"

definition multi_WriteFileEvent where
  "multi_WriteFileEvent env ws ts probeID pid comm filename operation result =
     multi_each (w_WriteFileEvent env ts probeID pid comm filename operation result) ws"

definition multi_WriteSyscallEvent where
  "multi_WriteSyscallEvent env ws ts probeID pid comm syscallNr latencyNs cnt =
     multi_each (w_WriteSyscallEvent env ts probeID pid comm syscallNr latencyNs cnt) ws"

definition multi_WriteEvent where "multi_WriteEvent env ws ev = multi_each (w_WriteEvent env ev) ws"
definition multi_WriteBatch where "multi_WriteBatch env ws evs = multi_each (w_WriteBatch env evs) ws"
definition multi_Close where "multi_Close env ws = multi_each (w_Close env) ws"

text \<open>\<open>Flush\<close> of the interface has no result, so nothing is logged.\<close>

fun multi_Flush where
  "multi_Flush env [] = ([], [])"
| "multi_Flush env (w # ws) =
     (case w_Flush env w of (w, fx, _) \<Rightarrow> (case multi_Flush env ws of (ws, gx) \<Rightarrow> (w # ws, fx @ gx)))"

section \<open>The contract of a writer\<close>

text \<open>The events an effect accounts for.\<close>

fun fate :: "effect \<Rightarrow> Event multiset" where
  "fate (Sent evs) = mset evs"
| "fate (DroppedAfterRetries evs) = mset evs"
| "fate (NotMarshalled evs) = mset evs"
| "fate (Inserted evs) = mset evs"
| "fate (NotInserted evs) = mset evs"
| "fate (Slept _) = {#}"
| "fate (Logged _) = {#}"
| "fate (LoggedError _) = {#}"
| "fate (InsertedRow _) = {#}"

definition fates :: "effect list \<Rightarrow> Event multiset" where
  "fates fx = sum_list (map fate fx)"

lemma fates_simps [simp]: "fates [] = {#}" "fates (f # fx) = fate f + fates fx" "fates (fx @ gx) = fates fx + fates gx"
  by (simp_all add: fates_def)

text \<open>A run of a writer: single events, batches and flushes in any order.\<close>

datatype write_op = OpEvent Event | OpBatch "Event list" | OpFlush

fun handed_by :: "write_op \<Rightarrow> Event multiset" where
  "handed_by (OpEvent ev) = {#ev#}"
| "handed_by (OpBatch evs) = mset evs"
| "handed_by OpFlush = {#}"

definition handed :: "write_op list \<Rightarrow> Event multiset" where
  "handed ops = sum_list (map handed_by ops)"

fun wstep where
  "wstep fl we wb s (OpEvent ev) = we s ev"
| "wstep fl we wb s (OpBatch evs) = wb s evs"
| "wstep fl we wb s OpFlush = fl s"

fun wrun where
  "wrun fl we wb s [] = (s, [])"
| "wrun fl we wb s (op # ops) =
     (case wstep fl we wb s op of (s, fx, _) \<Rightarrow> (case wrun fl we wb s ops of (s, gx) \<Rightarrow> (s, fx @ gx)))"

locale event_writer =
  fixes pending :: "'s \<Rightarrow> Event list"
    and fl :: "'s \<Rightarrow> 's \<times> effect list \<times> ('e, unit) outcome"
    and we :: "'s \<Rightarrow> Event \<Rightarrow> 's \<times> effect list \<times> ('e, unit) outcome"
    and wb :: "'s \<Rightarrow> Event list \<Rightarrow> 's \<times> effect list \<times> ('e, unit) outcome"
  assumes flush_conserves: "fl s = (s', fx, r) \<Longrightarrow> mset (pending s') + fates fx = mset (pending s)"
    and event_conserves: "we s ev = (s', fx, r) \<Longrightarrow> mset (pending s') + fates fx = mset (pending s) + {#ev#}"
    and batch_conserves: "wb s evs = (s', fx, r) \<Longrightarrow> mset (pending s') + fates fx = mset (pending s) + mset evs"
begin

lemma wstep_conserves:
  "wstep fl we wb s op = (s', fx, r) \<Longrightarrow> mset (pending s') + fates fx = mset (pending s) + handed_by op"
  by (cases op) (simp_all add: flush_conserves event_conserves batch_conserves)

lemma wrun_conserves:
  "wrun fl we wb s ops = (s', fx) \<Longrightarrow> mset (pending s') + fates fx = mset (pending s) + handed ops"
proof (induction ops arbitrary: s fx)
  case Nil
  then show ?case by (simp add: handed_def)
next
  case (Cons op ops)
  obtain s1 fx1 r where 1: "wstep fl we wb s op = (s1, fx1, r)" by (metis prod_cases3)
  obtain s2 gx where 2: "wrun fl we wb s1 ops = (s2, gx)" by (cases "wrun fl we wb s1 ops")
  have s: "s' = s2" "fx = fx1 @ gx" using Cons.prems 1 2 by simp_all
  have "mset (pending s1) + fates fx1 = mset (pending s) + handed_by op" by (rule wstep_conserves [OF 1])
  moreover have "mset (pending s2) + fates gx = mset (pending s1) + handed ops"
    using Cons.IH [of s1 gx] 2 s by simp
  ultimately show ?case
    by (simp add: s handed_def) (metis (no_types, lifting) add.assoc add.commute)
qed

end

lemma edge_Flush_conserves:
  "edge_Flush marshal net e = (e', fx, r) \<Longrightarrow> mset (ec_batch e') + fates fx = mset (ec_batch e)"
  by (auto simp: edge_Flush_def edge_retry_def Let_def split: if_splits sum.splits post_result.splits)

interpretation edge: event_writer ec_batch "edge_Flush marshal net" "edge_WriteEvent marshal net"
  "edge_WriteBatch marshal net" for marshal net
proof
  show "mset (ec_batch e') + fates fx = mset (ec_batch e)" if "edge_Flush marshal net e = (e', fx, r)" for e e' fx r
    using that by (rule edge_Flush_conserves)
  show "mset (ec_batch e') + fates fx = mset (ec_batch e) + {#ev#}"
    if "edge_WriteEvent marshal net e ev = (e', fx, r)" for e ev e' fx r
    using that edge_Flush_conserves [of marshal net "e\<lparr>ec_batch := ec_batch e @ [ev]\<rparr>" e' fx r]
    by (auto simp: edge_WriteEvent_def Let_def split: if_splits)
  show "mset (ec_batch e') + fates fx = mset (ec_batch e) + mset evs"
    if "edge_WriteBatch marshal net e evs = (e', fx, r)" for e evs e' fx r
    using edge_Flush_conserves [OF that [unfolded edge_WriteBatch_def]] by simp
qed

lemma mset_filter_split: "mset (filter P xs) + mset (filter (\<lambda>x. \<not> P x) xs) = mset xs"
  by (induction xs) auto

lemma fates_logged [simp]: "fates (map (\<lambda>x. Logged (f x)) xs) = {#}"
  by (induction xs) simp_all

lemma ch_Flush_conserves:
  "ch_Flush db w = (w', fx, r) \<Longrightarrow> mset (ch_batch w') + fates fx = mset (ch_batch w)"
  using mset_filter_split [of "\<lambda>ev. db_Exec db ev = None" "ch_batch w"]
  by (auto simp: ch_Flush_def Let_def split: if_splits option.splits)

interpretation ch: event_writer ch_batch "ch_Flush db" "ch_WriteEvent db" "ch_WriteBatch db" for db
proof
  show "mset (ch_batch w') + fates fx = mset (ch_batch w)" if "ch_Flush db w = (w', fx, r)" for w w' fx r
    using that by (rule ch_Flush_conserves)
  show "mset (ch_batch w') + fates fx = mset (ch_batch w) + {#ev#}"
    if "ch_WriteEvent db w ev = (w', fx, r)" for w ev w' fx r
    using that ch_Flush_conserves [of db "w\<lparr>ch_batch := ch_batch w @ [ev]\<rparr>" w' fx]
    by (auto simp: ch_WriteEvent_def Let_def split: if_splits prod.splits)
  show "mset (ch_batch w') + fates fx = mset (ch_batch w) + mset evs"
    if "ch_WriteBatch db w evs = (w', fx, r)" for w evs w' fx r
    using that ch_Flush_conserves [of db "w\<lparr>ch_batch := ch_batch w @ evs\<rparr>" w' fx]
    by (auto simp: ch_WriteBatch_def split: prod.splits)
qed




section \<open>Retries\<close>



section \<open>Several goroutines\<close>

text \<open>The client under concurrent use.  A flush takes the batch under the mutex, works on it without the
  mutex (\<open>Posting\<close>), and after a failure sleeps and appends the events again (\<open>Sleeping\<close>).  Any number of
  flushes may be on their way at once.  \<open>written\<close> is the history of the events handed over.\<close>

datatype flight = Posting "Event list" | Sleeping "Event list"

record edge_config =
  cf_batch :: "Event list"
  cf_retry :: nat
  cf_flight :: "flight multiset"
  cf_sent :: "Event multiset"
  cf_dropped :: "Event multiset"
  cf_written :: "Event multiset"


inductive edge_step :: "edge_config \<Rightarrow> edge_config \<Rightarrow> bool" where
  enqueue: "edge_step c (c\<lparr>cf_batch := cf_batch c @ evs, cf_written := cf_written c + mset evs\<rparr>)"
| take_batch: "cf_batch c \<noteq> [] \<Longrightarrow>
    edge_step c (c\<lparr>cf_batch := [], cf_flight := add_mset (Posting (cf_batch c)) (cf_flight c)\<rparr>)"
| marshal_fail: "cf_flight c = add_mset (Posting evs) fl \<Longrightarrow>
    edge_step c (c\<lparr>cf_flight := fl, cf_dropped := cf_dropped c + mset evs\<rparr>)"
| post_ok: "cf_flight c = add_mset (Posting evs) fl \<Longrightarrow>
    edge_step c (c\<lparr>cf_flight := fl, cf_sent := cf_sent c + mset evs, cf_retry := 0\<rparr>)"
| post_fail: "cf_flight c = add_mset (Posting evs) fl \<Longrightarrow> cf_retry c + 1 \<le> 100 \<Longrightarrow>
    edge_step c (c\<lparr>cf_flight := add_mset (Sleeping evs) fl, cf_retry := cf_retry c + 1\<rparr>)"
| give_up: "cf_flight c = add_mset (Posting evs) fl \<Longrightarrow> cf_retry c + 1 > 100 \<Longrightarrow>
    edge_step c (c\<lparr>cf_flight := fl, cf_dropped := cf_dropped c + mset evs, cf_retry := 0\<rparr>)"
| wake: "cf_flight c = add_mset (Sleeping evs) fl \<Longrightarrow>
    edge_step c (c\<lparr>cf_flight := fl, cf_batch := cf_batch c @ evs\<rparr>)"

inductive_cases edge_stepE: "edge_step c c'"










text \<open>The sequential operations are runs of this relation: a flush is the steps \<open>take_batch\<close>, then one of
  the outcomes, then \<open>wake\<close>.\<close>

definition config_of :: "EdgeClient \<Rightarrow> edge_config \<Rightarrow> bool" where
  "config_of e c \<longleftrightarrow> cf_batch c = ec_batch e \<and> cf_retry c = ec_retryCount e"

lemma edge_steps2: "edge_step a b \<Longrightarrow> edge_step b c \<Longrightarrow> edge_step\<^sup>*\<^sup>* a c"
  by (rule converse_rtranclp_into_rtranclp) auto

lemma edge_steps3: "edge_step a b \<Longrightarrow> edge_step b c \<Longrightarrow> edge_step c d \<Longrightarrow> edge_step\<^sup>*\<^sup>* a d"
  by (rule converse_rtranclp_into_rtranclp) (auto intro: edge_steps2)

lemma edge_Flush_outcome:
  "marshal (ec_batch e) = Inr data \<Longrightarrow> ec_batch e \<noteq> [] \<Longrightarrow>
   fst (edge_Flush marshal net e) = fst (edge_retry (e\<lparr>ec_batch := []\<rparr>) (ec_batch e)) \<or>
   fst (edge_Flush marshal net e) = e\<lparr>ec_batch := [], ec_retryCount := 0\<rparr>"
  by (auto simp: edge_Flush_def Let_def split: post_result.splits prod.splits)

lemma edge_Flush_refines:
  assumes "config_of e c" and "edge_Flush marshal net e = (e', fx, r)"
  shows "\<exists>c'. edge_step\<^sup>*\<^sup>* c c' \<and> config_of e' c' \<and> cf_flight c' = cf_flight c"
proof (cases "ec_batch e = []")
  case True
  with assms show ?thesis by (auto simp: edge_Flush_def)
next
  case False
  let ?b = "ec_batch e"
  let ?t = "c\<lparr>cf_batch := [], cf_flight := add_mset (Posting ?b) (cf_flight c)\<rparr>"
  have t: "edge_step c ?t" using edge_step.take_batch [of c] assms(1) False by (simp add: config_of_def)
  have sent: "edge_step ?t (?t\<lparr>cf_flight := cf_flight c, cf_sent := cf_sent ?t + mset ?b, cf_retry := 0\<rparr>)"
    by (rule edge_step.post_ok) simp
  have lost: "edge_step ?t (?t\<lparr>cf_flight := cf_flight c, cf_dropped := cf_dropped ?t + mset ?b\<rparr>)"
    by (rule edge_step.marshal_fail) simp
  have up: "edge_step ?t (?t\<lparr>cf_flight := cf_flight c, cf_dropped := cf_dropped ?t + mset ?b, cf_retry := 0\<rparr>)"
    if "cf_retry c + 1 > 100"
    using that by (intro edge_step.give_up) simp_all
  let ?s = "?t\<lparr>cf_flight := add_mset (Sleeping ?b) (cf_flight c), cf_retry := cf_retry ?t + 1\<rparr>"
  have fail: "edge_step ?t ?s" if "cf_retry c + 1 \<le> 100" using that by (intro edge_step.post_fail) simp_all
  have wk: "edge_step ?s (?s\<lparr>cf_flight := cf_flight c, cf_batch := cf_batch ?s @ ?b\<rparr>)"
    by (rule edge_step.wake) simp
  have retry: "\<exists>c'. edge_step\<^sup>*\<^sup>* c c' \<and> config_of (fst (edge_retry (e\<lparr>ec_batch := []\<rparr>) ?b)) c' \<and> cf_flight c' = cf_flight c"
  proof (cases "cf_retry c + 1 > 100")
    case True
    with t up [OF True] assms(1) show ?thesis
      by (intro exI [of _ "?t\<lparr>cf_flight := cf_flight c, cf_dropped := cf_dropped ?t + mset ?b, cf_retry := 0\<rparr>"])
         (auto simp: edge_retry_def config_of_def)
  next
    case False
    then have "cf_retry c + 1 \<le> 100" by simp
    from t fail [OF this] wk
    have "edge_step\<^sup>*\<^sup>* c (?s\<lparr>cf_flight := cf_flight c, cf_batch := cf_batch ?s @ ?b\<rparr>)" by (rule edge_steps3)
    with False assms(1) show ?thesis
      by (intro exI [of _ "?s\<lparr>cf_flight := cf_flight c, cf_batch := cf_batch ?s @ ?b\<rparr>"])
         (auto simp: edge_retry_def config_of_def)
  qed
  have s2: "edge_step\<^sup>*\<^sup>* c c'" if "edge_step ?t c'" for c'
    using t that by (rule edge_steps2)
  show ?thesis
  proof (cases "marshal ?b")
    case (Inl err)
    with assms False s2 [OF lost] show ?thesis
      by (intro exI [of _ "?t\<lparr>cf_flight := cf_flight c, cf_dropped := cf_dropped ?t + mset ?b\<rparr>"])
         (auto simp: edge_Flush_def config_of_def)
  next
    case (Inr data)
    consider "fst (edge_Flush marshal net e) = fst (edge_retry (e\<lparr>ec_batch := []\<rparr>) ?b)"
      | "fst (edge_Flush marshal net e) = e\<lparr>ec_batch := [], ec_retryCount := 0\<rparr>"
      using edge_Flush_outcome [of marshal e data net] Inr False by blast
    then show ?thesis
    proof cases
      case 1
      with retry assms(2) show ?thesis by simp
    next
      case 2
      with assms s2 [OF sent] show ?thesis
        by (intro exI [of _ "?t\<lparr>cf_flight := cf_flight c, cf_sent := cf_sent ?t + mset ?b, cf_retry := 0\<rparr>"])
           (auto simp: config_of_def)
    qed
  qed
qed

section \<open>Failures of one writer\<close>

definition pending_of :: "any_writer \<Rightarrow> Event multiset" where
  "pending_of w = (case w of WEdge e \<Rightarrow> mset (ec_batch e) | WClickHouse c \<Rightarrow> mset (ch_batch c))"

lemma edge_ops_no_panic:
  "snd (snd (edge_Flush marshal net e)) \<noteq> Panic" "snd (snd (edge_WriteEvent marshal net e ev)) \<noteq> Panic"
proof -
  show f: "snd (snd (edge_Flush marshal net e)) \<noteq> Panic" for e
    by (auto simp: edge_Flush_def Let_def split: sum.splits post_result.splits prod.splits)
  then show "snd (snd (edge_WriteEvent marshal net e ev)) \<noteq> Panic" by (simp add: edge_WriteEvent_def Let_def)
qed

lemma w_WriteEvent_no_panic: "snd (snd (w_WriteEvent env ev w)) \<noteq> Panic"
proof (cases w)
  case (WEdge e)
  then show ?thesis
    using edge_ops_no_panic(2) [of "we_marshal env" "we_net env" e ev]
    by (auto simp: w_WriteEvent_def as_edge_def split: prod.splits)
next
  case (WClickHouse c)
  then show ?thesis by (simp add: w_WriteEvent_def as_ch_def ch_WriteEvent_def Let_def split: prod.splits)
qed

lemma w_WriteEvent_conserves:
  "w_WriteEvent env ev w = (w', fx, r) \<Longrightarrow> pending_of w' + fates fx = pending_of w + {#ev#}"
proof (cases w)
  case (WEdge e)
  moreover assume "w_WriteEvent env ev w = (w', fx, r)"
  ultimately obtain e' r' where "edge_WriteEvent (we_marshal env) (we_net env) e ev = (e', fx, r')" "w' = WEdge e'"
    by (auto simp: w_WriteEvent_def as_edge_def split: prod.splits)
  with edge.event_conserves WEdge show ?thesis by (fastforce simp: pending_of_def)
next
  case (WClickHouse c)
  moreover assume "w_WriteEvent env ev w = (w', fx, r)"
  ultimately obtain c' r' where "ch_WriteEvent (we_db env) c ev = (c', fx, r')" "w' = WClickHouse c'"
    by (auto simp: w_WriteEvent_def as_ch_def split: prod.splits)
  with ch.event_conserves WClickHouse show ?thesis by (fastforce simp: pending_of_def)
qed

lemma multi_WriteEvent_all:
  "\<exists>fx. multi_WriteEvent env ws ev = (map (\<lambda>w. fst (w_WriteEvent env ev w)) ws, fx, Ok ()) \<and>
     (\<Sum>w \<leftarrow> map (\<lambda>w. fst (w_WriteEvent env ev w)) ws. pending_of w) + fates fx =
       (\<Sum>w \<leftarrow> ws. pending_of w) + replicate_mset (length ws) ev"
  unfolding multi_WriteEvent_def
proof (induction ws)
  case Nil
  then show ?case by simp
next
  case (Cons w ws)
  obtain w' fx r where w: "w_WriteEvent env ev w = (w', fx, r)" by (metis prod_cases3)
  obtain gx where gx: "multi_each (w_WriteEvent env ev) ws = (map (\<lambda>w. fst (w_WriteEvent env ev w)) ws, gx, Ok ())"
    "(\<Sum>w \<leftarrow> map (\<lambda>w. fst (w_WriteEvent env ev w)) ws. pending_of w) + fates gx =
       (\<Sum>w \<leftarrow> ws. pending_of w) + replicate_mset (length ws) ev"
    using Cons by blast
  define hx where "hx = (case r of Err e \<Rightarrow> fx @ [LoggedError e] @ gx | _ \<Rightarrow> fx @ gx)"
  have "r \<noteq> Panic" using w_WriteEvent_no_panic [of env ev w] w by simp
  then have "multi_each (w_WriteEvent env ev) (w # ws) =
      (map (\<lambda>w. fst (w_WriteEvent env ev w)) (w # ws), hx, Ok ())"
    using w gx(1) by (cases r) (simp_all add: hx_def)
  moreover have "fates hx = fates fx + fates gx" by (cases r) (simp_all add: hx_def)
  then have "(\<Sum>w \<leftarrow> map (\<lambda>w. fst (w_WriteEvent env ev w)) (w # ws). pending_of w) + fates hx =
      (pending_of w' + fates fx) + ((\<Sum>w \<leftarrow> map (\<lambda>w. fst (w_WriteEvent env ev w)) ws. pending_of w) + fates gx)"
    using w by simp
  then have "(\<Sum>w \<leftarrow> map (\<lambda>w. fst (w_WriteEvent env ev w)) (w # ws). pending_of w) + fates hx =
      (\<Sum>w \<leftarrow> w # ws. pending_of w) + replicate_mset (length (w # ws)) ev"
    unfolding w_WriteEvent_conserves [OF w] gx(2) by simp
  ultimately show ?case by blast
qed

text \<open>The multi-writer hands an event to every writer, whatever errors the others return: each writer
  is left exactly as its own \<open>WriteEvent\<close> leaves it, the result is always nil, and over all writers one
  copy of the event per writer is pending or accounted for.\<close>

theorem multi_writer_reaches_all:
  "\<exists>fx. multi_WriteEvent env ws ev = (map (\<lambda>w. fst (w_WriteEvent env ev w)) ws, fx, Ok ()) \<and>
     (\<Sum>w \<leftarrow> map (\<lambda>w. fst (w_WriteEvent env ev w)) ws. pending_of w) + fates fx =
       (\<Sum>w \<leftarrow> ws. pending_of w) + replicate_mset (length ws) ev"
  by (rule multi_WriteEvent_all)

text \<open>A ClickHouse writer whose database refuses the transaction reports success for every event and
  throws the batch away.\<close>

lemma ch_silent_loss:
  assumes "db_Begin db = Some err" and "length (ch_batch w) + 1 \<ge> ch_batchSize w"
  shows "ch_WriteEvent db w ev = (w\<lparr>ch_batch := []\<rparr>, [NotInserted (ch_batch w @ [ev])], Ok ())"
  using assms by (simp add: ch_WriteEvent_def ch_Flush_def)

text \<open>Stopping twice, or stopping an edge client that was never started, is a panic.\<close>

lemma edge_stop_panics:
  "snd (snd (edge_Stop marshal net (NewEdgeClient addr p))) = Panic"
  "edge_Stop marshal net e = (e', fx, Ok ()) \<Longrightarrow> snd (snd (edge_Stop marshal net e')) = Panic"
proof -
  show "snd (snd (edge_Stop marshal net (NewEdgeClient addr p))) = Panic"
    by (simp add: edge_Stop_def NewEdgeClient_def)
  have st: "ec_stopped (fst (edge_Flush marshal net d)) = ec_stopped d" for d
    by (auto simp: edge_Flush_def edge_retry_def Let_def split: sum.splits post_result.splits)
  show "snd (snd (edge_Stop marshal net e')) = Panic" if "edge_Stop marshal net e = (e', fx, Ok ())"
  proof -
    have "e' = fst (edge_Flush marshal net (e\<lparr>ec_stopped := True\<rparr>))"
      using that by (auto simp: edge_Stop_def Let_def split: if_splits prod.splits)
    then have "ec_stopped e'" using st [of "e\<lparr>ec_stopped := True\<rparr>"] by simp
    then show ?thesis by (simp add: edge_Stop_def)
  qed
qed

end
