(* ===== verification/Kernel.thy ===== *)
theory Kernel
  imports Go_Strings
begin

text \<open>
  The detector of kernel capabilities, \<open>src/internal/kernel/detector.go\<close>.  What the machine answers is the
  record \<open>kernel_env\<close>: the output of \<open>uname -r\<close>, which paths \<open>os.Stat\<close> finds, the contents of files and
  whether \<open>tc qdisc show\<close> succeeds.
\<close>

record Capabilities =
  kc_Version :: string
  kc_HasBTF :: bool
  kc_HasCO_RE :: bool
  kc_HasBPFLSM :: bool
  kc_HasBPFTracing :: bool
  kc_HasBPFKprobe :: bool
  kc_HasBPFTracepoint :: bool
  kc_HasBPFXDP :: bool
  kc_HasBPFTC :: bool
  kc_HasBPFPerfEvent :: bool
  kc_AvailableHooks :: "string list"

record kernel_env =
  ke_uname :: "string + string"
  ke_stat :: "string \<Rightarrow> bool"
  ke_read :: "string \<Rightarrow> string option"
  ke_tc :: bool

definition getKernelVersion :: "kernel_env \<Rightarrow> (string, string) outcome" where
  "getKernelVersion env = (case ke_uname env of Inl err \<Rightarrow> Err err | Inr out \<Rightarrow> Ok (TrimSpace out))"

definition fileExists :: "kernel_env \<Rightarrow> string \<Rightarrow> bool" where
  "fileExists env path = ke_stat env path"

definition checkBPFLSM :: "kernel_env \<Rightarrow> bool" where
  "checkBPFLSM env =
     (case ke_read env ''/sys/kernel/security/lsm'' of None \<Rightarrow> False | Some data \<Rightarrow> Contains data ''bpf'')"

definition checkKprobe :: "kernel_env \<Rightarrow> bool" where
  "checkKprobe env =
     (case ke_read env ''/proc/kallsyms'' of
        None \<Rightarrow> False
      | Some data \<Rightarrow> list_ex (\<lambda>line. Contains line ''kprobe_dispatcher'') (scan_lines data))"

definition checkTracepoint :: "kernel_env \<Rightarrow> bool" where
  "checkTracepoint env =
     (case ke_read env ''/proc/kallsyms'' of
        None \<Rightarrow> False
      | Some data \<Rightarrow> list_ex (\<lambda>line. Contains line ''bpf_trace_run'') (scan_lines data))"

definition checkXDP :: "kernel_env \<Rightarrow> bool" where
  "checkXDP env =
     (case ke_read env ''/proc/net/dev'' of
        None \<Rightarrow> False
      | Some data \<Rightarrow> Contains data ''eth'' \<or> Contains data ''ens'')"

definition checkTC :: "kernel_env \<Rightarrow> bool" where
  "checkTC env = ke_tc env"

definition checkPerfEvent :: "kernel_env \<Rightarrow> bool" where
  "checkPerfEvent env = ke_stat env ''/sys/kernel/debug/tracing''"

definition collectHooks :: "Capabilities \<Rightarrow> string list" where
  "collectHooks c =
     (let hooks = [];
          hooks = (if kc_HasBPFKprobe c then hooks @ [''kprobe''] else hooks);
          hooks = (if kc_HasBPFTracepoint c then hooks @ [''tracepoint''] else hooks);
          hooks = (if kc_HasBPFXDP c then hooks @ [''xdp''] else hooks);
          hooks = (if kc_HasBPFTC c then hooks @ [''tc''] else hooks);
          hooks = (if kc_HasBPFPerfEvent c then hooks @ [''perf_event''] else hooks)
      in hooks)"

definition no_capabilities :: Capabilities where
  "no_capabilities =
     \<lparr>kc_Version = '''', kc_HasBTF = False, kc_HasCO_RE = False, kc_HasBPFLSM = False, kc_HasBPFTracing = False,
      kc_HasBPFKprobe = False, kc_HasBPFTracepoint = False, kc_HasBPFXDP = False, kc_HasBPFTC = False,
      kc_HasBPFPerfEvent = False, kc_AvailableHooks = []\<rparr>"

definition DetectCapabilities :: "kernel_env \<Rightarrow> (string, Capabilities) outcome" where
  "DetectCapabilities env =
     obind (getKernelVersion env) (\<lambda>ver.
     let c = no_capabilities\<lparr>kc_Version := ver\<rparr>;
         c = c\<lparr>kc_HasBTF := fileExists env ''/sys/kernel/btf/vmlinux''\<rparr>;
         c = c\<lparr>kc_HasCO_RE := kc_HasBTF c\<rparr>;
         c = c\<lparr>kc_HasBPFLSM := checkBPFLSM env\<rparr>;
         c = c\<lparr>kc_HasBPFKprobe := checkKprobe env\<rparr>;
         c = c\<lparr>kc_HasBPFTracepoint := checkTracepoint env\<rparr>;
         c = c\<lparr>kc_HasBPFXDP := checkXDP env\<rparr>;
         c = c\<lparr>kc_HasBPFTC := checkTC env\<rparr>;
         c = c\<lparr>kc_HasBPFPerfEvent := checkPerfEvent env\<rparr>;
         c = c\<lparr>kc_AvailableHooks := collectHooks c\<rparr>
     in Ok c)"

lemma collectHooks_eq:
  "collectHooks c =
     (if kc_HasBPFKprobe c then [''kprobe''] else []) @ (if kc_HasBPFTracepoint c then [''tracepoint''] else []) @
     (if kc_HasBPFXDP c then [''xdp''] else []) @ (if kc_HasBPFTC c then [''tc''] else []) @
     (if kc_HasBPFPerfEvent c then [''perf_event''] else [])"
  by (simp add: collectHooks_def Let_def)

lemma collectHooks_set:
  "''kprobe'' \<in> set (collectHooks c) \<longleftrightarrow> kc_HasBPFKprobe c"
  "''tracepoint'' \<in> set (collectHooks c) \<longleftrightarrow> kc_HasBPFTracepoint c"
  by (simp_all add: collectHooks_eq)

lemma DetectCapabilities_fields:
  assumes "DetectCapabilities env = Ok c"
  shows "kc_HasBPFKprobe c = checkKprobe env" "kc_HasBPFTracepoint c = checkTracepoint env"
    "kc_AvailableHooks c = collectHooks c" "\<not> kc_HasBPFTracing c" "kc_HasCO_RE c = kc_HasBTF c"
    "kc_HasBPFXDP c = checkXDP env" "kc_HasBPFTC c = checkTC env" "kc_HasBPFPerfEvent c = checkPerfEvent env"
  using assms by (auto simp: DetectCapabilities_def obind_iffs Let_def no_capabilities_def collectHooks_eq)

end
