(* ===== verification/Lifecycle.thy ===== *)
theory Lifecycle
  imports Go_Prelude "HOL-Library.Sublist"
begin

text \<open>
  The life cycle the collectors, the Kubernetes client and the enricher share: a flag \<open>running\<close>, a channel
  \<open>stopCh\<close> made by the constructor, \<open>Start\<close> that sets the flag, and \<open>Stop\<close> that closes the channel and
  clears the flag when the flag is set, and does nothing otherwise.  The locale \<open>lifecycle\<close> states this
  contract; each component that follows the pattern interprets it.

  The channel is never made again, so a second life cannot be ended: the lemma \<open>panics_iff\<close> says exactly
  which sequences of calls end in the panic of closing a closed channel.
\<close>

datatype 'env life_op = Start 'env | Stop

text \<open>A sequence of calls, and which of them are starts.\<close>

primrec life_run ::
  "('env \<Rightarrow> 's \<Rightarrow> 's) \<Rightarrow> ('s \<Rightarrow> ('e, 's) outcome) \<Rightarrow> 'env life_op list \<Rightarrow> 's \<Rightarrow> ('e, 's) outcome" where
  "life_run start stop [] s = Ok s"
| "life_run start stop (op # ops) s =
     (case op of Start e \<Rightarrow> life_run start stop ops (start e s)
      | Stop \<Rightarrow> obind (stop s) (life_run start stop ops))"

definition life_word :: "'env life_op list \<Rightarrow> bool list" where
  "life_word ops = map (\<lambda>op. op \<noteq> Stop) ops"

lemma life_word_simps [simp]:
  "life_word [] = []" "life_word (Start e # ops) = True # life_word ops"
  "life_word (Stop # ops) = False # life_word ops"
  by (simp_all add: life_word_def)

definition starts_good :: "('env \<Rightarrow> bool) \<Rightarrow> 'env life_op list \<Rightarrow> bool" where
  "starts_good good ops \<longleftrightarrow> list_all (\<lambda>op. case op of Start e \<Rightarrow> good e | Stop \<Rightarrow> True) ops"

lemma starts_good_simps [simp]:
  "starts_good good []" "starts_good good (Start e # ops) \<longleftrightarrow> good e \<and> starts_good good ops"
  "starts_good good (Stop # ops) \<longleftrightarrow> starts_good good ops"
  by (simp_all add: starts_good_def)

locale lifecycle =
  fixes start :: "'env \<Rightarrow> 's \<Rightarrow> 's"
    and stop :: "'s \<Rightarrow> ('e, 's) outcome"
    and good :: "'env \<Rightarrow> bool"
    and running :: "'s \<Rightarrow> bool"
    and closed :: "'s \<Rightarrow> bool"
    and inv :: "'s \<Rightarrow> bool"
  assumes start_running: "good e \<Longrightarrow> running (start e s)"
    and start_closed: "closed (start e s) \<longleftrightarrow> closed s"
    and start_inv: "inv s \<Longrightarrow> inv (start e s)"
    and stop_idle: "\<not> running s \<Longrightarrow> stop s = Ok s"
    and stop_again: "running s \<Longrightarrow> closed s \<Longrightarrow> stop s = Panic"
    and stop_first: "running s \<Longrightarrow> \<not> closed s \<Longrightarrow> inv s \<Longrightarrow> \<exists>s'. stop s = Ok s' \<and> \<not> running s' \<and> closed s' \<and> inv s'"
begin

text \<open>Which calls are still missing to a panic, by the state of the flag and of the channel.\<close>

definition missing :: "'s \<Rightarrow> bool list" where
  "missing s =
     (if closed s then if running s then [False] else [True, False]
      else if running s then [False, True, False] else [True, False, True, False])"

lemma missing_start: "good e \<Longrightarrow> missing s = (if running s then missing (start e s) else True # missing (start e s))"
  by (simp add: missing_def start_running start_closed)

lemma missing_shape: "running s \<longleftrightarrow> \<not> hd (missing s)" "missing s \<noteq> []"
  by (simp_all add: missing_def)

lemma panics_iff_missing:
  "starts_good good ops \<Longrightarrow> inv s \<Longrightarrow> life_run start stop ops s = Panic \<longleftrightarrow> subseq (missing s) (life_word ops)"
proof (induction ops arbitrary: s)
  case Nil
  then show ?case by (simp add: missing_def)
next
  case (Cons op ops)
  show ?case
  proof (cases op)
    case (Start e)
    with Cons have ih: "life_run start stop ops (start e s) = Panic \<longleftrightarrow> subseq (missing (start e s)) (life_word ops)"
      and g: "good e" by (simp_all add: start_inv)
    have "\<not> hd (missing (start e s))" using missing_shape(1) [of "start e s"] g by (simp add: start_running)
    then show ?thesis using Start ih missing_shape(2) [of "start e s"] missing_start [OF g, of s]
      by (cases "missing (start e s)") auto
  next
    case Stop
    with Cons.prems have g: "starts_good good ops" by simp
    consider (idle) "\<not> running s" | (again) "running s" "closed s" | (first) "running s" "\<not> closed s" by blast
    then show ?thesis
    proof cases
      case idle
      then show ?thesis using Stop Cons.IH [OF g, of s] Cons.prems(2) by (auto simp: stop_idle missing_def)
    next
      case again
      then show ?thesis using Stop by (simp add: stop_again missing_def)
    next
      case first
      then obtain s' where "stop s = Ok s'" "\<not> running s'" "closed s'" "inv s'"
        using stop_first [OF _ _ Cons.prems(2)] by blast
      with first show ?thesis using Stop Cons.IH [OF g, of s'] by (simp add: missing_def)
    qed
  qed
qed

lemma panics_iff:
  assumes "starts_good good ops" and "\<not> running s" "\<not> closed s" "inv s"
  shows "life_run start stop ops s = Panic \<longleftrightarrow> subseq [True, False, True, False] (life_word ops)"
  using panics_iff_missing [OF assms(1,4)] assms(2,3) by (simp add: missing_def)

end

end
