(* ===== verification/Collectors.thy ===== *)
theory Collectors
  imports Kernel Lifecycle Output
begin

text \<open>
  The three collectors that read events from an eBPF ring buffer: \<open>tls_trace.go\<close>, \<open>http2_trace.go\<close> and
  \<open>log_collect.go\<close> of \<open>src/internal/collector\<close>.

  The eBPF library is third-party code: whether the memory limit could be removed, the program loaded
  and the reader created is the record \<open>bpf_env\<close> (\<open>None\<close> for no error), and what a call of \<open>reader.Read\<close>
  returns is a value of \<open>ring_read\<close>.  The sources convert the raw sample to a pointer to the event's
  structure; the model starts from that structure.  \<open>extractTimestamp\<close> returns nil in the source, so the
  time of an event stays at its zero value.

  The event loop is a function of the finite history of its turns: at each turn, whether \<open>stopCh\<close> is closed
  or the context done, and what the reader returned.
\<close>

section \<open>The ring buffer\<close>

record bpf_env =
  bp_memlock :: "string option"
  bp_load :: "string option"
  bp_reader :: "string option"

datatype 'ev ring_read = RingClosed | RingError string | RingRecord 'ev

datatype collector_error =
    RequiresHook string | Memlock string | LoadObjects string | CreateReader string | ReadProc string

text \<open>The last steps of \<open>Init\<close>, the same in the three files.  The collection is kept when only the reader
  fails; the result is what \<open>coll\<close> and \<open>reader\<close> are set to, if they are.\<close>

definition load_bpf :: "bpf_env \<Rightarrow> bool \<times> bool \<times> (collector_error, unit) outcome" where
  "load_bpf env =
     (case bp_memlock env of
        Some err \<Rightarrow> (False, False, Err (Memlock err))
      | None \<Rightarrow>
          (case bp_load env of
             Some err \<Rightarrow> (False, False, Err (LoadObjects err))
           | None \<Rightarrow>
               (case bp_reader env of
                  Some err \<Rightarrow> (True, False, Err (CreateReader err))
                | None \<Rightarrow> (True, True, Ok ()))))"

text \<open>One turn of an event loop: \<open>lt_stop\<close> is \<open>stopCh\<close> closed, \<open>lt_done\<close> the context done.  The loop goes on
  after an error of the reader and after an error of the writer.  The second result says whether the
  loop has returned.\<close>

record 'ev loop_turn =
  lt_stop :: bool
  lt_done :: bool
  lt_read :: "'ev ring_read"

fun event_loop ::
  "writer_env \<Rightarrow> ('ev \<Rightarrow> (edge_error + string, Event) outcome) \<Rightarrow> 'ev loop_turn list \<Rightarrow> any_writer list \<Rightarrow>
   any_writer list \<times> effect list \<times> (edge_error + string, bool) outcome" where
  "event_loop env conv [] ws = (ws, [], Ok False)"
| "event_loop env conv (t # ts) ws =
     (if lt_stop t \<or> lt_done t then (ws, [], Ok True)
      else case lt_read t of
        RingClosed \<Rightarrow> (ws, [], Ok True)
      | RingError err \<Rightarrow>
          (case event_loop env conv ts ws of
             (ws, fx, r) \<Rightarrow> (ws, Logged (''Error reading from ring buffer: '' @ err) # fx, r))
      | RingRecord ev \<Rightarrow>
          (case conv ev of
             Panic \<Rightarrow> (ws, [], Panic)
           | Err err \<Rightarrow> (ws, [], Err err)
           | Ok outEvent \<Rightarrow>
               (case multi_WriteEvent env ws outEvent of
                  (ws, fx, Panic) \<Rightarrow> (ws, fx, Panic)
                | (ws, fx, res) \<Rightarrow>
                    (case event_loop env conv ts ws of
                       (ws, gx, r) \<Rightarrow>
                         (ws, fx @ (case res of Err err \<Rightarrow> [LoggedError err] | _ \<Rightarrow> []) @ gx, r)))))"

definition zero_time :: int where
  "zero_time = 0"

definition extractTimestamp :: "64 word \<Rightarrow> int" where
  "extractTimestamp ns = zero_time"

section \<open>TLS\<close>

datatype TLSLibType = TLSLibNone | TLSLibOpenSSL | TLSLibBoringSSL | TLSLibGnuTLS | TLSLibMbedTLS

record TLSEvent =
  le_TimestampNS :: "64 word"
  le_Type :: "32 word"
  le_PID :: "32 word"
  le_PPID :: "32 word"
  le_SrcIP :: "32 word"
  le_DstIP :: "32 word"
  le_SrcPort :: "16 word"
  le_DstPort :: "16 word"
  le_SSLVersion :: byte
  le_EventType :: byte
  le_DataLen :: "32 word"
  le_LatencyNS :: "64 word"
  le_Comm :: bytes
  le_SNI :: bytes
  le_Data :: bytes

record TLSConfig =
  lc_Enabled :: bool
  lc_Libraries :: "string list"
  lc_CaptureHandshake :: bool

text \<open>\<open>tt_links\<close> is the number of links, \<open>tt_reader\<close> is nil or a reader that is open or closed, \<open>tt_stopped\<close>
  says that \<open>stopCh\<close> is closed.\<close>

record TLSTraceCollector =
  tt_config :: TLSConfig
  tt_probeID :: string
  tt_running :: bool
  tt_stopped :: bool
  tt_coll :: bool
  tt_links :: nat
  tt_reader :: "bool option"
  tt_tlsLibs :: "string \<rightharpoonup> TLSLibType"

definition NewTLSTraceCollector :: "TLSConfig \<Rightarrow> string \<Rightarrow> TLSTraceCollector" where
  "NewTLSTraceCollector cfg probeID =
     \<lparr>tt_config = cfg, tt_probeID = probeID, tt_running = False, tt_stopped = False, tt_coll = False,
      tt_links = 0, tt_reader = None, tt_tlsLibs = Map.empty\<rparr>"

text \<open>\<open>detectTLSLibraries\<close>: for each library the first path that exists; it never fails.\<close>

definition opensslPaths :: "string list" where
  "opensslPaths = [''/usr/lib/x86_64-linux-gnu/libssl.so'', ''/usr/lib/libssl.so'', ''/usr/lib64/libssl.so'',
     ''/usr/local/lib/libssl.so'']"

definition boringsslPaths :: "string list" where
  "boringsslPaths = [''/usr/lib/x86_64-linux-gnu/libboringssl.so'', ''/usr/lib/libboringssl.so'']"

definition gnutlsPaths :: "string list" where
  "gnutlsPaths = [''/usr/lib/x86_64-linux-gnu/libgnutls.so'', ''/usr/lib/libgnutls.so'', ''/usr/lib64/libgnutls.so'']"

definition detectTLSLibraries :: "(string \<Rightarrow> bool) \<Rightarrow> TLSTraceCollector \<Rightarrow> TLSTraceCollector" where
  "detectTLSLibraries stat t =
     (let libs = tt_tlsLibs t;
          libs = (if list_ex stat opensslPaths then libs(''openssl'' \<mapsto> TLSLibOpenSSL) else libs);
          libs = (if list_ex stat boringsslPaths then libs(''boringssl'' \<mapsto> TLSLibBoringSSL) else libs);
          libs = (if list_ex stat gnutlsPaths then libs(''gnutls'' \<mapsto> TLSLibGnuTLS) else libs)
      in t\<lparr>tt_tlsLibs := libs\<rparr>)"

definition tls_Init ::
  "(string \<Rightarrow> bool) \<Rightarrow> bpf_env \<Rightarrow> Capabilities \<Rightarrow> TLSTraceCollector \<Rightarrow> TLSTraceCollector \<times> (collector_error, unit) outcome" where
  "tls_Init stat env c t =
     (if \<not> kc_HasBPFKprobe c \<and> \<not> kc_HasBPFTracepoint c
      then (t, Err (RequiresHook ''tls_trace requires kprobe or tracepoint support''))
      else let t = detectTLSLibraries stat t in
        case load_bpf env of
          (coll, reader, r) \<Rightarrow>
            (t\<lparr>tt_coll := tt_coll t \<or> coll, tt_reader := (if reader then Some True else tt_reader t)\<rparr>, r))"

text \<open>\<open>attachProbes\<close>: \<open>fmt.Sscanf(pid, "%d")\<close> has a verb and no operand for it, so it returns an error whatever
  the name is.  The result is the list of processes for which a library is reported.\<close>

definition Sscanf_no_operand :: "string \<Rightarrow> string option" where
  "Sscanf_no_operand s = Some (''too few operands for format '' @ [CHR 0x27] @ ''%d'' @ [CHR 0x27])"

record proc_env =
  pr_readdir :: "string + (string \<times> bool) list"
  pr_maps :: "string \<Rightarrow> string option"

fun attach_entries :: "proc_env \<Rightarrow> (string \<times> bool) list \<Rightarrow> string list" where
  "attach_entries env [] = []"
| "attach_entries env ((pid, isdir) # es) =
     (if \<not> isdir then attach_entries env es
      else if Sscanf_no_operand pid \<noteq> None then attach_entries env es
      else case pr_maps env pid of
        None \<Rightarrow> attach_entries env es
      | Some m \<Rightarrow>
          if Contains m ''libssl.so'' \<or> Contains m ''libboringssl.so'' \<or> Contains m ''libgnutls.so''
          then pid # attach_entries env es else attach_entries env es)"

definition tls_attachProbes :: "proc_env \<Rightarrow> (collector_error, string list) outcome" where
  "tls_attachProbes env =
     (case pr_readdir env of Inl err \<Rightarrow> Err (ReadProc err) | Inr entries \<Rightarrow> Ok (attach_entries env entries))"

definition tls_Start :: "proc_env \<Rightarrow> TLSTraceCollector \<Rightarrow> TLSTraceCollector \<times> (collector_error, unit) outcome" where
  "tls_Start env t =
     (if tt_running t then (t, Ok ())
      else case tls_attachProbes env of
        Ok _ \<Rightarrow> (t\<lparr>tt_running := True\<rparr>, Ok ())
      | Err e \<Rightarrow> (t, Err e)
      | Panic \<Rightarrow> (t, Panic))"

definition tls_event :: "string \<Rightarrow> TLSEvent \<Rightarrow> ('e, Event) outcome" where
  "tls_event probeID ev =
     Ok ((mk_event (extractTimestamp (le_TimestampNS ev)) probeID ''security'' ''tls'' '''')\<lparr>ev_Protocol := ''tls''\<rparr>)"

definition tls_processEvents where
  "tls_processEvents env t turns ws = event_loop env (tls_event (tt_probeID t)) turns ws"

definition tls_Stop :: "TLSTraceCollector \<Rightarrow> ('e, TLSTraceCollector) outcome" where
  "tls_Stop t =
     (if \<not> tt_running t then Ok t
      else if tt_stopped t then Panic
      else Ok (t\<lparr>tt_stopped := True, tt_reader := map_option (\<lambda>_. False) (tt_reader t), tt_running := False\<rparr>))"

section \<open>HTTP/2\<close>

record HTTP2FrameEvent =
  h2_TimestampNS :: "64 word"
  h2_Type :: "32 word"
  h2_PID :: "32 word"
  h2_PPID :: "32 word"
  h2_SrcIP :: "32 word"
  h2_DstIP :: "32 word"
  h2_SrcPort :: "16 word"
  h2_DstPort :: "16 word"
  h2_FrameType :: byte
  h2_Flags :: byte
  h2_StreamID :: "32 word"
  h2_PayloadLen :: "32 word"
  h2_Comm :: bytes
  h2_Data :: bytes

record HTTP2Config =
  hc_Enabled :: bool
  hc_DecodeHPACK :: bool

record HTTP2TraceCollector =
  ht_config :: HTTP2Config
  ht_probeID :: string
  ht_running :: bool
  ht_stopped :: bool
  ht_coll :: bool
  ht_links :: nat
  ht_reader :: "bool option"

definition NewHTTP2TraceCollector :: "HTTP2Config \<Rightarrow> string \<Rightarrow> HTTP2TraceCollector" where
  "NewHTTP2TraceCollector cfg probeID =
     \<lparr>ht_config = cfg, ht_probeID = probeID, ht_running = False, ht_stopped = False, ht_coll = False,
      ht_links = 0, ht_reader = None\<rparr>"

definition http2_Init :: "bpf_env \<Rightarrow> Capabilities \<Rightarrow> HTTP2TraceCollector \<Rightarrow> HTTP2TraceCollector \<times> (collector_error, unit) outcome" where
  "http2_Init env c h =
     (if \<not> kc_HasBPFKprobe c then (h, Err (RequiresHook ''http2_trace requires kprobe support''))
      else case load_bpf env of
        (coll, reader, r) \<Rightarrow>
          (h\<lparr>ht_coll := ht_coll h \<or> coll, ht_reader := (if reader then Some True else ht_reader h)\<rparr>, r))"

definition http2_attachProbes :: "(collector_error, unit) outcome" where
  "http2_attachProbes = Ok ()"

definition http2_Start :: "HTTP2TraceCollector \<Rightarrow> HTTP2TraceCollector \<times> (collector_error, unit) outcome" where
  "http2_Start h =
     (if ht_running h then (h, Ok ())
      else case http2_attachProbes of
        Ok _ \<Rightarrow> (h\<lparr>ht_running := True\<rparr>, Ok ())
      | Err e \<Rightarrow> (h, Err e)
      | Panic \<Rightarrow> (h, Panic))"

definition http2_event :: "string \<Rightarrow> HTTP2FrameEvent \<Rightarrow> ('e, Event) outcome" where
  "http2_event probeID ev =
     Ok ((mk_event (extractTimestamp (h2_TimestampNS ev)) probeID ''protocol'' ''http2'' '''')\<lparr>ev_Protocol := ''http2''\<rparr>)"

definition http2_processEvents where
  "http2_processEvents env h turns ws = event_loop env (http2_event (ht_probeID h)) turns ws"

definition http2_Stop :: "HTTP2TraceCollector \<Rightarrow> ('e, HTTP2TraceCollector) outcome" where
  "http2_Stop h =
     (if \<not> ht_running h then Ok h
      else if ht_stopped h then Panic
      else Ok (h\<lparr>ht_stopped := True, ht_reader := map_option (\<lambda>_. False) (ht_reader h), ht_running := False\<rparr>))"

section \<open>Logs\<close>

text \<open>\<open>ge_Data\<close> is the array of 4096 bytes.\<close>

record LogEvent =
  ge_TimestampNS :: "64 word"
  ge_Type :: "32 word"
  ge_PID :: "32 word"
  ge_PPID :: "32 word"
  ge_FD :: "32 word"
  ge_DataLen :: "32 word"
  ge_Comm :: bytes
  ge_Data :: bytes

record LogCollectConfig =
  gc_Enabled :: bool
  gc_BufferSize :: int
  gc_MaxLineLength :: int
  gc_FilterPatterns :: "string list"

record LogCollectCollector =
  gt_config :: LogCollectConfig
  gt_probeID :: string
  gt_running :: bool
  gt_stopped :: bool
  gt_coll :: bool
  gt_links :: nat
  gt_reader :: "bool option"

definition NewLogCollectCollector :: "LogCollectConfig \<Rightarrow> string \<Rightarrow> LogCollectCollector" where
  "NewLogCollectCollector cfg probeID =
     (let cfg = (if gc_BufferSize cfg = 0 then cfg\<lparr>gc_BufferSize := 4096\<rparr> else cfg);
          cfg = (if gc_MaxLineLength cfg = 0 then cfg\<lparr>gc_MaxLineLength := 8192\<rparr> else cfg)
      in \<lparr>gt_config = cfg, gt_probeID = probeID, gt_running = False, gt_stopped = False, gt_coll = False,
          gt_links = 0, gt_reader = None\<rparr>)"

definition log_Init :: "bpf_env \<Rightarrow> Capabilities \<Rightarrow> LogCollectCollector \<Rightarrow> LogCollectCollector \<times> (collector_error, unit) outcome" where
  "log_Init env c l =
     (if \<not> kc_HasBPFTracepoint c then (l, Err (RequiresHook ''log_collect requires tracepoint support''))
      else case load_bpf env of
        (coll, reader, r) \<Rightarrow>
          (l\<lparr>gt_coll := gt_coll l \<or> coll, gt_reader := (if reader then Some True else gt_reader l)\<rparr>, r))"

definition log_Start :: "LogCollectCollector \<Rightarrow> LogCollectCollector \<times> (collector_error, unit) outcome" where
  "log_Start l = (if gt_running l then (l, Ok ()) else (l\<lparr>gt_running := True\<rparr>, Ok ()))"

text \<open>\<open>string(event.Data[:event.DataLen])\<close>.\<close>

definition log_event :: "string \<Rightarrow> LogEvent \<Rightarrow> ('e, Event) outcome" where
  "log_event probeID ev =
     obind (go_slice (ge_Data ev) 0 (unat (ge_DataLen ev))) (\<lambda>d.
       Ok (mk_event (extractTimestamp (ge_TimestampNS ev)) probeID ''logging'' ''log'' (gostr d)))"

definition log_processEvents where
  "log_processEvents env l turns ws = event_loop env (log_event (gt_probeID l)) turns ws"

definition log_Stop :: "LogCollectCollector \<Rightarrow> ('e, LogCollectCollector) outcome" where
  "log_Stop l =
     (if \<not> gt_running l then Ok l
      else if gt_stopped l then Panic
      else Ok (l\<lparr>gt_stopped := True, gt_reader := map_option (\<lambda>_. False) (gt_reader l), gt_running := False\<rparr>))"

section \<open>The event loop\<close>

definition loop_ends :: "'ev loop_turn \<Rightarrow> bool" where
  "loop_ends t \<longleftrightarrow> lt_stop t \<or> lt_done t \<or> lt_read t = RingClosed"

text \<open>The records read before the loop returns.\<close>

fun loop_records :: "'ev loop_turn list \<Rightarrow> 'ev list" where
  "loop_records [] = []"
| "loop_records (t # ts) =
     (if loop_ends t then []
      else case lt_read t of RingRecord ev \<Rightarrow> ev # loop_records ts | _ \<Rightarrow> loop_records ts)"

definition write_all :: "writer_env \<Rightarrow> Event list \<Rightarrow> any_writer list \<Rightarrow> any_writer list" where
  "write_all env evs ws = fold (\<lambda>ev. map (\<lambda>w. fst (w_WriteEvent env ev w))) evs ws"

definition all_pending :: "any_writer list \<Rightarrow> Event multiset" where
  "all_pending ws = (\<Sum>w \<leftarrow> ws. pending_of w)"

lemma length_write_all [simp]: "length (write_all env evs ws) = length ws"
  by (induction evs arbitrary: ws) (simp_all add: write_all_def)

lemma write_all_Cons: "write_all env (ev # evs) ws = write_all env evs (map (\<lambda>w. fst (w_WriteEvent env ev w)) ws)"
  by (simp add: write_all_def)

lemma event_loop_exact:
  assumes "\<forall>ev \<in> set (loop_records turns). conv ev = Ok (f ev)"
  shows "\<exists>fx. event_loop env conv turns ws =
      (write_all env (map f (loop_records turns)) ws, fx, Ok (list_ex loop_ends turns)) \<and>
    all_pending (write_all env (map f (loop_records turns)) ws) + fates fx =
      all_pending ws + repeat_mset (length ws) (mset (map f (loop_records turns)))"
  using assms
proof (induction turns arbitrary: ws)
  case Nil
  then show ?case by (simp add: write_all_def)
next
  case (Cons t ts)
  show ?case
  proof (cases "loop_ends t")
    case True
    then show ?thesis by (cases "lt_stop t \<or> lt_done t") (auto simp: loop_ends_def write_all_def)
  next
    case False
    then have live: "\<not> (lt_stop t \<or> lt_done t)" "lt_read t \<noteq> RingClosed" by (simp_all add: loop_ends_def)
    show ?thesis
    proof (cases "lt_read t")
      case RingClosed
      with live show ?thesis by simp
    next
      case (RingError err)
      with Cons.prems False have "\<forall>ev \<in> set (loop_records ts). conv ev = Ok (f ev)" by simp
      from Cons.IH [OF this, of ws] RingError live False show ?thesis by auto
    next
      case (RingRecord ev)
      let ?ws = "map (\<lambda>w. fst (w_WriteEvent env (f ev) w)) ws"
      have conv: "conv ev = Ok (f ev)" "\<forall>ev \<in> set (loop_records ts). conv ev = Ok (f ev)"
        using Cons.prems False RingRecord by simp_all
      obtain fx where fx: "multi_WriteEvent env ws (f ev) = (?ws, fx, Ok ())"
        "all_pending ?ws + fates fx = all_pending ws + replicate_mset (length ws) (f ev)"
        using multi_WriteEvent_all [of env ws "f ev"] unfolding all_pending_def by blast
      obtain gx where gx: "event_loop env conv ts ?ws =
          (write_all env (map f (loop_records ts)) ?ws, gx, Ok (list_ex loop_ends ts))"
        "all_pending (write_all env (map f (loop_records ts)) ?ws) + fates gx =
          all_pending ?ws + repeat_mset (length ws) (mset (map f (loop_records ts)))"
        using Cons.IH [OF conv(2), of ?ws] by auto
      have "all_pending (write_all env (map f (loop_records ts)) ?ws) + fates (fx @ gx) =
          all_pending ws + repeat_mset (length ws) (mset (map f (loop_records (t # ts))))"
        using gx(2) fx(2) False RingRecord
        by (simp add: repeat_mset_distrib2 ac_simps)
      moreover have "event_loop env conv (t # ts) ws =
          (write_all env (map f (loop_records (t # ts))) ws, fx @ gx, Ok (list_ex loop_ends (t # ts)))"
        using RingRecord live conv(1) fx(1) gx(1) False by (simp add: write_all_Cons)
      ultimately show ?thesis using False RingRecord by (auto simp: write_all_Cons)
    qed
  qed
qed

lemma event_loop_panic_iff:
  assumes "\<forall>ev e. conv ev \<noteq> Err e"
  shows "snd (snd (event_loop env conv turns ws)) = Panic \<longleftrightarrow> (\<exists>ev \<in> set (loop_records turns). conv ev = Panic)"
proof (induction turns arbitrary: ws)
  case Nil
  then show ?case by simp
next
  case (Cons t ts)
  show ?case
  proof (cases "loop_ends t")
    case True
    then show ?thesis by (cases "lt_stop t \<or> lt_done t") (auto simp: loop_ends_def)
  next
    case False
    then have live: "\<not> (lt_stop t \<or> lt_done t)" "lt_read t \<noteq> RingClosed" by (simp_all add: loop_ends_def)
    show ?thesis
    proof (cases "lt_read t")
      case RingClosed
      with live show ?thesis by simp
    next
      case (RingError err)
      with live False Cons.IH [of ws] show ?thesis by (auto split: prod.splits)
    next
      case (RingRecord ev)
      show ?thesis
      proof (cases "conv ev")
        case (Ok out)
        obtain fx where fx: "multi_WriteEvent env ws out = (map (\<lambda>w. fst (w_WriteEvent env out w)) ws, fx, Ok ())"
          using multi_WriteEvent_all [of env ws out] by blast
        with Ok RingRecord live False Cons.IH [of "map (\<lambda>w. fst (w_WriteEvent env out w)) ws"]
        show ?thesis by (auto split: prod.splits)
      qed (use RingRecord live False assms in auto)
    qed
  qed
qed

text \<open>The events the three collectors make of their records.\<close>

definition tls_out :: "string \<Rightarrow> TLSEvent \<Rightarrow> Event" where
  "tls_out probeID ev = (mk_event zero_time probeID ''security'' ''tls'' '''')\<lparr>ev_Protocol := ''tls''\<rparr>"

definition http2_out :: "string \<Rightarrow> HTTP2FrameEvent \<Rightarrow> Event" where
  "http2_out probeID ev = (mk_event zero_time probeID ''protocol'' ''http2'' '''')\<lparr>ev_Protocol := ''http2''\<rparr>"

definition log_out :: "string \<Rightarrow> LogEvent \<Rightarrow> Event" where
  "log_out probeID ev =
     mk_event zero_time probeID ''logging'' ''log'' (gostr (take (unat (ge_DataLen ev)) (ge_Data ev)))"

text \<open>C16.  The event loop of the TLS collector and that of the HTTP/2 collector, whatever the ring buffer
  and the writers answer: the loop returns exactly when some turn finds \<open>stopCh\<close> closed, the context done
  or the ring closed; every record read before that turn is given to every writer, in order, errors of
  the reader and of the writers notwithstanding; and each of these events is pending in a writer or
  accounted for by an effect.\<close>

theorem trace_events_all_written:
  "(\<exists>fx. tls_processEvents env t turns ws =
        (write_all env (map (tls_out (tt_probeID t)) (loop_records turns)) ws, fx, Ok (list_ex loop_ends turns)) \<and>
      all_pending (write_all env (map (tls_out (tt_probeID t)) (loop_records turns)) ws) + fates fx =
        all_pending ws + repeat_mset (length ws) (mset (map (tls_out (tt_probeID t)) (loop_records turns)))) \<and>
    (\<exists>fx. http2_processEvents env h turns' ws =
        (write_all env (map (http2_out (ht_probeID h)) (loop_records turns')) ws, fx, Ok (list_ex loop_ends turns')) \<and>
      all_pending (write_all env (map (http2_out (ht_probeID h)) (loop_records turns')) ws) + fates fx =
        all_pending ws + repeat_mset (length ws) (mset (map (http2_out (ht_probeID h)) (loop_records turns'))))"
  unfolding tls_processEvents_def http2_processEvents_def
  by (intro conjI event_loop_exact)
     (simp_all add: tls_event_def http2_event_def tls_out_def http2_out_def extractTimestamp_def)

text \<open>C17.  The event loop of the log collector: it panics exactly when a record it reads carries a length
  beyond the data it holds, which nothing checks; otherwise it returns as the other loops do and each
  record becomes an event with exactly the first \<open>DataLen\<close> bytes.\<close>

theorem log_loop_exact:
  "(snd (snd (log_processEvents env l turns ws)) = Panic \<longleftrightarrow>
      list_ex (\<lambda>ev. length (ge_Data ev) < unat (ge_DataLen ev)) (loop_records turns)) \<and>
    (if list_ex (\<lambda>ev. length (ge_Data ev) < unat (ge_DataLen ev)) (loop_records turns) then True
     else \<exists>fx. log_processEvents env l turns ws =
       (write_all env (map (log_out (gt_probeID l)) (loop_records turns)) ws, fx, Ok (list_ex loop_ends turns)))"
proof (intro conjI)
  have "(\<exists>ev \<in> set (loop_records turns). log_event (gt_probeID l) ev = (Panic :: (edge_error + string, Event) outcome)) \<longleftrightarrow>
      list_ex (\<lambda>ev. length (ge_Data ev) < unat (ge_DataLen ev)) (loop_records turns)"
    by (auto simp: log_event_def obind_iffs go_slices list_ex_iff)
  then show "snd (snd (log_processEvents env l turns ws)) = Panic \<longleftrightarrow>
      list_ex (\<lambda>ev. length (ge_Data ev) < unat (ge_DataLen ev)) (loop_records turns)"
    unfolding log_processEvents_def
    by (subst event_loop_panic_iff) (simp_all add: log_event_def obind_iffs go_slices)
next
  have ok: "\<not> list_ex (\<lambda>ev. length (ge_Data ev) < unat (ge_DataLen ev)) (loop_records turns) \<Longrightarrow>
      \<forall>ev \<in> set (loop_records turns). log_event (gt_probeID l) ev = (Ok (log_out (gt_probeID l) ev) :: (edge_error + string, Event) outcome)"
    by (auto simp: list_ex_iff log_event_def log_out_def extractTimestamp_def not_less)
  show "if list_ex (\<lambda>ev. length (ge_Data ev) < unat (ge_DataLen ev)) (loop_records turns) then True
     else \<exists>fx. log_processEvents env l turns ws =
       (write_all env (map (log_out (gt_probeID l)) (loop_records turns)) ws, fx, Ok (list_ex loop_ends turns))"
    unfolding log_processEvents_def
    using event_loop_exact [OF ok, of env ws] by (simp only: split: if_split) blast
qed

section \<open>Starting and stopping\<close>

lemma attach_entries_none: "attach_entries env es = []"
  by (induction env es rule: attach_entries.induct) (simp_all add: Sscanf_no_operand_def)

interpretation tls_life: lifecycle "\<lambda>env t. fst (tls_Start env t)" tls_Stop "\<lambda>env. \<not> isl (pr_readdir env)"
  tt_running tt_stopped "\<lambda>_. True"
  by unfold_locales
     (auto simp: tls_Start_def tls_Stop_def tls_attachProbes_def split: sum.splits)

interpretation http2_life: lifecycle "\<lambda>_ :: unit. \<lambda>h. fst (http2_Start h)" http2_Stop "\<lambda>_. True"
  ht_running ht_stopped "\<lambda>_. True"
  by unfold_locales (auto simp: http2_Start_def http2_Stop_def http2_attachProbes_def)

interpretation log_life: lifecycle "\<lambda>_ :: unit. \<lambda>l. fst (log_Start l)" log_Stop "\<lambda>_. True"
  gt_running gt_stopped "\<lambda>_. True"
  by unfold_locales (auto simp: log_Start_def log_Stop_def)

end
