(* ===== verification/Manager.thy ===== *)
theory Manager
  imports Collectors
begin

text \<open>
  The collector manager, \<open>src/internal/collector/manager.go\<close>.  A value of the interface \<open>Collector\<close> is one of
  the three types of the package that implement it (the vTap, ping and cloud collectors have other
  signatures).  Go visits a map in any order: the loops over the collectors take the order of the
  visit as an argument, a list of names.
\<close>

section \<open>The interface\<close>

datatype any_collector = CTLS TLSTraceCollector | CHTTP2 HTTP2TraceCollector | CLog LogCollectCollector

text \<open>What the machine answers: existing paths, the eBPF library per collector, the \<open>/proc\<close> directory.\<close>

record mgr_env =
  me_stat :: "string \<Rightarrow> bool"
  me_bpf :: "string \<Rightarrow> bpf_env"
  me_proc :: proc_env

definition c_Name :: "any_collector \<Rightarrow> string" where
  "c_Name c = (case c of CTLS _ \<Rightarrow> ''tls_trace'' | CHTTP2 _ \<Rightarrow> ''http2_trace'' | CLog _ \<Rightarrow> ''log_collect'')"

definition c_Category :: "any_collector \<Rightarrow> string" where
  "c_Category c = (case c of CTLS _ \<Rightarrow> ''security'' | CHTTP2 _ \<Rightarrow> ''protocol'' | CLog _ \<Rightarrow> ''logging'')"

definition c_Init :: "mgr_env \<Rightarrow> Capabilities \<Rightarrow> any_collector \<Rightarrow> any_collector \<times> (collector_error, unit) outcome" where
  "c_Init env k c =
     (let bpf = me_bpf env (c_Name c) in
      case c of
        CTLS t \<Rightarrow> (case tls_Init (me_stat env) bpf k t of (t, r) \<Rightarrow> (CTLS t, r))
      | CHTTP2 h \<Rightarrow> (case http2_Init bpf k h of (h, r) \<Rightarrow> (CHTTP2 h, r))
      | CLog l \<Rightarrow> (case log_Init bpf k l of (l, r) \<Rightarrow> (CLog l, r)))"

definition c_Start :: "mgr_env \<Rightarrow> any_collector \<Rightarrow> any_collector \<times> (collector_error, unit) outcome" where
  "c_Start env c =
     (case c of
        CTLS t \<Rightarrow> (case tls_Start (me_proc env) t of (t, r) \<Rightarrow> (CTLS t, r))
      | CHTTP2 h \<Rightarrow> (case http2_Start h of (h, r) \<Rightarrow> (CHTTP2 h, r))
      | CLog l \<Rightarrow> (case log_Start l of (l, r) \<Rightarrow> (CLog l, r)))"

definition c_Stop :: "any_collector \<Rightarrow> ('e, any_collector) outcome" where
  "c_Stop c =
     (case c of
        CTLS t \<Rightarrow> obind (tls_Stop t) (\<lambda>t. Ok (CTLS t))
      | CHTTP2 h \<Rightarrow> obind (http2_Stop h) (\<lambda>h. Ok (CHTTP2 h))
      | CLog l \<Rightarrow> obind (log_Stop l) (\<lambda>l. Ok (CLog l)))"

record c_status =
  cs_running :: bool
  cs_links_count :: nat
  cs_tls_libs :: "(string \<rightharpoonup> TLSLibType) option"

definition c_Status :: "any_collector \<Rightarrow> c_status" where
  "c_Status c =
     (case c of
        CTLS t \<Rightarrow> \<lparr>cs_running = tt_running t, cs_links_count = tt_links t, cs_tls_libs = Some (tt_tlsLibs t)\<rparr>
      | CHTTP2 h \<Rightarrow> \<lparr>cs_running = ht_running h, cs_links_count = ht_links h, cs_tls_libs = None\<rparr>
      | CLog l \<Rightarrow> \<lparr>cs_running = gt_running l, cs_links_count = gt_links l, cs_tls_libs = None\<rparr>)"

definition c_running :: "any_collector \<Rightarrow> bool" where
  "c_running c = cs_running (c_Status c)"

definition c_stopped :: "any_collector \<Rightarrow> bool" where
  "c_stopped c = (case c of CTLS t \<Rightarrow> tt_stopped t | CHTTP2 h \<Rightarrow> ht_stopped h | CLog l \<Rightarrow> gt_stopped l)"

section \<open>The manager\<close>

record CollectorConfig =
  cc_NetworkFlow :: bool
  cc_ProcessExec :: bool
  cc_FileOpen :: bool
  cc_TCPConnect :: bool
  cc_HostMetrics :: bool
  cc_Syscall :: bool
  cc_HTTPTrace :: bool
  cc_DNSTrace :: bool
  cc_DBTrace :: bool
  cc_SchedTrace :: bool
  cc_MemTrace :: bool
  cc_BlockTrace :: bool
  cc_SecurityTrace :: bool
  cc_TLSTrace :: bool
  cc_HTTP2Trace :: bool
  cc_LogCollect :: bool
  cc_L7Sniffer :: bool

record Manager =
  mg_collectors :: "string \<rightharpoonup> any_collector"
  mg_cap :: Capabilities
  mg_probeID :: string

definition NewManager :: "Capabilities \<Rightarrow> string \<Rightarrow> Manager" where
  "NewManager k probeID = \<lparr>mg_collectors = Map.empty, mg_cap = k, mg_probeID = probeID\<rparr>"

text \<open>The table of \<open>InitFromConfig\<close>: an enabled flag and what the factory returns.\<close>

definition collector_defs :: "Manager \<Rightarrow> CollectorConfig \<Rightarrow> (bool \<times> any_collector option) list" where
  "collector_defs m cfg =
     [(cc_NetworkFlow cfg, None), (cc_ProcessExec cfg, None), (cc_TCPConnect cfg, None), (cc_HostMetrics cfg, None),
      (cc_HTTPTrace cfg, None), (cc_DNSTrace cfg, None), (cc_DBTrace cfg, None),
      (cc_TLSTrace cfg, Some (CTLS (NewTLSTraceCollector
         \<lparr>lc_Enabled = True, lc_Libraries = [], lc_CaptureHandshake = True\<rparr> (mg_probeID m)))),
      (cc_HTTP2Trace cfg, Some (CHTTP2 (NewHTTP2TraceCollector
         \<lparr>hc_Enabled = True, hc_DecodeHPACK = True\<rparr> (mg_probeID m)))),
      (cc_LogCollect cfg, Some (CLog (NewLogCollectCollector
         \<lparr>gc_Enabled = True, gc_BufferSize = 4096, gc_MaxLineLength = 8192, gc_FilterPatterns = []\<rparr> (mg_probeID m))))]"

definition init_one :: "mgr_env \<Rightarrow> bool \<times> any_collector option \<Rightarrow> Manager \<Rightarrow> Manager" where
  "init_one env d m =
     (case d of
        (enabled, c) \<Rightarrow>
          if \<not> enabled then m
          else case c of
            None \<Rightarrow> m
          | Some c \<Rightarrow>
              (case c_Init env (mg_cap m) c of
                 (c, Ok _) \<Rightarrow> m\<lparr>mg_collectors := (mg_collectors m)(c_Name c \<mapsto> c)\<rparr>
               | (c, _) \<Rightarrow> m))"

definition InitFromConfig :: "mgr_env \<Rightarrow> CollectorConfig \<Rightarrow> Manager \<Rightarrow> Manager" where
  "InitFromConfig env cfg m = fold (init_one env) (collector_defs m cfg) m"

datatype mgr_error = InitCollector string collector_error

definition Register :: "mgr_env \<Rightarrow> any_collector \<Rightarrow> Manager \<Rightarrow> Manager \<times> (mgr_error, unit) outcome" where
  "Register env c m =
     (case c_Init env (mg_cap m) c of
        (c, Ok _) \<Rightarrow> (m\<lparr>mg_collectors := (mg_collectors m)(c_Name c \<mapsto> c)\<rparr>, Ok ())
      | (c, Err e) \<Rightarrow> (m, Err (InitCollector (c_Name c) e))
      | (c, Panic) \<Rightarrow> (m, Panic))"

text \<open>The collectors are pointers: what a call changes is seen through the map.  A failed start is logged.\<close>

definition start_one :: "mgr_env \<Rightarrow> string \<Rightarrow> Manager \<Rightarrow> Manager" where
  "start_one env name m =
     (case mg_collectors m name of
        None \<Rightarrow> m
      | Some c \<Rightarrow> m\<lparr>mg_collectors := (mg_collectors m)(name \<mapsto> fst (c_Start env c))\<rparr>)"

definition StartAll :: "mgr_env \<Rightarrow> string list \<Rightarrow> Manager \<Rightarrow> Manager" where
  "StartAll env order m = fold (start_one env) order m"

fun StopAll :: "string list \<Rightarrow> Manager \<Rightarrow> ('e, Manager) outcome" where
  "StopAll [] m = Ok m"
| "StopAll (name # order) m =
     (case mg_collectors m name of
        None \<Rightarrow> StopAll order m
      | Some c \<Rightarrow> obind (c_Stop c) (\<lambda>c. StopAll order (m\<lparr>mg_collectors := (mg_collectors m)(name \<mapsto> c)\<rparr>)))"

definition mgr_Status :: "Manager \<Rightarrow> string \<rightharpoonup> c_status" where
  "mgr_Status m = map_option c_Status \<circ> mg_collectors m"

definition GetCollector :: "string \<Rightarrow> Manager \<Rightarrow> any_collector option" where
  "GetCollector name m = mg_collectors m name"

section \<open>Which collectors run\<close>

text \<open>The kernel hooks a collector needs, and whether the eBPF library can serve it.\<close>

definition bpf_ok :: "bpf_env \<Rightarrow> bool" where
  "bpf_ok b \<longleftrightarrow> bp_memlock b = None \<and> bp_load b = None \<and> bp_reader b = None"

lemma load_bpf_Ok: "load_bpf b = (x, y, Ok ()) \<Longrightarrow> bpf_ok b \<and> x \<and> y"
  by (auto simp: load_bpf_def bpf_ok_def split: option.splits)

lemma load_bpf_ok: "bpf_ok b \<Longrightarrow> load_bpf b = (True, True, Ok ())"
  by (simp add: load_bpf_def bpf_ok_def)

definition hooks_ok :: "Capabilities \<Rightarrow> any_collector \<Rightarrow> bool" where
  "hooks_ok k c =
     (case c of
        CTLS _ \<Rightarrow> kc_HasBPFKprobe k \<or> kc_HasBPFTracepoint k
      | CHTTP2 _ \<Rightarrow> kc_HasBPFKprobe k
      | CLog _ \<Rightarrow> kc_HasBPFTracepoint k)"

lemma c_Init_name: "c_Name (fst (c_Init env k c)) = c_Name c"
  by (cases c) (simp_all add: c_Init_def c_Name_def split: prod.splits)

lemma c_Init_running: "c_running (fst (c_Init env k c)) = c_running c" "c_stopped (fst (c_Init env k c)) = c_stopped c"
  by (cases c; simp add: c_Init_def tls_Init_def http2_Init_def log_Init_def detectTLSLibraries_def
      c_running_def c_stopped_def c_Status_def Let_def split: prod.splits)+

lemma c_Init_Ok_iff: "snd (c_Init env k c) = Ok () \<longleftrightarrow> hooks_ok k c \<and> bpf_ok (me_bpf env (c_Name c))"
proof -
  obtain x y r where l: "load_bpf (me_bpf env (c_Name c)) = (x, y, r)" by (metis prod_cases3)
  have "r = Ok () \<longleftrightarrow> bpf_ok (me_bpf env (c_Name c))"
    using l load_bpf_Ok [of "me_bpf env (c_Name c)" x y] load_bpf_ok [of "me_bpf env (c_Name c)"] by auto
  with l show ?thesis
    by (cases c) (auto simp: c_Init_def tls_Init_def http2_Init_def log_Init_def hooks_ok_def Let_def)
qed

lemma init_one_map:
  "mg_collectors (init_one env (enabled, Some c) m) =
     (if enabled \<and> hooks_ok (mg_cap m) c \<and> bpf_ok (me_bpf env (c_Name c))
      then (mg_collectors m)(c_Name c \<mapsto> fst (c_Init env (mg_cap m) c)) else mg_collectors m)"
  using c_Init_Ok_iff [of env "mg_cap m" c] c_Init_name [of env "mg_cap m" c]
  by (auto simp: init_one_def split: prod.splits outcome.splits)

lemma init_one_None [simp]: "init_one env (enabled, None) m = m"
  by (simp add: init_one_def)

lemma init_one_cap [simp]: "mg_cap (init_one env d m) = mg_cap m"
  by (auto simp: init_one_def split: prod.splits option.splits outcome.splits)

lemma NewLog_fields [simp]: "gt_running (NewLogCollectCollector cfg p) = False" "gt_stopped (NewLogCollectCollector cfg p) = False"
  by (simp_all add: NewLogCollectCollector_def Let_def)

text \<open>A collector the manager has just set up.\<close>

definition fresh :: "any_collector \<Rightarrow> bool" where
  "fresh c \<longleftrightarrow> \<not> c_running c \<and> \<not> c_stopped c"

lemma InitFromConfig_lookup:
  fixes cfg k p env
  defines "m \<equiv> InitFromConfig env cfg (NewManager k p)"
  shows "mg_collectors m ''tls_trace'' \<noteq> None \<longleftrightarrow>
      cc_TLSTrace cfg \<and> (kc_HasBPFKprobe k \<or> kc_HasBPFTracepoint k) \<and> bpf_ok (me_bpf env ''tls_trace'')"
    and "mg_collectors m ''http2_trace'' \<noteq> None \<longleftrightarrow>
      cc_HTTP2Trace cfg \<and> kc_HasBPFKprobe k \<and> bpf_ok (me_bpf env ''http2_trace'')"
    and "mg_collectors m ''log_collect'' \<noteq> None \<longleftrightarrow>
      cc_LogCollect cfg \<and> kc_HasBPFTracepoint k \<and> bpf_ok (me_bpf env ''log_collect'')"
    and "dom (mg_collectors m) \<subseteq> {''tls_trace'', ''http2_trace'', ''log_collect''}"
    and "\<forall>c \<in> ran (mg_collectors m). fresh c"
proof -
  have m: "mg_collectors m =
      (let t = CTLS (NewTLSTraceCollector \<lparr>lc_Enabled = True, lc_Libraries = [], lc_CaptureHandshake = True\<rparr> p);
           h = CHTTP2 (NewHTTP2TraceCollector \<lparr>hc_Enabled = True, hc_DecodeHPACK = True\<rparr> p);
           l = CLog (NewLogCollectCollector
                 \<lparr>gc_Enabled = True, gc_BufferSize = 4096, gc_MaxLineLength = 8192, gc_FilterPatterns = []\<rparr> p);
           add = (\<lambda>on c f. if on \<and> hooks_ok k c \<and> bpf_ok (me_bpf env (c_Name c))
                   then f(c_Name c \<mapsto> fst (c_Init env k c)) else f)
       in add (cc_LogCollect cfg) l (add (cc_HTTP2Trace cfg) h (add (cc_TLSTrace cfg) t Map.empty)))"
    by (simp add: m_def InitFromConfig_def collector_defs_def init_one_map NewManager_def Let_def)
  have fresh: "fresh (fst (c_Init env k c))" if "\<not> c_running c" "\<not> c_stopped c" for c
    using that by (simp add: fresh_def c_Init_running)
  show "mg_collectors m ''tls_trace'' \<noteq> None \<longleftrightarrow>
      cc_TLSTrace cfg \<and> (kc_HasBPFKprobe k \<or> kc_HasBPFTracepoint k) \<and> bpf_ok (me_bpf env ''tls_trace'')"
    "mg_collectors m ''http2_trace'' \<noteq> None \<longleftrightarrow>
      cc_HTTP2Trace cfg \<and> kc_HasBPFKprobe k \<and> bpf_ok (me_bpf env ''http2_trace'')"
    "mg_collectors m ''log_collect'' \<noteq> None \<longleftrightarrow>
      cc_LogCollect cfg \<and> kc_HasBPFTracepoint k \<and> bpf_ok (me_bpf env ''log_collect'')"
    "dom (mg_collectors m) \<subseteq> {''tls_trace'', ''http2_trace'', ''log_collect''}"
    unfolding m by (simp_all add: Let_def hooks_ok_def c_Name_def)
  have add: "\<forall>d \<in> ran (if P then f(n \<mapsto> fst (c_Init env k c)) else f). fresh d"
    if "\<forall>d \<in> ran f. fresh d" "\<not> c_running c" "\<not> c_stopped c" for P f n c
    using that fresh [of c] by (auto simp: ran_def split: if_splits)
  show "\<forall>c \<in> ran (mg_collectors m). fresh c"
    unfolding m Let_def
    by (intro add) (simp_all add: c_running_def c_stopped_def c_Status_def NewTLSTraceCollector_def NewHTTP2TraceCollector_def)
qed

section \<open>Starting and stopping all\<close>

text \<open>What \<open>Stop\<close> makes of a collector when it does not panic.\<close>

definition halted :: "any_collector \<Rightarrow> any_collector" where
  "halted c =
     (case c of
        CTLS t \<Rightarrow> CTLS (if tt_running t then t\<lparr>tt_stopped := True,
            tt_reader := map_option (\<lambda>_. False) (tt_reader t), tt_running := False\<rparr> else t)
      | CHTTP2 h \<Rightarrow> CHTTP2 (if ht_running h then h\<lparr>ht_stopped := True,
            ht_reader := map_option (\<lambda>_. False) (ht_reader h), ht_running := False\<rparr> else h)
      | CLog l \<Rightarrow> CLog (if gt_running l then l\<lparr>gt_stopped := True,
            gt_reader := map_option (\<lambda>_. False) (gt_reader l), gt_running := False\<rparr> else l))"

lemma c_Stop_eq: "c_Stop c = (if c_running c \<and> c_stopped c then Panic else Ok (halted c))"
  by (cases c) (simp_all add: c_Stop_def halted_def c_running_def c_stopped_def c_Status_def
      tls_Stop_def http2_Stop_def log_Stop_def)

lemma halted_props: "\<not> c_running (halted c)" "c_stopped (halted c) \<longleftrightarrow> c_stopped c \<or> c_running c"
  by (cases c; simp add: halted_def c_running_def c_stopped_def c_Status_def)+

lemma c_Start_props:
  "\<not> isl (pr_readdir (me_proc env)) \<Longrightarrow> c_running (fst (c_Start env c))"
  "c_stopped (fst (c_Start env c)) = c_stopped c"
  by (cases c; auto simp: c_Start_def c_running_def c_stopped_def c_Status_def tls_Start_def http2_Start_def
      log_Start_def tls_attachProbes_def http2_attachProbes_def split: sum.splits)+

lemma halted_idle: "\<not> c_running c \<Longrightarrow> halted c = c"
  by (cases c) (simp_all add: halted_def c_running_def c_Status_def)

interpretation coll: lifecycle "\<lambda>env c. fst (c_Start env c)" c_Stop "\<lambda>env. \<not> isl (pr_readdir (me_proc env))"
  c_running c_stopped "\<lambda>_. True"
  by unfold_locales (simp_all add: c_Start_props c_Stop_eq halted_props halted_idle)

lemma StartAll_map:
  assumes "distinct order"
  shows "mg_collectors (StartAll env order m) n =
    (if n \<in> set order then map_option (\<lambda>c. fst (c_Start env c)) (mg_collectors m n) else mg_collectors m n)"
  using assms
proof (induction order arbitrary: m)
  case Nil
  then show ?case by (simp add: StartAll_def)
next
  case (Cons x order)
  have "mg_collectors (start_one env x m) n =
      (if n = x then map_option (\<lambda>c. fst (c_Start env c)) (mg_collectors m x) else mg_collectors m n)" for n
    by (simp add: start_one_def split: option.splits)
  with Cons show ?case by (auto simp: StartAll_def)
qed

definition unstoppable :: "string list \<Rightarrow> Manager \<Rightarrow> bool" where
  "unstoppable order m \<longleftrightarrow> (\<exists>n \<in> set order. \<exists>c. mg_collectors m n = Some c \<and> c_running c \<and> c_stopped c)"

lemma unstoppable_Cons:
  assumes "distinct (x # order)"
  shows "unstoppable (x # order) m \<longleftrightarrow>
    (\<exists>c. mg_collectors m x = Some c \<and> c_running c \<and> c_stopped c) \<or> unstoppable order m"
  "unstoppable order (m\<lparr>mg_collectors := (mg_collectors m)(x \<mapsto> d)\<rparr>) \<longleftrightarrow> unstoppable order m"
  using assms by (auto simp: unstoppable_def)

lemma StopAll_panic: "distinct order \<Longrightarrow> unstoppable order m \<Longrightarrow> StopAll order m = Panic"
proof (induction order arbitrary: m)
  case Nil
  then show ?case by (simp add: unstoppable_def)
next
  case (Cons x order)
  then show ?case
    by (cases "mg_collectors m x") (auto simp: unstoppable_Cons c_Stop_eq)
qed

definition halt_all :: "string list \<Rightarrow> Manager \<Rightarrow> Manager" where
  "halt_all order m =
     m\<lparr>mg_collectors := \<lambda>n. if n \<in> set order then map_option halted (mg_collectors m n) else mg_collectors m n\<rparr>"

lemma StopAll_ok: "distinct order \<Longrightarrow> \<not> unstoppable order m \<Longrightarrow> StopAll order m = Ok (halt_all order m)"
proof (induction order arbitrary: m)
  case Nil
  then show ?case by (simp add: halt_all_def)
next
  case (Cons x order)
  show ?case
  proof (cases "mg_collectors m x")
    case None
    with Cons show ?thesis
      by (simp add: unstoppable_Cons halt_all_def) (rule arg_cong [where f = "\<lambda>f. m\<lparr>mg_collectors := f\<rparr>"], auto)
  next
    case (Some c)
    with Cons show ?thesis
      by (auto simp: unstoppable_Cons halt_all_def c_Stop_eq intro!: arg_cong [where f = "\<lambda>f. m\<lparr>mg_collectors := f\<rparr>"])
  qed
qed

definition visits :: "string list \<Rightarrow> Manager \<Rightarrow> bool" where
  "visits order m \<longleftrightarrow> distinct order \<and> set order = dom (mg_collectors m)"

lemma StartAll_visits:
  assumes "visits order m"
  shows "mg_collectors (StartAll env order m) = map_option (\<lambda>c. fst (c_Start env c)) \<circ> mg_collectors m"
proof
  fix n
  show "mg_collectors (StartAll env order m) n = (map_option (\<lambda>c. fst (c_Start env c)) \<circ> mg_collectors m) n"
    using assms StartAll_map [of order env m n] by (cases "mg_collectors m n") (auto simp: visits_def)
qed

lemma halt_all_visits:
  assumes "visits order m"
  shows "mg_collectors (halt_all order m) = map_option halted \<circ> mg_collectors m"
proof
  fix n
  show "mg_collectors (halt_all order m) n = (map_option halted \<circ> mg_collectors m) n"
    using assms by (cases "mg_collectors m n") (auto simp: visits_def halt_all_def)
qed

text \<open>The life of the collectors under the manager, for every order in which its maps are visited: one
  \<open>StartAll\<close> and one \<open>StopAll\<close> leave every collector stopped; after that a second round ends in a panic as
  soon as there is a collector.\<close>

theorem manager_second_round_panics:
  assumes "m = InitFromConfig env cfg (NewManager k p)" and "\<not> isl (pr_readdir (me_proc env))"
    and "visits o1 m" "visits o2 m" "visits o3 m" "visits o4 m"
  shows "\<exists>m'. StopAll o2 (StartAll env o1 m) = (Ok m' :: ('e, Manager) outcome) \<and>
     dom (mg_collectors m') = dom (mg_collectors m) \<and> (\<forall>c \<in> ran (mg_collectors m'). \<not> c_running c) \<and>
     (StopAll o4 (StartAll env o3 m') = (Panic :: ('e, Manager) outcome) \<longleftrightarrow> mg_collectors m \<noteq> Map.empty)"
proof -
  have fresh: "\<not> c_running c" "\<not> c_stopped c" if "mg_collectors m n = Some c" for n c
    using InitFromConfig_lookup(5) [of env cfg k p] that assms(1) by (auto simp: fresh_def ran_def)
  let ?m1 = "StartAll env o1 m" and ?m2 = "halt_all o2 (StartAll env o1 m)"
  have m1: "mg_collectors ?m1 = map_option (\<lambda>c. fst (c_Start env c)) \<circ> mg_collectors m"
    using assms(3) by (rule StartAll_visits)
  then have v: "visits o2 ?m1" using assms(4) by (auto simp: visits_def dom_def)
  have "\<not> unstoppable o2 ?m1" using fresh by (auto simp: unstoppable_def m1 c_Start_props)
  then have ok: "StopAll o2 ?m1 = (Ok ?m2 :: ('e, Manager) outcome)"
    using v by (intro StopAll_ok) (simp_all add: visits_def)
  have m2: "mg_collectors ?m2 = map_option (\<lambda>c. halted (fst (c_Start env c))) \<circ> mg_collectors m"
    unfolding halt_all_visits [OF v] m1 by (simp add: option.map_comp comp_def)
  then have dom: "dom (mg_collectors ?m2) = dom (mg_collectors m)" by (auto simp: dom_def)
  have idle: "\<forall>c \<in> ran (mg_collectors ?m2). \<not> c_running c" by (auto simp: m2 ran_def halted_props)
  have v3: "visits o3 ?m2" using assms(5) dom by (simp add: visits_def)
  have m3: "mg_collectors (StartAll env o3 ?m2) = map_option (\<lambda>c. fst (c_Start env (halted (fst (c_Start env c))))) \<circ> mg_collectors m"
    unfolding StartAll_visits [OF v3] m2 by (simp add: option.map_comp comp_def)
  have bad: "c_running (fst (c_Start env (halted (fst (c_Start env c)))))"
    "c_stopped (fst (c_Start env (halted (fst (c_Start env c)))))" for c
    using assms(2) by (simp_all add: c_Start_props halted_props)
  have "unstoppable o4 (StartAll env o3 ?m2) \<longleftrightarrow> mg_collectors m \<noteq> Map.empty"
  proof
    assume "mg_collectors m \<noteq> Map.empty"
    then obtain n c where "mg_collectors m n = Some c" by fastforce
    then show "unstoppable o4 (StartAll env o3 ?m2)"
      using assms(6) bad [of c] unfolding unstoppable_def m3 visits_def by (intro bexI [of _ n]) auto
  qed (auto simp: unstoppable_def m3)
  then have "StopAll o4 (StartAll env o3 ?m2) = (Panic :: ('e, Manager) outcome) \<longleftrightarrow> mg_collectors m \<noteq> Map.empty"
    using assms(6) StopAll_panic [of o4] StopAll_ok [of o4 "StartAll env o3 ?m2"] by (auto simp: visits_def)
  with ok dom idle show ?thesis by blast
qed

definition cfg_tls :: CollectorConfig where
  "cfg_tls = \<lparr>cc_NetworkFlow = True, cc_ProcessExec = False, cc_FileOpen = False, cc_TCPConnect = False,
     cc_HostMetrics = False, cc_Syscall = False, cc_HTTPTrace = False, cc_DNSTrace = False, cc_DBTrace = False,
     cc_SchedTrace = False, cc_MemTrace = False, cc_BlockTrace = False, cc_SecurityTrace = False,
     cc_TLSTrace = True, cc_HTTP2Trace = False, cc_LogCollect = False, cc_L7Sniffer = False\<rparr>"

definition env_fine :: mgr_env where
  "env_fine = \<lparr>me_stat = \<lambda>_. False, me_bpf = \<lambda>_. \<lparr>bp_memlock = None, bp_load = None, bp_reader = None\<rparr>,
     me_proc = \<lparr>pr_readdir = Inr [], pr_maps = \<lambda>_. None\<rparr>\<rparr>"

theorem manager_second_round_panics_witness:
  "\<exists>m'. StopAll [''tls_trace''] (StartAll env_fine [''tls_trace'']
       (InitFromConfig env_fine cfg_tls (NewManager (no_capabilities\<lparr>kc_HasBPFKprobe := True\<rparr>) ''p''))) =
       (Ok m' :: (unit, Manager) outcome) \<and>
     StopAll [''tls_trace''] (StartAll env_fine [''tls_trace''] m') = (Panic :: (unit, Manager) outcome)"
proof -
  let ?m = "InitFromConfig env_fine cfg_tls (NewManager (no_capabilities\<lparr>kc_HasBPFKprobe := True\<rparr>) ''p'')"
  note lookup = InitFromConfig_lookup [of env_fine cfg_tls "no_capabilities\<lparr>kc_HasBPFKprobe := True\<rparr>" "''p''"]
  have gen: "dom M = {a}" if "M a \<noteq> None" "M b = None" "M c = None" "dom M \<subseteq> {a, b, c}" for M :: "string \<rightharpoonup> any_collector" and a b c
    using that by (auto simp: dom_def)
  have "mg_collectors ?m ''tls_trace'' \<noteq> None" "mg_collectors ?m ''http2_trace'' = None" "mg_collectors ?m ''log_collect'' = None"
    using lookup(1-3) by (simp_all add: cfg_tls_def env_fine_def bpf_ok_def)
  from gen [OF this lookup(4)] have d: "dom (mg_collectors ?m) = {''tls_trace''}" .
  then have v: "visits [''tls_trace''] ?m" by (simp add: visits_def)
  from d have ne: "mg_collectors ?m \<noteq> Map.empty" by (metis dom_empty insert_not_empty)
  have "\<not> isl (pr_readdir (me_proc env_fine))" by (simp add: env_fine_def)
  from manager_second_round_panics [OF refl this v v v v, where ?'e = unit] ne show ?thesis by blast
qed

end
