(* ===== verification/Pcap.thy ===== *)
theory Pcap
  imports Go_Strings
begin

text \<open>
  The pcap writer of the vTap collector, \<open>PcapWriter\<close> in \<open>src/internal/collector/vtap.go\<close>: a capture is
  written to a sequence of files, a new one each \<open>units\<close>, and files older than \<open>expires\<close> are removed.

  The directory the writer works in is a value of \<open>fs\<close>: names, the inodes they stand for, and the
  contents and modification times of the inodes, so that a file that is removed or truncated while it
  is open is represented.  What the operating system answers (the time, the error of \<open>os.Create\<close>, how
  many bytes the device still takes) is an argument of the operations.  \<open>now.Format\<close> needs the
  time zone of the machine and is the parameter \<open>fmt_time\<close>.  \<open>time.ParseDuration\<close> follows the Go
  library; the fraction of a unit is computed exactly where the library uses a \<open>float64\<close>.
\<close>

section \<open>\<open>time.ParseDuration\<close>\<close>

definition unitMap :: "string \<Rightarrow> nat option" where
  "unitMap u =
     (if u = ''ns'' then Some 1
      else if u = ''us'' \<or> u = [CHR 0xC2, CHR 0xB5, CHR ''s''] \<or> u = [CHR 0xCE, CHR 0xBC, CHR ''s''] then Some 1000
      else if u = ''ms'' then Some 1000000
      else if u = ''s'' then Some 1000000000
      else if u = ''m'' then Some 60000000000
      else if u = ''h'' then Some 3600000000000
      else None)"

text \<open>\<open>leadingInt\<close>: the digits in front; \<open>None\<close> when the value passes \<open>1<<63\<close>.\<close>

fun leadingInt :: "nat \<Rightarrow> string \<Rightarrow> (nat \<times> string) option" where
  "leadingInt x [] = Some (x, [])"
| "leadingInt x (c # s) =
     (if is_digit c
      then if x > 2 ^ 63 div 10 then None
           else let x = x * 10 + digit_val c in if x > 2 ^ 63 then None else leadingInt x s
      else Some (x, c # s))"

text \<open>\<open>leadingFraction\<close>: once the value would pass \<open>1<<63 - 1\<close> the further digits are skipped.\<close>

fun leadingFraction :: "nat \<Rightarrow> nat \<Rightarrow> bool \<Rightarrow> string \<Rightarrow> nat \<times> nat \<times> string" where
  "leadingFraction x scale overflow [] = (x, scale, [])"
| "leadingFraction x scale overflow (c # s) =
     (if is_digit c
      then if overflow then leadingFraction x scale True s
           else if x > (2 ^ 63 - 1) div 10 then leadingFraction x scale True s
           else let y = x * 10 + digit_val c in
             if y > 2 ^ 63 then leadingFraction x scale True s
             else leadingFraction y (scale * 10) False s
      else (x, scale, c # s))"

lemma leadingInt_shorter: "leadingInt x s = Some (v, r) \<Longrightarrow> length r \<le> length s"
  by (induction x s arbitrary: v r rule: leadingInt.induct) (auto simp: Let_def split: if_splits intro: le_SucI)

lemma leadingFraction_shorter: "leadingFraction x k f s = (v, sc, r) \<Longrightarrow> length r \<le> length s"
  by (induction x k f s arbitrary: v sc r rule: leadingFraction.induct)
     (auto simp: Let_def split: if_splits intro: le_SucI)

text \<open>One number with its unit: the value in nanoseconds and the rest of the text.\<close>

definition duration_part :: "string \<Rightarrow> (nat \<times> string) option" where
  "duration_part s =
     (if s = [] \<or> \<not> (hd s = CHR ''.'' \<or> is_digit (hd s)) then None
      else case leadingInt 0 s of
        None \<Rightarrow> None
      | Some (v, s1) \<Rightarrow>
          let pre = length s1 \<noteq> length s;
              (f, scale, s2, post) =
                (if s1 \<noteq> [] \<and> hd s1 = CHR ''.''
                 then (case leadingFraction 0 1 False (tl s1) of
                         (f, scale, r) \<Rightarrow> (f, scale, r, length r \<noteq> length (tl s1)))
                 else (0, 1, s1, False))
          in if \<not> pre \<and> \<not> post then None
             else let isu = (\<lambda>c. \<not> (c = CHR ''.'' \<or> is_digit c));
                      u = takeWhile isu s2; r = dropWhile isu s2
             in if u = [] then None
                else case unitMap u of
                  None \<Rightarrow> None
                | Some unit \<Rightarrow>
                    if v > 2 ^ 63 div unit then None
                    else let v = v * unit; v = (if f > 0 then v + f * unit div scale else v) in
                      if v > 2 ^ 63 then None else Some (v, r))"

lemma duration_part_shorter: "duration_part s = Some (v, r) \<Longrightarrow> length r < length s"
proof -
  assume a: "duration_part s = Some (v, r)"
  have tw: "takeWhile P xs \<noteq> [] \<Longrightarrow> length (dropWhile P xs) < length xs" for P :: "char \<Rightarrow> bool" and xs
    by (cases xs) (auto simp: le_imp_less_Suc length_dropWhile_le split: if_splits)
  have lf: "length s2 \<le> length s1" if "leadingFraction 0 (Suc 0) False (tl s1) = (f, k, s2)" for f k s1 s2
    using leadingFraction_shorter [OF that] by (cases s1) auto
  from a show ?thesis
    by (auto simp: duration_part_def Let_def split: if_splits option.splits prod.splits
        dest!: leadingInt_shorter lf tw elim!: less_le_trans intro: order_trans)
qed

function duration_loop :: "nat \<Rightarrow> string \<Rightarrow> nat option" where
  "duration_loop d s =
     (if s = [] then Some d
      else case duration_part s of
        None \<Rightarrow> None
      | Some (v, r) \<Rightarrow> if d + v > 2 ^ 63 then None else duration_loop (d + v) r)"
  by auto
termination by (relation "measure (length \<circ> snd)") (auto dest: duration_part_shorter)

declare duration_loop.simps [simp del]

definition ParseDuration :: "string \<Rightarrow> int option" where
  "ParseDuration s =
     (let neg = (s \<noteq> [] \<and> hd s = CHR ''-'');
          s = (if s \<noteq> [] \<and> (hd s = CHR ''-'' \<or> hd s = CHR ''+'') then tl s else s)
      in if s = ''0'' then Some 0
         else if s = [] then None
         else case duration_loop 0 s of
           None \<Rightarrow> None
         | Some d \<Rightarrow> if neg then Some (- int d) else if d > 2 ^ 63 - 1 then None else Some (int d))"

section \<open>The directory\<close>

datatype dirent = Dir | File nat

record fs =
  fs_dir :: "string \<Rightarrow> dirent option"
  fs_data :: "nat \<Rightarrow> bytes"
  fs_mtime :: "nat \<Rightarrow> int"
  fs_next :: nat

text \<open>\<open>os.Create\<close>: an existing file is truncated, a missing one gets a new inode.\<close>

definition os_Create :: "int \<Rightarrow> string \<Rightarrow> fs \<Rightarrow> nat \<times> fs" where
  "os_Create now name s =
     (case fs_dir s name of
        Some (File i) \<Rightarrow> (i, s\<lparr>fs_data := (fs_data s)(i := []), fs_mtime := (fs_mtime s)(i := now)\<rparr>)
      | _ \<Rightarrow> (fs_next s, s\<lparr>fs_dir := (fs_dir s)(name := Some (File (fs_next s))),
                fs_data := (fs_data s)(fs_next s := []), fs_mtime := (fs_mtime s)(fs_next s := now),
                fs_next := fs_next s + 1\<rparr>))"

text \<open>\<open>File.Write\<close> on an open file, whose offset is the end of the file because nothing else writes to it;
  the device takes at most \<open>room\<close> bytes.  On a closed file it fails and changes nothing.\<close>

definition file_Write :: "int \<Rightarrow> nat \<Rightarrow> nat \<times> bool \<Rightarrow> bytes \<Rightarrow> fs \<Rightarrow> fs" where
  "file_Write now room f b s =
     (case f of (i, is_open) \<Rightarrow>
        if is_open then s\<lparr>fs_data := (fs_data s)(i := fs_data s i @ take room b), fs_mtime := (fs_mtime s)(i := now)\<rparr>
        else s)"

section \<open>The writer\<close>

text \<open>\<open>pw_current\<close> is the open file (its inode, and whether it is still open) or nil.  Times and durations
  are in nanoseconds.\<close>

record PcapWriter =
  pw_dir :: string
  pw_units :: int
  pw_expires :: int
  pw_current :: "(nat \<times> bool) option"
  pw_startTime :: int
  pw_stopped :: bool

datatype pcap_error = PcapCreateDir string | PcapCreateFile string

definition NewPcapWriter :: "string option \<Rightarrow> string \<Rightarrow> string \<Rightarrow> string \<Rightarrow> (pcap_error, PcapWriter) outcome" where
  "NewPcapWriter mkdir_err dir units expires =
     (case mkdir_err of
        Some err \<Rightarrow> Err (PcapCreateDir err)
      | None \<Rightarrow>
          Ok \<lparr>pw_dir = dir,
              pw_units = (case ParseDuration units of None \<Rightarrow> 60000000000 | Some d \<Rightarrow> d),
              pw_expires = (case ParseDuration expires of None \<Rightarrow> 72 * 3600000000000 | Some d \<Rightarrow> d),
              pw_current = None, pw_startTime = 0, pw_stopped = False\<rparr>)"

record pcap_env =
  pe_now :: int
  pe_create :: "string option"
  pe_room :: nat

definition pcap_name :: "(int \<Rightarrow> string) \<Rightarrow> int \<Rightarrow> string" where
  "pcap_name fmt_time now = ''pcap_'' @ fmt_time now @ ''.pcap''"

text \<open>The global header: magic, version 2.4, and sixteen bytes left at zero.\<close>

definition pcap_header :: bytes where
  "pcap_header = put_le 4 0xa1b2c3d4 @ put_le 2 2 @ put_le 2 4 @ replicate 16 0"

definition rotate ::
  "(int \<Rightarrow> string) \<Rightarrow> pcap_env \<Rightarrow> PcapWriter \<Rightarrow> fs \<Rightarrow> PcapWriter \<times> fs \<times> (pcap_error, unit) outcome" where
  "rotate fmt_time env w s =
     (let now = pe_now env; filename = pcap_name fmt_time now in
      case pe_create env of
        Some err \<Rightarrow> (w, s, Err (PcapCreateFile err))
      | None \<Rightarrow>
          (case os_Create now filename s of
             (f, s) \<Rightarrow>
               let s = file_Write now (pe_room env) (f, True) pcap_header s
               in (w\<lparr>pw_current := Some (f, True), pw_startTime := now\<rparr>, s, Ok ())))"

definition pcap_packet_header :: "int \<Rightarrow> bytes \<Rightarrow> bytes" where
  "pcap_packet_header now data =
     (let tsSec = word_of_int (now div 1000000000) :: 32 word;
          tsUsec = word_of_int (now mod 1000000000 div 1000) :: 32 word;
          pktLen = word_of_nat (length data) :: 32 word
      in put_le 4 (unat tsSec) @ put_le 4 (unat tsUsec) @ put_le 4 (unat pktLen) @ put_le 4 (unat pktLen))"

definition file_Close :: "nat \<times> bool \<Rightarrow> nat \<times> bool" where
  "file_Close f = (fst f, False)"

definition pcap_Write ::
  "(int \<Rightarrow> string) \<Rightarrow> pcap_env \<Rightarrow> bytes \<Rightarrow> PcapWriter \<Rightarrow> fs \<Rightarrow> PcapWriter \<times> fs \<times> (pcap_error, unit) outcome" where
  "pcap_Write fmt_time env data w s =
     (let now = pe_now env in
      case pw_current w of
        None \<Rightarrow> rotate fmt_time env w s
      | Some f \<Rightarrow>
          if now - pw_startTime w \<ge> pw_units w
          then rotate fmt_time env (w\<lparr>pw_current := Some (file_Close f)\<rparr>) s
          else let pktHdr = pcap_packet_header now data;
                   s = file_Write now (pe_room env) f pktHdr s;
                   s = file_Write now (pe_room env - length pktHdr) f data s
               in (w, s, Ok ()))"

text \<open>\<open>cleanup\<close>: \<open>entries\<close> is what \<open>os.ReadDir\<close> returns, \<open>info\<close> whether an entry's data could be read and
  \<open>removed\<close> whether \<open>os.Remove\<close> succeeded.\<close>

definition cleanup_entry :: "int \<Rightarrow> (string \<Rightarrow> bool) \<Rightarrow> (string \<Rightarrow> bool) \<Rightarrow> string \<Rightarrow> fs \<Rightarrow> fs" where
  "cleanup_entry cutoff info removed name s =
     (case fs_dir s name of
        Some (File i) \<Rightarrow>
          if \<not> info name then s
          else if fs_mtime s i < cutoff \<and> removed name then s\<lparr>fs_dir := (fs_dir s)(name := None)\<rparr>
          else s
      | _ \<Rightarrow> s)"

definition pcap_cleanup ::
  "int \<Rightarrow> string list option \<Rightarrow> (string \<Rightarrow> bool) \<Rightarrow> (string \<Rightarrow> bool) \<Rightarrow> PcapWriter \<Rightarrow> fs \<Rightarrow> fs" where
  "pcap_cleanup now entries info removed w s =
     (case entries of
        None \<Rightarrow> s
      | Some names \<Rightarrow> fold (cleanup_entry (now - pw_expires w) info removed) names s)"

definition pcap_Close :: "PcapWriter \<Rightarrow> ('e, PcapWriter) outcome" where
  "pcap_Close w =
     (if pw_stopped w then Panic
      else Ok (w\<lparr>pw_stopped := True, pw_current := map_option file_Close (pw_current w)\<rparr>))"

section \<open>What a capture contains\<close>

text \<open>A sequence of calls, with the number of those that returned nil.\<close>

primrec pcap_writes ::
  "(int \<Rightarrow> string) \<Rightarrow> (pcap_env \<times> bytes) list \<Rightarrow> PcapWriter \<Rightarrow> fs \<Rightarrow> PcapWriter \<times> fs \<times> nat" where
  "pcap_writes fmt_time [] w s = (w, s, 0)"
| "pcap_writes fmt_time (x # xs) w s =
     (case pcap_Write fmt_time (fst x) (snd x) w s of
        (w, s, r) \<Rightarrow> (case pcap_writes fmt_time xs w s of
          (w, s, k) \<Rightarrow> (w, s, (if r = Ok () then k + 1 else k))))"

text \<open>The abstract capture: the periods, newest first, each with the time it began and the packets it
  holds.  A packet that begins a period is not in it.\<close>

type_synonym capture = "(int \<times> (int \<times> bytes) list) list"

fun capture_write :: "int \<Rightarrow> int \<Rightarrow> bytes \<Rightarrow> capture \<Rightarrow> capture" where
  "capture_write u now d [] = [(now, [])]"
| "capture_write u now d ((st, rs) # ps) =
     (if now - st \<ge> u then (now, []) # (st, rs) # ps else (st, rs @ [(now, d)]) # ps)"

definition capture_of :: "int \<Rightarrow> (pcap_env \<times> bytes) list \<Rightarrow> capture" where
  "capture_of u ws = fold (\<lambda>(env, d). capture_write u (pe_now env) d) ws []"

definition pcap_record :: "int \<times> bytes \<Rightarrow> bytes" where
  "pcap_record r = pcap_packet_header (fst r) (snd r) @ snd r"

definition pcap_file :: "(int \<times> bytes) list \<Rightarrow> bytes" where
  "pcap_file rs = pcap_header @ concat (map pcap_record rs)"

text \<open>A reader of the pcap format: seconds, microseconds and data of each packet.\<close>

function read_records :: "bytes \<Rightarrow> (32 word \<times> 32 word \<times> bytes) list option" where
  "read_records b =
     (if b = [] then Some []
      else if length b < 16 then None
      else let sec = le32 (b ! 0) (b ! 1) (b ! 2) (b ! 3); usec = le32 (b ! 4) (b ! 5) (b ! 6) (b ! 7);
               n = unat (le32 (b ! 8) (b ! 9) (b ! 10) (b ! 11)) in
        if length b < 16 + n then None
        else map_option (\<lambda>rs. (sec, usec, take n (drop 16 b)) # rs) (read_records (drop (16 + n) b)))"
  by auto
termination by (relation "measure length") auto

declare read_records.simps [simp del]

definition read_pcap :: "bytes \<Rightarrow> (32 word \<times> 32 word \<times> bytes) list option" where
  "read_pcap b =
     (if length b < 24 \<or> take 4 b \<noteq> put_le 4 0xa1b2c3d4 \<or> take 2 (drop 4 b) \<noteq> put_le 2 2 then None
      else read_records (drop 24 b))"

definition stamped :: "int \<times> bytes \<Rightarrow> 32 word \<times> 32 word \<times> bytes" where
  "stamped r = (word_of_int (fst r div 1000000000), word_of_int (fst r mod 1000000000 div 1000), snd r)"

lemma length_pcap_header [simp]: "length pcap_header = 24"
  by (simp add: pcap_header_def)

lemma length_packet_header [simp]: "length (pcap_packet_header now d) = 16"
  by (simp add: pcap_packet_header_def Let_def)

lemma read_records_record:
  assumes "length d < 2 ^ 32"
  shows "read_records (pcap_record (t, d) @ b) = map_option (\<lambda>rs. stamped (t, d) # rs) (read_records b)"
proof -
  define sec usec len where "sec = (word_of_int (t div 1000000000) :: 32 word)"
    and "usec = (word_of_int (t mod 1000000000 div 1000) :: 32 word)" and "len = (word_of_nat (length d) :: 32 word)"
  define x where "x = pcap_record (t, d) @ b"
  have x: "x = put_le 4 (unat sec) @ put_le 4 (unat usec) @ put_le 4 (unat len) @ put_le 4 (unat len) @ d @ b"
    by (simp add: x_def pcap_record_def pcap_packet_header_def sec_def usec_def len_def Let_def)
  have n: "unat len = length d" using assms by (simp add: len_def unat_of_nat)
  have r: "u32le_at x 0 = (Ok sec :: (unit, _) outcome)" "u32le_at x 4 = (Ok usec :: (unit, _) outcome)"
    "u32le_at x 8 = (Ok len :: (unit, _) outcome)"
    unfolding x using le_at_append(2) [of 0 "[]" sec] le_at_append(2) [of 4 "put_le 4 (unat sec)" usec]
      le_at_append(2) [of 8 "put_le 4 (unat sec) @ put_le 4 (unat usec)" len] by simp_all
  have l: "length x = 16 + length d + length b" by (simp add: x)
  have w: "le32 (x ! 0) (x ! 1) (x ! 2) (x ! 3) = sec" "le32 (x ! 4) (x ! 5) (x ! 6) (x ! 7) = usec"
    "le32 (x ! 8) (x ! 9) (x ! 10) (x ! 11) = len"
    using r l by (simp_all add: numeral_2_eq_2)
  have d: "take (length d) (drop 16 x) = d" "drop (16 + length d) x = b" by (simp_all add: x)
  have "read_records x = map_option (\<lambda>rs. (sec, usec, d) # rs) (read_records b)"
    using l by (subst read_records.simps) (auto simp: Let_def w [unfolded One_nat_def] n d)
  then show ?thesis by (simp add: x_def stamped_def sec_def usec_def)
qed

lemma read_records_all:
  "\<forall>r \<in> set rs. length (snd r) < 2 ^ 32 \<Longrightarrow> read_records (concat (map pcap_record rs)) = Some (map stamped rs)"
proof (induction rs)
  case Nil
  then show ?case by (simp add: read_records.simps)
next
  case (Cons r rs)
  then show ?case using read_records_record [of "snd r" "fst r"] by simp
qed

lemma read_pcap_file:
  "\<forall>r \<in> set rs. length (snd r) < 2 ^ 32 \<Longrightarrow> read_pcap (pcap_file rs) = Some (map stamped rs)"
  by (simp add: read_pcap_def pcap_file_def read_records_all) (simp add: pcap_header_def)

subsection \<open>The directory holds the capture\<close>

definition fs_wf :: "fs \<Rightarrow> bool" where
  "fs_wf s \<longleftrightarrow> (\<forall>n i. fs_dir s n = Some (File i) \<longrightarrow> i < fs_next s) \<and>
     (\<forall>n m i. fs_dir s n = Some (File i) \<longrightarrow> fs_dir s m = Some (File i) \<longrightarrow> n = m)"

definition holds_period :: "(int \<Rightarrow> string) \<Rightarrow> fs \<Rightarrow> int \<times> (int \<times> bytes) list \<Rightarrow> bool" where
  "holds_period fmt_time s p \<longleftrightarrow>
     (\<exists>i. fs_dir s (pcap_name fmt_time (fst p)) = Some (File i) \<and> fs_data s i = pcap_file (snd p))"

definition at_head :: "(int \<Rightarrow> string) \<Rightarrow> PcapWriter \<Rightarrow> fs \<Rightarrow> capture \<Rightarrow> bool" where
  "at_head fmt_time w s ps \<longleftrightarrow>
     (case ps of
        [] \<Rightarrow> pw_current w = None
      | p # _ \<Rightarrow> pw_startTime w = fst p \<and>
          (\<exists>i. pw_current w = Some (i, True) \<and> fs_dir s (pcap_name fmt_time (fst p)) = Some (File i)))"

definition capture_ok :: "(int \<Rightarrow> string) \<Rightarrow> fs \<Rightarrow> int \<Rightarrow> PcapWriter \<Rightarrow> fs \<Rightarrow> capture \<Rightarrow> bool" where
  "capture_ok fmt_time s0 u w s ps \<longleftrightarrow>
     pw_units w = u \<and> fs_wf s \<and> at_head fmt_time w s ps \<and> (\<forall>p \<in> set ps. holds_period fmt_time s p) \<and>
     (\<forall>n. fs_dir s n \<noteq> None \<longrightarrow> fs_dir s0 n \<noteq> None \<or> (\<exists>p \<in> set ps. n = pcap_name fmt_time (fst p))) \<and>
     distinct (map (pcap_name fmt_time \<circ> fst) ps)"

definition env_ok :: "pcap_env \<Rightarrow> bytes \<Rightarrow> bool" where
  "env_ok env d \<longleftrightarrow> pe_create env = None \<and> 24 \<le> pe_room env \<and> 16 + length d \<le> pe_room env"

lemma capture_okD:
  assumes "capture_ok fmt_time s0 u w s ps"
  shows "pw_units w = u" "fs_wf s" "at_head fmt_time w s ps" "p \<in> set ps \<Longrightarrow> holds_period fmt_time s p"
    and "fs_dir s n \<noteq> None \<Longrightarrow> fs_dir s0 n \<noteq> None \<or> (\<exists>p \<in> set ps. n = pcap_name fmt_time (fst p))"
    and "distinct (map (pcap_name fmt_time \<circ> fst) ps)"
  using assms unfolding capture_ok_def by blast+

lemma rotate_ok:
  assumes ok: "capture_ok fmt_time s0 u w s ps" and env: "env_ok env d"
    and fresh: "fs_dir s0 (pcap_name fmt_time (pe_now env)) = None"
      "\<forall>p \<in> set ps. pcap_name fmt_time (fst p) \<noteq> pcap_name fmt_time (pe_now env)"
    and w': "pw_units w' = u"
  shows "\<exists>w'' s'. rotate fmt_time env w' s = (w'', s', Ok ()) \<and>
           capture_ok fmt_time s0 u w'' s' ((pe_now env, []) # ps)"
proof -
  let ?n = "pcap_name fmt_time (pe_now env)" and ?i = "fs_next s"
  have none: "fs_dir s ?n = None"
    using capture_okD(5) [OF ok, of ?n] fresh by (cases "fs_dir s ?n") auto
  define s' where "s' = s\<lparr>fs_dir := (fs_dir s)(?n := Some (File ?i)), fs_data := (fs_data s)(?i := pcap_header),
    fs_mtime := (fs_mtime s)(?i := pe_now env), fs_next := ?i + 1\<rparr>"
  have run: "rotate fmt_time env w' s = (w'\<lparr>pw_current := Some (?i, True), pw_startTime := pe_now env\<rparr>, s', Ok ())"
    using env none by (simp add: rotate_def env_ok_def os_Create_def file_Write_def s'_def Let_def)
  have wf: "fs_wf s" using capture_okD(2) [OF ok] .
  then have below: "fs_dir s n = Some (File i) \<Longrightarrow> i < ?i" for n i
    by (simp add: fs_wf_def)
  have "fs_wf s'"
    using wf below [of _ ?i] by (auto simp: fs_wf_def s'_def less_SucI split: if_splits)
  moreover have "holds_period fmt_time s' p" if p: "p \<in> set ps" for p
  proof -
    obtain i where i: "fs_dir s (pcap_name fmt_time (fst p)) = Some (File i)" "fs_data s i = pcap_file (snd p)"
      using capture_okD(4) [OF ok p] by (auto simp: holds_period_def)
    then have "i < ?i" by (simp add: below)
    with i fresh(2) p show ?thesis by (auto simp: holds_period_def s'_def)
  qed
  moreover have "holds_period fmt_time s' (pe_now env, [])"
    by (simp add: holds_period_def s'_def pcap_file_def)
  moreover have "fs_dir s0 n \<noteq> None \<or> (\<exists>p \<in> set ((pe_now env, []) # ps). n = pcap_name fmt_time (fst p))"
    if "fs_dir s' n \<noteq> None" for n
    using that capture_okD(5) [OF ok, of n] by (cases "n = ?n") (simp_all add: s'_def)
  moreover have "distinct (map (pcap_name fmt_time \<circ> fst) ((pe_now env, []) # ps))"
    using capture_okD(6) [OF ok] fresh(2) by auto
  ultimately have "capture_ok fmt_time s0 u (w'\<lparr>pw_current := Some (?i, True), pw_startTime := pe_now env\<rparr>) s'
      ((pe_now env, []) # ps)"
    using w' unfolding capture_ok_def by (simp add: at_head_def s'_def)
  with run show ?thesis by blast
qed

lemma append_ok:
  assumes ok: "capture_ok fmt_time s0 u w s (p # ps)" and env: "env_ok env d"
    and within: "pe_now env - fst p < u"
  shows "\<exists>s'. pcap_Write fmt_time env d w s = (w, s', Ok ()) \<and>
           capture_ok fmt_time s0 u w s' ((fst p, snd p @ [(pe_now env, d)]) # ps)"
proof -
  let ?n = "pcap_name fmt_time (fst p)"
  obtain i where i: "pw_current w = Some (i, True)" "fs_dir s ?n = Some (File i)" "pw_startTime w = fst p"
    using capture_okD(3) [OF ok] by (auto simp: at_head_def)
  have wf: "fs_wf s" and u: "pw_units w = u" using capture_okD(1,2) [OF ok] by simp_all
  have data: "fs_data s i = pcap_file (snd p)"
    using capture_okD(4) [OF ok, of p] i(2) by (auto simp: holds_period_def)
  define s' where "s' = s\<lparr>fs_data := (fs_data s)(i := pcap_file (snd p @ [(pe_now env, d)])),
    fs_mtime := (fs_mtime s)(i := pe_now env)\<rparr>"
  have room: "take (pe_room env) (pcap_packet_header (pe_now env) d) = pcap_packet_header (pe_now env) d"
      "take (pe_room env - 16) d = d"
    using env by (auto simp: env_ok_def)
  have run: "pcap_Write fmt_time env d w s = (w, s', Ok ())"
    using i within u data
    by (simp add: pcap_Write_def file_Write_def s'_def pcap_file_def pcap_record_def Let_def room)
  have "holds_period fmt_time s' q" if "q \<in> set ps" for q
  proof -
    from that have "q \<in> set (p # ps)" by simp
    then obtain j where j: "fs_dir s (pcap_name fmt_time (fst q)) = Some (File j)" "fs_data s j = pcap_file (snd q)"
      using capture_okD(4) [OF ok] unfolding holds_period_def by blast
    have "pcap_name fmt_time (fst p) \<notin> (\<lambda>q. pcap_name fmt_time (fst q)) ` set ps"
      using capture_okD(6) [OF ok] by (simp add: comp_def)
    then have "pcap_name fmt_time (fst q) \<noteq> ?n" using that by (metis image_eqI)
    then have "j \<noteq> i" using wf i(2) j(1) by (auto simp: fs_wf_def)
    with j show ?thesis by (auto simp: holds_period_def s'_def)
  qed
  moreover have "fs_wf s'" using wf by (simp add: fs_wf_def s'_def)
  moreover have "holds_period fmt_time s' (fst p, snd p @ [(pe_now env, d)])"
    using i(2) by (simp add: holds_period_def s'_def)
  moreover have "at_head fmt_time w s' ((fst p, snd p @ [(pe_now env, d)]) # ps)"
    using i by (simp add: at_head_def s'_def)
  moreover have "fs_dir s' = fs_dir s" by (simp add: s'_def)
  ultimately have "capture_ok fmt_time s0 u w s' ((fst p, snd p @ [(pe_now env, d)]) # ps)"
    using capture_okD(1,5,6) [OF ok] unfolding capture_ok_def by simp
  with run show ?thesis by blast
qed

text \<open>Periods begin at least \<open>u\<close> apart, so their files have different names when \<open>u\<close> is a second or more.\<close>

definition names_seconds :: "(int \<Rightarrow> string) \<Rightarrow> bool" where
  "names_seconds fmt_time \<longleftrightarrow> (\<forall>a b. fmt_time a = fmt_time b \<longrightarrow> a div 1000000000 = b div 1000000000)"

definition descending :: "int \<Rightarrow> capture \<Rightarrow> bool" where
  "descending u ps \<longleftrightarrow> sorted_wrt (\<lambda>p q. fst q + u \<le> fst p) ps"

lemma descending_head: "descending u (p # ps) \<Longrightarrow> 0 \<le> u \<Longrightarrow> q \<in> set (p # ps) \<Longrightarrow> fst q \<le> fst p"
  by (auto simp: descending_def)

lemma descending_write: "descending u ps \<Longrightarrow> 0 \<le> u \<Longrightarrow> descending u (capture_write u now d ps)"
  by (cases "(u, now, d, ps)" rule: capture_write.cases) (auto simp: descending_def)

lemma pcap_name_apart:
  assumes "names_seconds fmt_time" and "a + 1000000000 \<le> b"
  shows "pcap_name fmt_time a \<noteq> pcap_name fmt_time b"
proof
  assume "pcap_name fmt_time a = pcap_name fmt_time b"
  then have "fmt_time a = fmt_time b" by (simp add: pcap_name_def)
  then have "a div 1000000000 = b div 1000000000"
    using assms(1) unfolding names_seconds_def by blast
  moreover have "(a + 1000000000) div 1000000000 \<le> b div 1000000000"
    using assms(2) by (intro zdiv_mono1) simp_all
  ultimately show False by simp
qed

lemma pcap_Write_refines:
  assumes ok: "capture_ok fmt_time s0 u w s ps" and env: "env_ok env d"
    and u: "1000000000 \<le> u" "descending u ps" "names_seconds fmt_time"
    and fresh: "fs_dir s0 (pcap_name fmt_time (pe_now env)) = None"
  shows "\<exists>w' s'. pcap_Write fmt_time env d w s = (w', s', Ok ()) \<and>
           capture_ok fmt_time s0 u w' s' (capture_write u (pe_now env) d ps)"
proof (cases ps)
  case Nil
  with ok have "pcap_Write fmt_time env d w s = rotate fmt_time env w s" "pw_units w = u"
    by (simp_all add: pcap_Write_def capture_ok_def at_head_def)
  with Nil rotate_ok [OF ok env fresh, of w] show ?thesis by simp
next
  case (Cons p qs)
  obtain f where f: "pw_current w = Some f" "pw_startTime w = fst p" "pw_units w = u"
    using ok Cons by (auto simp: capture_ok_def at_head_def)
  show ?thesis
  proof (cases "pe_now env - fst p \<ge> u")
    case True
    have far: "\<forall>q \<in> set ps. pcap_name fmt_time (fst q) \<noteq> pcap_name fmt_time (pe_now env)"
    proof
      fix q assume "q \<in> set ps"
      then have "fst q \<le> fst p" using descending_head [of u p qs q] u Cons by simp
      with True u(1) have "fst q + 1000000000 \<le> pe_now env" by linarith
      with u(3) show "pcap_name fmt_time (fst q) \<noteq> pcap_name fmt_time (pe_now env)" by (rule pcap_name_apart)
    qed
    have "pcap_Write fmt_time env d w s = rotate fmt_time env (w\<lparr>pw_current := Some (file_Close f)\<rparr>) s"
      using f True by (simp add: pcap_Write_def)
    with rotate_ok [OF ok env fresh far, of "w\<lparr>pw_current := Some (file_Close f)\<rparr>"] f True Cons
    show ?thesis by (cases p) simp
  next
    case False
    with append_ok [OF _ env, of fmt_time s0 u w s p qs] ok Cons show ?thesis
      by (cases p) (simp, blast)
  qed
qed

lemma pcap_writes_refine:
  assumes "capture_ok fmt_time s0 u w s ps" and "1000000000 \<le> u" "descending u ps" "names_seconds fmt_time"
    and "\<forall>(env, d) \<in> set ws. env_ok env d \<and> fs_dir s0 (pcap_name fmt_time (pe_now env)) = None"
  shows "\<exists>w' s'. pcap_writes fmt_time ws w s = (w', s', length ws) \<and>
           capture_ok fmt_time s0 u w' s' (fold (\<lambda>(env, d). capture_write u (pe_now env) d) ws ps)"
  using assms(1,3,5)
proof (induction ws arbitrary: w s ps)
  case Nil
  then show ?case by simp
next
  case (Cons x ws)
  obtain env d where x: "x = (env, d)" by (cases x)
  from Cons.prems x obtain w1 s1 where step: "pcap_Write fmt_time env d w s = (w1, s1, Ok ())"
    "capture_ok fmt_time s0 u w1 s1 (capture_write u (pe_now env) d ps)"
    using pcap_Write_refines [OF Cons.prems(1) _ assms(2) Cons.prems(2) assms(4), of env d] by auto
  moreover have "descending u (capture_write u (pe_now env) d ps)"
    using Cons.prems(2) assms(2) by (simp add: descending_write)
  moreover have "\<forall>(env, d) \<in> set ws. env_ok env d \<and> fs_dir s0 (pcap_name fmt_time (pe_now env)) = None"
    using Cons.prems(3) by simp
  ultimately obtain w' s' where "pcap_writes fmt_time ws w1 s1 = (w', s', length ws)"
    "capture_ok fmt_time s0 u w' s' (fold (\<lambda>(env, d). capture_write u (pe_now env) d) ws (capture_write u (pe_now env) d ps))"
    using Cons.IH by blast
  with step x show ?case by simp
qed

lemma capture_lengths:
  "sum_list (map (length \<circ> snd) (capture_write u now d ps)) + length (capture_write u now d ps) =
   sum_list (map (length \<circ> snd) ps) + length ps + 1"
  by (cases "(u, now, d, ps)" rule: capture_write.cases) auto

lemma capture_of_lengths:
  "sum_list (map (length \<circ> snd) (capture_of u ws)) + length (capture_of u ws) = length ws"
proof -
  have "sum_list (map (length \<circ> snd) (fold (\<lambda>(env, d). capture_write u (pe_now env) d) ws ps)) +
      length (fold (\<lambda>(env, d). capture_write u (pe_now env) d) ws ps) =
      sum_list (map (length \<circ> snd) ps) + length ps + length ws" for ps
    by (induction ws arbitrary: ps) (simp_all add: case_prod_beta capture_lengths [simplified])
  from this [of "[]"] show ?thesis by (simp add: capture_of_def)
qed

lemma capture_packets:
  "p \<in> set (capture_write u now d ps) \<Longrightarrow> r \<in> set (snd p) \<Longrightarrow> snd r = d \<or> (\<exists>p \<in> set ps. r \<in> set (snd p))"
  by (cases "(u, now, d, ps)" rule: capture_write.cases) (auto split: if_splits)

lemma capture_of_packets:
  assumes "p \<in> set (capture_of u ws)" "r \<in> set (snd p)"
  shows "snd r \<in> snd ` set ws"
proof -
  have "p \<in> set (fold (\<lambda>(env, d). capture_write u (pe_now env) d) ws ps) \<Longrightarrow>
      \<forall>p \<in> set ps. \<forall>r \<in> set (snd p). snd r \<in> D \<Longrightarrow> snd ` set ws \<subseteq> D \<Longrightarrow> snd r \<in> D" for ps D
  proof (induction ws arbitrary: ps)
    case Nil
    then show ?case using assms(2) by simp
  next
    case (Cons x ws)
    have "\<forall>q \<in> set (capture_write u (pe_now (fst x)) (snd x) ps). \<forall>r \<in> set (snd q). snd r \<in> D"
    proof (intro ballI)
      fix q r assume "q \<in> set (capture_write u (pe_now (fst x)) (snd x) ps)" "r \<in> set (snd q)"
      then have "snd r = snd x \<or> (\<exists>p \<in> set ps. r \<in> set (snd p))" by (rule capture_packets)
      then show "snd r \<in> D" using Cons.prems(2,3) by auto
    qed
    with Cons show ?case by (simp add: case_prod_beta)
  qed
  from this [of "[]" "snd ` set ws"] assms(1) show ?thesis by (simp add: capture_of_def)
qed

text \<open>C3.  The capture on disk: for every sequence of packets written while the device has room, with file
  names that tell the seconds apart and periods of a second or more, each period has a file, and a
  pcap reader finds in it exactly the packets of the period in order, with their times.  Every call
  reports success, but the packet that begins a period is in no file: the files together hold one
  packet less per period than were reported written.\<close>

theorem pcap_files_exact:
  assumes "NewPcapWriter None dir units expires = Ok w" and "1000000000 \<le> pw_units w"
    and "names_seconds fmt_time" and "fs_wf s"
    and "\<forall>(env, d) \<in> set ws. env_ok env d \<and> length d < 2 ^ 32 \<and>
           fs_dir s (pcap_name fmt_time (pe_now env)) = None"
  shows "\<exists>w' s'. pcap_writes fmt_time ws w s = (w', s', length ws) \<and>
     (\<forall>(st, rs) \<in> set (capture_of (pw_units w) ws). \<exists>i.
        fs_dir s' (pcap_name fmt_time st) = Some (File i) \<and> read_pcap (fs_data s' i) = Some (map stamped rs)) \<and>
     sum_list (map (length \<circ> snd) (capture_of (pw_units w) ws)) + length (capture_of (pw_units w) ws) = length ws"
proof -
  let ?u = "pw_units w"
  have "pw_current w = None" using assms(1) by (auto simp: NewPcapWriter_def)
  then have "capture_ok fmt_time s ?u w s []" using assms(4) by (simp add: capture_ok_def at_head_def)
  moreover have "descending ?u []" by (simp add: descending_def)
  moreover have "\<forall>(env, d) \<in> set ws. env_ok env d \<and> fs_dir s (pcap_name fmt_time (pe_now env)) = None"
    using assms(5) by auto
  ultimately obtain w' s' where run: "pcap_writes fmt_time ws w s = (w', s', length ws)"
    and ok: "capture_ok fmt_time s ?u w' s' (capture_of ?u ws)"
    using pcap_writes_refine [of fmt_time s ?u w s "[]" ws] assms(2,3) unfolding capture_of_def by blast
  have "\<exists>i. fs_dir s' (pcap_name fmt_time (fst p)) = Some (File i) \<and> read_pcap (fs_data s' i) = Some (map stamped (snd p))"
    if p: "p \<in> set (capture_of ?u ws)" for p
  proof -
    have "\<forall>d \<in> snd ` set ws. length d < 2 ^ 32" using assms(5) by auto
    then have "\<forall>r \<in> set (snd p). length (snd r) < 2 ^ 32" using capture_of_packets [OF p] by blast
    then have "read_pcap (pcap_file (snd p)) = Some (map stamped (snd p))" by (rule read_pcap_file)
    with capture_okD(4) [OF ok p] show ?thesis unfolding holds_period_def by metis
  qed
  then have "\<forall>(st, rs) \<in> set (capture_of ?u ws). \<exists>i.
      fs_dir s' (pcap_name fmt_time st) = Some (File i) \<and> read_pcap (fs_data s' i) = Some (map stamped rs)"
    by (simp add: case_prod_beta)
  with run capture_of_lengths [of ?u ws] show ?thesis by blast
qed

definition unary_time :: "int \<Rightarrow> string" where
  "unary_time t =
     (let k = t div 1000000000 in
      if k \<ge> 0 then CHR ''+'' # replicate (nat k) CHR ''0'' else CHR ''-'' # replicate (nat (- k)) CHR ''0'')"

lemma names_seconds_unary: "names_seconds unary_time"
proof (unfold names_seconds_def, intro allI impI)
  fix a b assume "unary_time a = unary_time b"
  then have "length (unary_time a) = length (unary_time b)" "hd (unary_time a) = hd (unary_time b)" by simp_all
  then show "a div 1000000000 = b div 1000000000"
    by (auto simp: unary_time_def Let_def split: if_splits)
qed

lemma ParseDuration_examples:
  "ParseDuration ''1m'' = Some 60000000000" "ParseDuration ''1.5h'' = Some 5400000000000"
  "ParseDuration ''72h'' = Some 259200000000000" "ParseDuration ''5'' = None"
  by (simp_all add: ParseDuration_def duration_loop.simps duration_part_def unitMap_def is_digit_def digit_val_def Let_def)

definition pcap_env_at :: "int \<Rightarrow> pcap_env" where
  "pcap_env_at t = \<lparr>pe_now = t, pe_create = None, pe_room = 1000\<rparr>"

theorem pcap_files_exact_witness:
  "\<exists>w w' s' i. NewPcapWriter None ''/data'' ''1m'' ''72h'' = Ok w \<and>
     pcap_writes unary_time [(pcap_env_at 0, [9]), (pcap_env_at 500000000, [1, 2]), (pcap_env_at 70000000000, [7])] w
       \<lparr>fs_dir = Map.empty, fs_data = (\<lambda>_. []), fs_mtime = (\<lambda>_. 0), fs_next = 0\<rparr> = (w', s', 3) \<and>
     fs_dir s' (pcap_name unary_time 0) = Some (File i) \<and>
     read_pcap (fs_data s' i) = Some [(0, 500000, [1, 2])]"
proof -
  let ?s = "\<lparr>fs_dir = Map.empty, fs_data = (\<lambda>_. []), fs_mtime = (\<lambda>_. 0), fs_next = 0\<rparr> :: fs"
  let ?ws = "[(pcap_env_at 0, [9]), (pcap_env_at 500000000, [1, 2]), (pcap_env_at 70000000000, [7])] :: (pcap_env \<times> bytes) list"
  obtain w where w: "NewPcapWriter None ''/data'' ''1m'' ''72h'' = Ok w" "pw_units w = 60000000000"
    by (auto simp: NewPcapWriter_def ParseDuration_examples)
  have cap: "capture_of (pw_units w) ?ws = [(70000000000, []), (0, [(500000000, [1, 2])])]"
    by (simp add: capture_of_def w(2) pcap_env_at_def)
  have h: "\<forall>(env, d) \<in> set ?ws. env_ok env d \<and> length d < 2 ^ 32 \<and> fs_dir ?s (pcap_name unary_time (pe_now env)) = None"
    by (simp add: env_ok_def pcap_env_at_def)
  have u: "1000000000 \<le> pw_units w" and s: "fs_wf ?s" using w(2) by (simp_all add: fs_wf_def)
  obtain w' s' where run: "pcap_writes unary_time ?ws w ?s = (w', s', length ?ws)"
    and files: "\<forall>(st, rs) \<in> set (capture_of (pw_units w) ?ws). \<exists>i.
        fs_dir s' (pcap_name unary_time st) = Some (File i) \<and> read_pcap (fs_data s' i) = Some (map stamped rs)"
    using pcap_files_exact [OF w(1) u names_seconds_unary s h] by blast
  from run have "pcap_writes unary_time ?ws w ?s = (w', s', 3)" by (simp del: pcap_writes.simps)
  moreover from files have "\<exists>i. fs_dir s' (pcap_name unary_time 0) = Some (File i) \<and>
      read_pcap (fs_data s' i) = Some [(0, 500000, [1, 2])]"
    unfolding cap by (simp add: stamped_def)
  ultimately show ?thesis using w(1) by blast
qed

subsection \<open>Expired files\<close>

definition expired :: "int \<Rightarrow> (string \<Rightarrow> bool) \<Rightarrow> (string \<Rightarrow> bool) \<Rightarrow> fs \<Rightarrow> string \<Rightarrow> bool" where
  "expired cutoff info removed s n \<longleftrightarrow>
     (case fs_dir s n of Some (File i) \<Rightarrow> info n \<and> removed n \<and> fs_mtime s i < cutoff | _ \<Rightarrow> False)"

lemma cleanup_entry_alt:
  "cleanup_entry c info removed n s = (if expired c info removed s n then s\<lparr>fs_dir := (fs_dir s)(n := None)\<rparr> else s)"
  by (simp add: cleanup_entry_def expired_def split: option.splits dirent.splits)

lemma fs_dir_eqI: "(\<And>n. d n = d' n) \<Longrightarrow> s\<lparr>fs_dir := d\<rparr> = s\<lparr>fs_dir := d'\<rparr>"
  by (simp add: fun_eq_iff)

lemma fold_cleanup:
  "fold (cleanup_entry c info removed) names s =
     s\<lparr>fs_dir := \<lambda>n. if n \<in> set names \<and> expired c info removed s n then None else fs_dir s n\<rparr>"
proof (induction names arbitrary: s)
  case Nil
  then show ?case by simp
next
  case (Cons m names)
  have "expired c info removed (s\<lparr>fs_dir := (fs_dir s)(m := None)\<rparr>) n \<longleftrightarrow> n \<noteq> m \<and> expired c info removed s n" for n
    by (auto simp: expired_def split: option.splits dirent.splits)
  note gone = this
  have "fold (cleanup_entry c info removed) (m # names) s =
      s\<lparr>fs_dir := \<lambda>n. if n \<in> set (m # names) \<and> expired c info removed s n then None else fs_dir s n\<rparr>"
    if "expired c info removed s m"
    using that by (simp add: Cons.IH cleanup_entry_alt gone) (rule fs_dir_eqI, simp)
  moreover have "fold (cleanup_entry c info removed) (m # names) s =
      s\<lparr>fs_dir := \<lambda>n. if n \<in> set (m # names) \<and> expired c info removed s n then None else fs_dir s n\<rparr>"
    if "\<not> expired c info removed s m"
    using that by (simp add: Cons.IH cleanup_entry_alt) (rule fs_dir_eqI, auto)
  ultimately show ?case by blast
qed

text \<open>Cleaning up removes exactly the files whose last write is older than \<open>expires\<close>, whatever is in
  the directory: younger files, subdirectories, entries that cannot be inspected and the contents of
  all files stay as they are.\<close>

theorem pcap_cleanup_exact:
  "pcap_cleanup now (Some names) (\<lambda>_. True) (\<lambda>_. True) w s =
     s\<lparr>fs_dir := \<lambda>n. case fs_dir s n of
        Some (File i) \<Rightarrow> if n \<in> set names \<and> fs_mtime s i < now - pw_expires w then None else Some (File i)
      | x \<Rightarrow> x\<rparr>"
  unfolding pcap_cleanup_def option.case fold_cleanup
  by (rule fs_dir_eqI) (simp add: expired_def split: option.splits dirent.splits)

end
