(* ===== verification/Vtap.thy ===== *)
theory Vtap
  imports Pcap Lifecycle
begin

text \<open>
  The vTap collector, \<open>src/internal/collector/vtap.go\<close>: the forwarder that buffers packets for a UDP
  target, and the collector that receives packets into a bounded queue, writes them with the pcap
  writer (theory \<open>Pcap\<close>), counts them and reads their addresses.

  \<open>vtap_step\<close> is the collector as its goroutines run it: \<open>receiveLoop\<close> puts a packet into the queue or drops
  it, \<open>processLoop\<close> takes one out and handles it or flushes the forwarder, and \<open>Stop\<close> may come at any time.
  The answers of the operating system to the set-up calls are the record \<open>vtap_env\<close> (\<open>None\<close> for no error).
\<close>

section \<open>The forwarder\<close>

text \<open>\<open>fw_conn\<close> is the connection: \<open>None\<close> is nil, \<open>Some b\<close> a connection that is open or not.  What \<open>Flush\<close> hands
  to an open connection is returned with the new state; the errors of \<open>conn.Write\<close> are ignored.\<close>

record Forwarder =
  fw_conn :: "bool option"
  fw_target :: string
  fw_buf :: "bytes list"
  fw_stopped :: bool

definition NewForwarder :: "string \<Rightarrow> Forwarder" where
  "NewForwarder target = \<lparr>fw_conn = None, fw_target = target, fw_buf = [], fw_stopped = False\<rparr>"

definition fw_Start :: "string option \<Rightarrow> Forwarder \<Rightarrow> (string, Forwarder) outcome" where
  "fw_Start dial f = (case dial of Some err \<Rightarrow> Err err | None \<Rightarrow> Ok (f\<lparr>fw_conn := Some True\<rparr>))"

definition fw_Flush :: "Forwarder \<Rightarrow> ('e, Forwarder \<times> bytes list) outcome" where
  "fw_Flush f =
     (if length (fw_buf f) = 0 then Ok (f, [])
      else let batch = fw_buf f; f = f\<lparr>fw_buf := []\<rparr> in
        case fw_conn f of
          None \<Rightarrow> Panic
        | Some is_open \<Rightarrow> Ok (f, if is_open then batch else []))"


definition fw_Stop :: "Forwarder \<Rightarrow> ('e, Forwarder \<times> bytes list) outcome" where
  "fw_Stop f =
     (if fw_stopped f then Panic
      else obind (fw_Flush (f\<lparr>fw_stopped := True\<rparr>)) (\<lambda>(f, out).
        Ok (f\<lparr>fw_conn := map_option (\<lambda>_. False) (fw_conn f)\<rparr>, out)))"

section \<open>The collector\<close>

datatype VTapMode = VTapCapture | VTapReceiver

record VTapConfig =
  vc_Enabled :: bool
  vc_Mode :: string
  vc_Interface :: string
  vc_SnapLen :: int
  vc_BufSize :: int
  vc_PktType :: int
  vc_DupPkts :: int
  vc_DupSize :: int
  vc_IP :: string
  vc_Port :: int
  vc_OutInterface :: string
  vc_WriteEnabled :: bool
  vc_WriteUnits :: string
  vc_WriteExpires :: string
  vc_WritePath :: string
  vc_TargetIP :: string
  vc_TargetPort :: int

record VTapStats =
  vs_Received :: "64 word"
  vs_Dropped :: "64 word"
  vs_Forwarded :: "64 word"
  vs_Written :: "64 word"

text \<open>\<open>vt_conn\<close> as in the forwarder; \<open>vt_stopped\<close> says that \<open>stopCh\<close> is closed; \<open>vt_packets\<close> is the content of
  the channel.\<close>

record VTapCollector =
  vt_config :: VTapConfig
  vt_mode :: VTapMode
  vt_conn :: "bool option"
  vt_writer :: "PcapWriter option"
  vt_forwarder :: "Forwarder option"
  vt_running :: bool
  vt_stopped :: bool
  vt_packets :: "bytes list"
  vt_stats :: VTapStats



record vtap_env =
  ve_mkdir :: "string option"
  ve_dial :: "string option"
  ve_iface :: "string option"
  ve_resolve :: "string option"
  ve_listen :: "string option"

datatype vtap_error = VTapInterface string string | VTapResolve string | VTapListen string

definition startCapture :: "vtap_env \<Rightarrow> VTapCollector \<Rightarrow> (vtap_error, unit) outcome" where
  "startCapture env v =
     (let iface = (if vc_Interface (vt_config v) = '''' then ''any'' else vc_Interface (vt_config v)) in
      case ve_iface env of
        Some err \<Rightarrow> if iface \<noteq> ''any'' then Err (VTapInterface iface err) else Ok ()
      | None \<Rightarrow> Ok ())"

definition startReceiver :: "vtap_env \<Rightarrow> VTapCollector \<Rightarrow> (vtap_error, VTapCollector) outcome" where
  "startReceiver env v =
     (case ve_resolve env of
        Some err \<Rightarrow> Err (VTapResolve err)
      | None \<Rightarrow>
          (case ve_listen env of
             Some err \<Rightarrow> Err (VTapListen err)
           | None \<Rightarrow> Ok (v\<lparr>vt_conn := Some True\<rparr>)))"

text \<open>The two set-up steps of \<open>Start\<close>, whose failures are only logged.\<close>

definition start_writer :: "vtap_env \<Rightarrow> VTapCollector \<Rightarrow> VTapCollector" where
  "start_writer env v =
     (let c = vt_config v in
      if vc_WriteEnabled c
      then (case NewPcapWriter (ve_mkdir env) (vc_WritePath c) (vc_WriteUnits c) (vc_WriteExpires c) of
              Ok w \<Rightarrow> v\<lparr>vt_writer := Some w\<rparr>
            | _ \<Rightarrow> v)
      else v)"

definition start_forwarder :: "vtap_env \<Rightarrow> VTapCollector \<Rightarrow> VTapCollector" where
  "start_forwarder env v =
     (let c = vt_config v in
      if vt_mode v = VTapCapture \<and> vc_TargetIP c \<noteq> ''''
      then (case fw_Start (ve_dial env) (NewForwarder (vc_TargetIP c @ '':'' @ dec_int (vc_TargetPort c))) of
              Ok f \<Rightarrow> v\<lparr>vt_forwarder := Some f\<rparr>
            | _ \<Rightarrow> v)
      else v)"

text \<open>\<open>Start\<close> returns the state too when it fails: what the set-up steps did stays.\<close>

definition vt_Start :: "vtap_env \<Rightarrow> VTapCollector \<Rightarrow> VTapCollector \<times> (vtap_error, unit) outcome" where
  "vt_Start env v =
     (if vt_running v then (v, Ok ())
      else let v = start_writer env v; v = start_forwarder env v in
        case vt_mode v of
          VTapCapture \<Rightarrow>
            (case startCapture env v of
               Ok _ \<Rightarrow> (v\<lparr>vt_running := True\<rparr>, Ok ())
             | Err e \<Rightarrow> (v, Err e)
             | Panic \<Rightarrow> (v, Panic))
        | VTapReceiver \<Rightarrow>
            (case startReceiver env v of
               Ok v \<Rightarrow> (v\<lparr>vt_running := True\<rparr>, Ok ())
             | Err e \<Rightarrow> (v, Err e)
             | Panic \<Rightarrow> (v, Panic)))"

text \<open>\<open>Stop\<close>: closing a channel that is closed panics, in the collector, in the writer and in the forwarder.\<close>

definition vt_Stop :: "VTapCollector \<Rightarrow> ('e, VTapCollector \<times> bytes list) outcome" where
  "vt_Stop v =
     (if \<not> vt_running v then Ok (v, [])
      else if vt_stopped v then Panic
      else
        let v = v\<lparr>vt_stopped := True, vt_conn := map_option (\<lambda>_. False) (vt_conn v)\<rparr> in
        obind (case vt_writer v of
                 None \<Rightarrow> Ok v
               | Some w \<Rightarrow> obind (pcap_Close w) (\<lambda>w. Ok (v\<lparr>vt_writer := Some w\<rparr>))) (\<lambda>v.
        obind (case vt_forwarder v of
                 None \<Rightarrow> Ok (v, [])
               | Some f \<Rightarrow> obind (fw_Stop f) (\<lambda>(f, out). Ok (v\<lparr>vt_forwarder := Some f\<rparr>, out))) (\<lambda>(v, out).
        Ok (v\<lparr>vt_running := False\<rparr>, out))))"

record vtap_status =
  st_running :: bool
  st_mode :: string
  st_port :: int
  st_received :: "64 word"
  st_dropped :: "64 word"
  st_written :: "64 word"
  st_forwarded :: "64 word"

definition vt_Status :: "VTapCollector \<Rightarrow> vtap_status" where
  "vt_Status v =
     \<lparr>st_running = vt_running v, st_mode = vc_Mode (vt_config v), st_port = vc_Port (vt_config v),
      st_received = vs_Received (vt_stats v), st_dropped = vs_Dropped (vt_stats v), st_written = vs_Written (vt_stats v),
      st_forwarded = vs_Forwarded (vt_stats v)\<rparr>"

section \<open>Packets\<close>









section \<open>The forwarder keeps the order\<close>




lemma fw_Flush_open:
  assumes "fw_conn f = Some True"
  shows "fw_Flush f = Ok (f\<lparr>fw_buf := []\<rparr>, fw_buf f)"
proof (cases "fw_buf f = []")
  case True
  then have "f\<lparr>fw_buf := []\<rparr> = f" by (cases f) simp
  with True show ?thesis by (simp add: fw_Flush_def)
next
  case False
  with assms show ?thesis by (simp add: fw_Flush_def Let_def)
qed




section \<open>No packet disappears from the queue\<close>







text \<open>What the set-up steps of \<open>Start\<close> leave alone, and what they make of the writer and the forwarder.\<close>

lemma start_writer_eq: "\<exists>w. start_writer env v = v\<lparr>vt_writer := w\<rparr> \<and> (w = vt_writer v \<or> (\<exists>x. w = Some x \<and> \<not> pw_stopped x))"
proof -
  have "start_writer env v = v \<or> (\<exists>x. start_writer env v = v\<lparr>vt_writer := Some x\<rparr> \<and> \<not> pw_stopped x)"
    by (auto simp: start_writer_def NewPcapWriter_def Let_def split: option.splits)
  moreover have "v\<lparr>vt_writer := vt_writer v\<rparr> = v" by simp
  ultimately show ?thesis by metis
qed

lemma start_forwarder_eq:
  "\<exists>f. start_forwarder env v = v\<lparr>vt_forwarder := f\<rparr> \<and>
     (f = vt_forwarder v \<or> (\<exists>x. f = Some x \<and> \<not> fw_stopped x \<and> fw_conn x = Some True))"
proof -
  have "start_forwarder env v = v \<or>
      (\<exists>x. start_forwarder env v = v\<lparr>vt_forwarder := Some x\<rparr> \<and> \<not> fw_stopped x \<and> fw_conn x = Some True)"
    by (auto simp: start_forwarder_def fw_Start_def NewForwarder_def Let_def split: option.splits)
  moreover have "v\<lparr>vt_forwarder := vt_forwarder v\<rparr> = v" by simp
  ultimately show ?thesis by metis
qed

lemma vt_Start_cases:
  "\<exists>w f. fst (vt_Start env v) \<in> {v, v\<lparr>vt_writer := w, vt_forwarder := f\<rparr>, v\<lparr>vt_writer := w, vt_forwarder := f, vt_running := True\<rparr>,
       v\<lparr>vt_writer := w, vt_forwarder := f, vt_conn := Some True, vt_running := True\<rparr>} \<and>
     (w = vt_writer v \<or> (\<exists>x. w = Some x \<and> \<not> pw_stopped x)) \<and>
     (f = vt_forwarder v \<or> (\<exists>x. f = Some x \<and> \<not> fw_stopped x \<and> fw_conn x = Some True))"
proof -
  obtain w where w: "start_writer env v = v\<lparr>vt_writer := w\<rparr>" "w = vt_writer v \<or> (\<exists>x. w = Some x \<and> \<not> pw_stopped x)"
    using start_writer_eq by blast
  obtain f where f: "start_forwarder env (v\<lparr>vt_writer := w\<rparr>) = v\<lparr>vt_writer := w, vt_forwarder := f\<rparr>"
    "f = vt_forwarder v \<or> (\<exists>x. f = Some x \<and> \<not> fw_stopped x \<and> fw_conn x = Some True)"
    using start_forwarder_eq [of env "v\<lparr>vt_writer := w\<rparr>"] by auto
  have "fst (vt_Start env v) \<in> {v, v\<lparr>vt_writer := w, vt_forwarder := f\<rparr>, v\<lparr>vt_writer := w, vt_forwarder := f, vt_running := True\<rparr>,
       v\<lparr>vt_writer := w, vt_forwarder := f, vt_conn := Some True, vt_running := True\<rparr>}"
    unfolding vt_Start_def w(1) f(1) Let_def startReceiver_def
    by (cases "vt_mode v") (auto split: option.split outcome.split)
  with w(2) f(2) show ?thesis by blast
qed











section \<open>Starting and stopping\<close>

definition vtap_start :: "vtap_env \<Rightarrow> VTapCollector \<Rightarrow> VTapCollector" where
  "vtap_start env v = fst (vt_Start env v)"

definition vtap_stop :: "VTapCollector \<Rightarrow> ('e, VTapCollector) outcome" where
  "vtap_stop v = obind (vt_Stop v) (\<lambda>(v, out). Ok v)"

definition vtap_good :: "vtap_env \<Rightarrow> bool" where
  "vtap_good env \<longleftrightarrow> ve_iface env = None \<and> ve_resolve env = None \<and> ve_listen env = None"

text \<open>As long as the collector has not been stopped, neither have its writer and its forwarder.\<close>

definition vtap_inv :: "VTapCollector \<Rightarrow> bool" where
  "vtap_inv v \<longleftrightarrow> vt_stopped v \<or>
     (\<forall>w. vt_writer v = Some w \<longrightarrow> \<not> pw_stopped w) \<and>
     (\<forall>f. vt_forwarder v = Some f \<longrightarrow> \<not> fw_stopped f \<and> fw_conn f = Some True)"

interpretation vtap: lifecycle vtap_start vtap_stop vtap_good vt_running vt_stopped vtap_inv
proof
  fix e :: vtap_env and s :: VTapCollector assume "vtap_good e"
  then show "vt_running (vtap_start e s)"
    by (auto simp: vtap_good_def vtap_start_def vt_Start_def startCapture_def startReceiver_def Let_def
        split: VTapMode.split)
next
  fix e :: vtap_env and s :: VTapCollector
  show "vt_stopped (vtap_start e s) \<longleftrightarrow> vt_stopped s"
    using vt_Start_cases [of e s] unfolding vtap_start_def by (elim exE conjE insertE) simp_all
next
  fix e :: vtap_env and s :: VTapCollector assume "vtap_inv s"
  then show "vtap_inv (vtap_start e s)"
    using vt_Start_cases [of e s] unfolding vtap_start_def by (elim exE conjE insertE) (auto simp: vtap_inv_def)
next
  fix s :: VTapCollector assume "\<not> vt_running s"
  then show "vtap_stop s = (Ok s :: ('e, _) outcome)" by (simp add: vtap_stop_def vt_Stop_def)
next
  fix s :: VTapCollector assume "vt_running s" "vt_stopped s"
  then show "vtap_stop s = (Panic :: ('e, _) outcome)" by (simp add: vtap_stop_def vt_Stop_def)
next
  fix s :: VTapCollector assume a: "vt_running s" "\<not> vt_stopped s" "vtap_inv s"
  then show "\<exists>s'. vtap_stop s = (Ok s' :: ('e, _) outcome) \<and> \<not> vt_running s' \<and> vt_stopped s' \<and> vtap_inv s'"
    by (cases "vt_writer s"; cases "vt_forwarder s";
        simp add: vtap_stop_def vt_Stop_def pcap_Close_def fw_Stop_def fw_Flush_open vtap_inv_def Let_def)
qed

end
