(* ===== verification/Docker.thy ===== *)
theory Docker
  imports Go_Strings
begin

text \<open>
  Containers of processes, \<open>src/internal/collector/docker.go\<close>: the mapper from process numbers to containers,
  which reads the cgroup file of every process, and the functions that find a container's identifier in a
  cgroup path.  The directory \<open>/proc\<close> and the cgroup files are arguments.
\<close>

record ContainerInfo =
  ci_ContainerID :: string
  ci_Name :: string
  ci_Image :: string
  ci_Labels :: "string \<rightharpoonup> string"

record DockerMapper =
  dm_pidToContainer :: "32 word \<rightharpoonup> ContainerInfo"
  dm_stopped :: bool

definition NewDockerMapper :: DockerMapper where
  "NewDockerMapper = \<lparr>dm_pidToContainer = Map.empty, dm_stopped = False\<rparr>"

text \<open>The loops over the segments of a path.\<close>

fun docker_segments :: "string list \<Rightarrow> string option" where
  "docker_segments [] = None"
| "docker_segments (seg # segs) =
     (let cid = TrimSuffix (TrimPrefix seg ''docker-'') ''.scope'' in
      if HasPrefix seg ''docker-'' \<and> HasSuffix seg ''.scope'' \<and> length cid \<ge> 12 then Some cid
      else if length seg = 64 \<or> length seg = 12 then Some seg
      else docker_segments segs)"

fun long_segment :: "string list \<Rightarrow> string option" where
  "long_segment [] = None"
| "long_segment (seg # segs) = (if length seg = 64 then Some seg else long_segment segs)"

definition extractContainerID :: "string \<Rightarrow> string" where
  "extractContainerID cgroupPath =
     (let segments = Split cgroupPath ''/'';
          docker = (if Contains cgroupPath ''docker''
                    then (case docker_segments segments of Some i \<Rightarrow> Some i | None \<Rightarrow> long_segment segments)
                    else None)
      in case docker of
           Some i \<Rightarrow> i
         | None \<Rightarrow>
             if Contains cgroupPath ''containerd''
             then (case long_segment segments of Some i \<Rightarrow> i | None \<Rightarrow> '''')
             else '''')"

text \<open>The loop over the lines of a cgroup file.\<close>

fun cgroup_container :: "string list \<Rightarrow> ContainerInfo option" where
  "cgroup_container [] = None"
| "cgroup_container (line # lines) =
     (let parts = Split line '':'' in
      if length parts \<noteq> 3 then cgroup_container lines
      else let containerID = extractContainerID (parts ! 2) in
        if containerID \<noteq> ''''
        then Some \<lparr>ci_ContainerID = containerID, ci_Name = '''', ci_Image = '''', ci_Labels = Map.empty\<rparr>
        else cgroup_container lines)"

definition getContainerByPID :: "(string \<Rightarrow> string option) \<Rightarrow> 32 word \<Rightarrow> ContainerInfo option" where
  "getContainerByPID read pid =
     (case read (''/proc/'' @ dec (unat pid) @ ''/cgroup'') of
        None \<Rightarrow> None
      | Some data \<Rightarrow> cgroup_container (scan_lines data))"

text \<open>\<open>fmt.Sscanf(name, "%d", &pid)\<close> with a \<open>uint32\<close>: the digits in front of the name, if there are any and their
  value fits; what follows them is ignored.\<close>

definition Sscanf_uint32 :: "string \<Rightarrow> 32 word option" where
  "Sscanf_uint32 s =
     (let tok = takeWhile is_digit s in
      if tok = [] then None
      else case ParseUint tok of
        Inl _ \<Rightarrow> None
      | Inr n \<Rightarrow> if n < 2 ^ 32 then Some (word_of_nat n) else None)"

definition refresh_entry ::
  "(string \<Rightarrow> string option) \<Rightarrow> string \<times> bool \<Rightarrow> (32 word \<rightharpoonup> ContainerInfo) \<Rightarrow> 32 word \<rightharpoonup> ContainerInfo" where
  "refresh_entry read entry newMap =
     (case entry of
        (name, isdir) \<Rightarrow>
          if \<not> isdir then newMap
          else case Sscanf_uint32 name of
            None \<Rightarrow> newMap
          | Some pid \<Rightarrow>
              (case getContainerByPID read pid of
                 None \<Rightarrow> newMap
               | Some info \<Rightarrow> newMap(pid \<mapsto> info)))"

definition refresh ::
  "(string \<times> bool) list option \<Rightarrow> (string \<Rightarrow> string option) \<Rightarrow> DockerMapper \<Rightarrow> DockerMapper" where
  "refresh entries read d =
     (case entries of
        None \<Rightarrow> d
      | Some es \<Rightarrow> d\<lparr>dm_pidToContainer := fold (refresh_entry read) es Map.empty\<rparr>)"

text \<open>\<open>refreshLoop\<close>: once at the start, then at every tick of the timer, until \<open>stopCh\<close> is closed (\<open>None\<close>).  A tick
  comes with what \<open>/proc\<close> shows at that time.\<close>

type_synonym proc_view = "(string \<times> bool) list option \<times> (string \<Rightarrow> string option)"

fun refresh_ticks :: "proc_view option list \<Rightarrow> DockerMapper \<Rightarrow> DockerMapper" where
  "refresh_ticks [] d = d"
| "refresh_ticks (None # ticks) d = d"
| "refresh_ticks (Some (entries, read) # ticks) d = refresh_ticks ticks (refresh entries read d)"

definition refreshLoop :: "proc_view \<Rightarrow> proc_view option list \<Rightarrow> DockerMapper \<Rightarrow> DockerMapper" where
  "refreshLoop first ticks d = refresh_ticks ticks (refresh (fst first) (snd first) d)"

definition GetContainerByPID :: "32 word \<Rightarrow> DockerMapper \<Rightarrow> ContainerInfo option" where
  "GetContainerByPID pid d = dm_pidToContainer d pid"

definition docker_Stop :: "DockerMapper \<Rightarrow> ('e, DockerMapper) outcome" where
  "docker_Stop d = (if dm_stopped d then Panic else Ok (d\<lparr>dm_stopped := True\<rparr>))"

fun cgroup_id_lines :: "string list \<Rightarrow> string" where
  "cgroup_id_lines [] = ''''"
| "cgroup_id_lines (line # lines) =
     (let parts = Split line '':'' in
      if length parts \<noteq> 3 then cgroup_id_lines lines
      else let cgroupPath = parts ! 2 in
        if Contains cgroupPath ''docker'' \<or> Contains cgroupPath ''containerd''
        then (case long_segment (Split cgroupPath ''/'') of Some seg \<Rightarrow> seg | None \<Rightarrow> cgroup_id_lines lines)
        else cgroup_id_lines lines)"

definition GetContainerID :: "(string \<Rightarrow> string option) \<Rightarrow> 32 word \<Rightarrow> string" where
  "GetContainerID read pid =
     (case read (''/proc/'' @ dec (unat pid) @ ''/cgroup'') of
        None \<Rightarrow> ''''
      | Some data \<Rightarrow> cgroup_id_lines (scan_lines data))"

text \<open>The second loop runs from the last segment to the first.\<close>

definition GetContainerIDFromCgroup :: "string \<Rightarrow> string" where
  "GetContainerIDFromCgroup cgroupPath =
     (let by_length = (case long_segment (rev (Split cgroupPath ''/'')) of Some seg \<Rightarrow> seg | None \<Rightarrow> '''') in
      case str_index cgroupPath ''docker-'' of
        None \<Rightarrow> by_length
      | Some i \<Rightarrow>
          let start = i + 7 in
          case str_index (drop start cgroupPath) ''.scope'' of
            None \<Rightarrow> by_length
          | Some e \<Rightarrow> if e > 0 then take e (drop start cgroupPath) else by_length)"

section \<open>Identifiers in paths\<close>

declare HasPrefix_Cons [simp]

definition hex_id :: "string \<Rightarrow> bool" where
  "hex_id s \<longleftrightarrow> length s = 64 \<and> list_all (\<lambda>c. is_digit c \<or> c \<in> set ''abcdef'') s"

lemma hex_id_no: "hex_id s \<Longrightarrow> CHR ''/'' \<notin> set s" "hex_id s \<Longrightarrow> CHR ''.'' \<notin> set s" "hex_id s \<Longrightarrow> CHR ''-'' \<notin> set s"
    "hex_id s \<Longrightarrow> CHR '':'' \<notin> set s" "hex_id s \<Longrightarrow> CHR ''k'' \<notin> set s"
  by (auto simp: hex_id_def list_all_iff is_digit_def)

lemma Contains_prefix: "Contains (p @ s) p"
  by (auto simp: Contains_iff)

lemma extract_plain:
  assumes "hex_id cid"
  shows "extractContainerID (''/docker/'' @ cid) = cid"
proof -
  have "Split (''/docker/'' @ cid) ''/'' = ['''', ''docker'', cid]"
    using Split_char [of "CHR ''/''" "[]" "''docker/'' @ cid"] Split_char [of "CHR ''/''" "''docker''" cid]
      Split_last [OF hex_id_no(1) [OF assms]] by simp
  moreover have "Contains (''/docker/'' @ cid) ''docker''" by (simp add: Contains_def)
  moreover have "\<not> HasPrefix cid ''docker-''"
    using hex_id_no(5) [OF assms] by (auto simp: HasPrefix_iff)
  ultimately show ?thesis using assms
    by (simp add: extractContainerID_def hex_id_def Let_def)
qed

lemma extract_scope: "extractContainerID (''/system.slice/docker-'' @ cid @ ''.scope'') = ''system.slice''"
proof -
  let ?r = "''docker-'' @ cid @ ''.scope''"
  have "Split (''/system.slice/'' @ ?r) ''/'' = '''' # ''system.slice'' # Split ?r ''/''"
    using Split_char [of "CHR ''/''" "[]" "''system.slice/'' @ ?r"] Split_char [of "CHR ''/''" "''system.slice''" ?r] by simp
  moreover have "Contains (''/system.slice/docker-'' @ cid @ ''.scope'') ''docker''" by (simp add: Contains_def)
  ultimately show ?thesis by (simp add: extractContainerID_def Let_def)
qed

lemma from_cgroup_scope:
  assumes "hex_id cid"
  shows "GetContainerIDFromCgroup (''/system.slice/docker-'' @ cid @ ''.scope'') = cid"
proof -
  have "str_index (cid @ ''.scope'') ''.scope'' = Some 64"
    using str_index_char [of "CHR ''.''" cid "''scope''" "[]"] hex_id_no(2) [OF assms] assms by (simp add: hex_id_def)
  moreover have "str_index (''/system.slice/docker-'' @ cid @ ''.scope'') ''docker-'' = Some 14" by simp
  ultimately show ?thesis using assms by (simp add: GetContainerIDFromCgroup_def hex_id_def)
qed

text \<open>C35.  Container identifiers in the paths the sources document, for every identifier of 64 hexadecimal
  digits: \<open>extractContainerID\<close> finds it in \<open>/docker/<id>\<close> and \<open>GetContainerIDFromCgroup\<close> finds it in the
  \<open>/system.slice/docker-<id>.scope\<close> of systemd, but for that path \<open>extractContainerID\<close>, which the mapper
  uses, returns \<open>system.slice\<close>: this segment has twelve characters and is taken for a short
  identifier.\<close>

theorem container_ids:
  assumes "hex_id cid"
  shows "extractContainerID (''/docker/'' @ cid) = cid \<and>
    GetContainerIDFromCgroup (''/system.slice/docker-'' @ cid @ ''.scope'') = cid \<and>
    extractContainerID (''/system.slice/docker-'' @ cid @ ''.scope'') = ''system.slice''"
  using extract_plain [OF assms] from_cgroup_scope [OF assms] extract_scope by blast

theorem container_ids_witness:
  "extractContainerID (''/docker/'' @ replicate 64 CHR ''a'') = replicate 64 CHR ''a'' \<and>
   extractContainerID (''/system.slice/docker-'' @ replicate 64 CHR ''a'' @ ''.scope'') = ''system.slice''"
  using container_ids [of "replicate 64 CHR ''a''"] by (simp add: hex_id_def list_all_iff)

section \<open>The map of processes\<close>

definition proc_pids :: "(string \<times> bool) list \<Rightarrow> 32 word set" where
  "proc_pids es = {pid. \<exists>name. (name, True) \<in> set es \<and> Sscanf_uint32 name = Some pid}"

lemma fold_refresh:
  "fold (refresh_entry read) es f pid =
     (if pid \<in> proc_pids es \<and> getContainerByPID read pid \<noteq> None then getContainerByPID read pid else f pid)"
proof (induction es arbitrary: f)
  case Nil
  then show ?case by (simp add: proc_pids_def)
next
  case (Cons e es)
  obtain name isdir where e: "e = (name, isdir)" by (cases e)
  have "pid \<in> proc_pids (e # es) \<longleftrightarrow> (isdir \<and> Sscanf_uint32 name = Some pid) \<or> pid \<in> proc_pids es"
    by (auto simp: proc_pids_def e)
  moreover have "refresh_entry read e f pid =
      (if isdir \<and> Sscanf_uint32 name = Some pid \<and> getContainerByPID read pid \<noteq> None then getContainerByPID read pid else f pid)"
    by (auto simp: refresh_entry_def e split: option.splits)
  moreover have "fold (refresh_entry read) (e # es) f = fold (refresh_entry read) es (refresh_entry read e f)" by simp
  ultimately show ?case by (simp only: Cons.IH split: if_split) blast
qed

lemma refresh_ticks_skip: "\<exists>d'. refresh_ticks (map Some views @ ticks) d = refresh_ticks ticks d'"
proof (induction views arbitrary: d)
  case (Cons v views)
  obtain entries read where "v = (entries, read)" by fastforce
  with Cons.IH [of "refresh entries read d"] show ?case by simp
qed auto

lemma refresh_lookup:
  "GetContainerByPID pid (refresh (Some es) read d) = (if pid \<in> proc_pids es then getContainerByPID read pid else None)"
  by (simp add: GetContainerByPID_def refresh_def fold_refresh)

text \<open>C34.  After any number of refreshes the mapper knows exactly the processes that \<open>/proc\<close> listed at the last
  one and whose cgroup file named a container then, with what that file said, whatever it knew before;
  what happens after the stop changes nothing; and a refresh that cannot read the directory keeps what
  was known.\<close>

theorem refresh_exact:
  "GetContainerByPID pid (refreshLoop first (map Some views @ Some (Some es, read) # None # rest) d) =
     (if pid \<in> proc_pids es then getContainerByPID read pid else None) \<and>
   refresh None read d = d"
proof -
  obtain d' where "refreshLoop first (map Some views @ Some (Some es, read) # None # rest) d =
      refresh_ticks (Some (Some es, read) # None # rest) d'"
    unfolding refreshLoop_def using refresh_ticks_skip by blast
  then show ?thesis by (simp add: refresh_lookup) (simp add: refresh_def)
qed

end
