(* ===== verification/Offset.thy ===== *)
theory Offset
  imports Go_Strings
begin

text \<open>
  The offsets of kernel structures, \<open>src/pkg/offset/detector.go\<close> with the two tables embedded from
  \<open>src/pkg/offset/offsets\<close>.  The answers of the machine are the record \<open>offset_env\<close>: whether the BTF file
  exists, whether \<open>bpftool\<close> succeeds, the output of \<open>uname -r\<close>, the files, the architecture, and the decoder of
  the JSON text of a manual table.  The embedded tables are decoded here by hand.
\<close>

section \<open>The tables\<close>

record TaskStructOffsets =
  to_Files :: int
  to_Cgroups :: int
  to_PID :: int
  to_TGID :: int
  to_FDT :: int
  to_PrivData :: int

record SockOffsets =
  so_SKFlags :: int
  so_SKProto :: int
  so_SKType :: int

record SockCommonOffsets =
  sc_SKCFamily :: int
  sc_SKCState :: int

record SocketOffsets =
  sk_File :: int
  sk_SK :: int

record TCPSockOffsets =
  tp_CopiedSeq :: int
  tp_WriteSeq :: int
  tp_RetransOut :: int
  tp_TotalRetrans :: int
  tp_AdvMSS :: int
  tp_SRTTUs :: int
  tp_SndWnd :: int
  tp_RcvWnd :: int
  tp_SndCwnd :: int
  tp_LostOut :: int

record CgroupOffsets =
  cg_Path :: int
  cg_DName :: int

record SkBuffOffsets =
  sb_NetworkHeader :: int
  sb_Head :: int

record RequestOffsets =
  rq_CmdFlags :: int
  rq_DataLen :: int
  rq_Sector :: int
  rq_RqDisk :: int
  rq_StartTimeNS :: int
  rq_IOStartTimeNS :: int
  rq_Disk :: int

record KernelOffsets =
  ko_KernelVersion :: string
  ko_TaskStruct :: TaskStructOffsets
  ko_Sock :: SockOffsets
  ko_SockCommon :: SockCommonOffsets
  ko_Socket :: SocketOffsets
  ko_TCPSock :: TCPSockOffsets
  ko_Cgroup :: CgroupOffsets
  ko_SkBuff :: SkBuffOffsets
  ko_Request :: RequestOffsets

definition no_request :: RequestOffsets where
  "no_request = \<lparr>rq_CmdFlags = 0, rq_DataLen = 0, rq_Sector = 0, rq_RqDisk = 0, rq_StartTimeNS = 0,
     rq_IOStartTimeNS = 0, rq_Disk = 0\<rparr>"

definition getDefaultOffsetsAMD64 :: KernelOffsets where
  "getDefaultOffsetsAMD64 =
     \<lparr>ko_KernelVersion = ''default'',
      ko_TaskStruct = \<lparr>to_Files = 1992, to_Cgroups = 2360, to_PID = 1440, to_TGID = 1444, to_FDT = 32, to_PrivData = 192\<rparr>,
      ko_Sock = \<lparr>so_SKFlags = 528, so_SKProto = 544, so_SKType = 544\<rparr>,
      ko_SockCommon = \<lparr>sc_SKCFamily = 16, sc_SKCState = 18\<rparr>,
      ko_Socket = \<lparr>sk_File = 24, sk_SK = 32\<rparr>,
      ko_TCPSock = \<lparr>tp_CopiedSeq = 1628, tp_WriteSeq = 1996, tp_RetransOut = 1864, tp_TotalRetrans = 2288,
        tp_AdvMSS = 1776, tp_SRTTUs = 1816, tp_SndWnd = 1732, tp_RcvWnd = 1992, tp_SndCwnd = 1920, tp_LostOut = 2008\<rparr>,
      ko_Cgroup = \<lparr>cg_Path = 0, cg_DName = 0\<rparr>,
      ko_SkBuff = \<lparr>sb_NetworkHeader = 196, sb_Head = 208\<rparr>,
      ko_Request = no_request\<rparr>"

definition offsets_3_10 :: KernelOffsets where
  "offsets_3_10 =
     \<lparr>ko_KernelVersion = ''3.10.0-1160.el7.x86_64'',
      ko_TaskStruct = \<lparr>to_Files = 1768, to_Cgroups = 2080, to_PID = 1248, to_TGID = 1252, to_FDT = 32, to_PrivData = 168\<rparr>,
      ko_Sock = \<lparr>so_SKFlags = 472, so_SKProto = 488, so_SKType = 488\<rparr>,
      ko_SockCommon = \<lparr>sc_SKCFamily = 16, sc_SKCState = 18\<rparr>,
      ko_Socket = \<lparr>sk_File = 24, sk_SK = 32\<rparr>,
      ko_TCPSock = \<lparr>tp_CopiedSeq = 1400, tp_WriteSeq = 1720, tp_RetransOut = 1600, tp_TotalRetrans = 2000,
        tp_AdvMSS = 1528, tp_SRTTUs = 1568, tp_SndWnd = 1496, tp_RcvWnd = 1716, tp_SndCwnd = 1656, tp_LostOut = 1736\<rparr>,
      ko_Cgroup = \<lparr>cg_Path = 0, cg_DName = 0\<rparr>,
      ko_SkBuff = \<lparr>sb_NetworkHeader = 168, sb_Head = 180\<rparr>,
      ko_Request = no_request\<rparr>"

definition offsets_5_4 :: KernelOffsets where
  "offsets_5_4 = getDefaultOffsetsAMD64\<lparr>ko_KernelVersion := ''5.4.0-100-generic''\<rparr>"

text \<open>The embedded directory, in the order \<open>ReadDir\<close> lists it; every file can be read and decoded.\<close>

definition offsetFS :: "(string \<times> KernelOffsets) list" where
  "offsetFS = [(''3.10.0-1160.el7.x86_64.json'', offsets_3_10), (''5.4.0-100-generic.json'', offsets_5_4)]"

section \<open>The detector\<close>

record OffsetDetector =
  od_mode :: string
  od_manualPath :: string
  od_offsets :: "KernelOffsets option"
  od_kernelVer :: string

record offset_env =
  oe_hasBTF :: bool
  oe_bpftool :: "string option"
  oe_uname :: "string + string"
  oe_read :: "string \<Rightarrow> string + string"
  oe_unmarshal :: "string \<Rightarrow> string + KernelOffsets"
  oe_GOARCH :: string

datatype offset_error =
    UnknownMode string | DetectFailed | BpftoolFailed string | KernelVersionFailed string | NoManualPath
  | ReadManual string | ParseManual string | NoMatch string | UnsupportedArch string | NotDetected
  | UnknownField string string

definition NewOffsetDetector :: "string \<Rightarrow> string \<Rightarrow> OffsetDetector" where
  "NewOffsetDetector mode manualPath =
     \<lparr>od_mode = mode, od_manualPath = manualPath, od_offsets = None, od_kernelVer = ''''\<rparr>"

definition getDefaultOffsets :: "offset_env \<Rightarrow> (offset_error, KernelOffsets) outcome" where
  "getDefaultOffsets env =
     (if oe_GOARCH env = ''amd64'' then Ok getDefaultOffsetsAMD64 else Err (UnsupportedArch (oe_GOARCH env)))"

definition detectFromBTF :: "offset_env \<Rightarrow> (offset_error, KernelOffsets) outcome" where
  "detectFromBTF env =
     (case oe_bpftool env of Some err \<Rightarrow> Err (BpftoolFailed err) | None \<Rightarrow> getDefaultOffsets env)"

definition od_getKernelVersion :: "offset_env \<Rightarrow> (offset_error, string) outcome" where
  "od_getKernelVersion env =
     (case oe_uname env of Inl err \<Rightarrow> Err (KernelVersionFailed err) | Inr out \<Rightarrow> Ok (TrimSpace out))"

fun find_offsets :: "string \<Rightarrow> (string \<times> KernelOffsets) list \<Rightarrow> KernelOffsets option" where
  "find_offsets version [] = None"
| "find_offsets version ((file, offsets) # entries) =
     (let name = TrimSuffix file ''.json'' in
      if Contains version name \<or> Contains name version then Some offsets
      else find_offsets version entries)"

definition loadEmbeddedOffsets :: "string \<Rightarrow> (offset_error, KernelOffsets) outcome" where
  "loadEmbeddedOffsets version =
     (case find_offsets version offsetFS of Some offsets \<Rightarrow> Ok offsets | None \<Rightarrow> Err (NoMatch version))"

text \<open>The lookup of \<open>detectEmbedded\<close>: the whole version, then its first two parts, then the defaults.\<close>

definition embedded_for :: "offset_env \<Rightarrow> string \<Rightarrow> (offset_error, KernelOffsets) outcome" where
  "embedded_for env kernelVersion =
     (case loadEmbeddedOffsets kernelVersion of
        Ok offsets \<Rightarrow> Ok offsets
      | _ \<Rightarrow>
          let parts = Split kernelVersion ''.'' in
          if length parts \<ge> 2
          then (case loadEmbeddedOffsets (parts ! 0 @ ''.'' @ parts ! 1) of
                  Ok offsets \<Rightarrow> Ok offsets
                | _ \<Rightarrow> getDefaultOffsets env)
          else getDefaultOffsets env)"

definition detectEmbedded ::
  "offset_env \<Rightarrow> OffsetDetector \<Rightarrow> OffsetDetector \<times> (offset_error, KernelOffsets) outcome" where
  "detectEmbedded env d =
     (case od_getKernelVersion env of
        Ok kernelVersion \<Rightarrow> (d\<lparr>od_kernelVer := kernelVersion\<rparr>, embedded_for env kernelVersion)
      | Err e \<Rightarrow> (d, Err e)
      | Panic \<Rightarrow> (d, Panic))"

definition detectManual :: "offset_env \<Rightarrow> OffsetDetector \<Rightarrow> (offset_error, KernelOffsets) outcome" where
  "detectManual env d =
     (if od_manualPath d = '''' then Err NoManualPath
      else case oe_read env (od_manualPath d) of
        Inl err \<Rightarrow> Err (ReadManual err)
      | Inr data \<Rightarrow>
          (case oe_unmarshal env data of Inl err \<Rightarrow> Err (ParseManual err) | Inr offsets \<Rightarrow> Ok offsets))"

text \<open>The two fallbacks of \<open>detectAuto\<close>.\<close>

definition detect_fallback ::
  "offset_env \<Rightarrow> OffsetDetector \<Rightarrow> OffsetDetector \<times> (offset_error, KernelOffsets) outcome" where
  "detect_fallback env d =
     (case detectEmbedded env d of
        (d, Ok offsets) \<Rightarrow> (d, Ok offsets)
      | (d, _) \<Rightarrow>
          (d, if od_manualPath d \<noteq> ''''
              then (case detectManual env d of Ok offsets \<Rightarrow> Ok offsets | _ \<Rightarrow> Err DetectFailed)
              else Err DetectFailed))"

definition detectAuto ::
  "offset_env \<Rightarrow> OffsetDetector \<Rightarrow> OffsetDetector \<times> (offset_error, KernelOffsets) outcome" where
  "detectAuto env d =
     (if oe_hasBTF env
      then (case detectFromBTF env of Ok offsets \<Rightarrow> (d, Ok offsets) | _ \<Rightarrow> detect_fallback env d)
      else detect_fallback env d)"

definition Detect ::
  "offset_env \<Rightarrow> OffsetDetector \<Rightarrow> OffsetDetector \<times> (offset_error, KernelOffsets) outcome" where
  "Detect env d =
     (if od_mode d = ''auto'' then detectAuto env d
      else if od_mode d = ''embedded'' then detectEmbedded env d
      else if od_mode d = ''manual'' then (d, detectManual env d)
      else (d, Err (UnknownMode (od_mode d))))"

text \<open>\<open>GetOffset\<close>: the cases of the nested switches, as the table of the names they know.\<close>

definition offset_fields :: "(string \<times> string \<times> (KernelOffsets \<Rightarrow> int)) list" where
  "offset_fields =
     [(''task_struct'', ''files'', \<lambda>k. to_Files (ko_TaskStruct k)),
      (''task_struct'', ''cgroups'', \<lambda>k. to_Cgroups (ko_TaskStruct k)),
      (''task_struct'', ''pid'', \<lambda>k. to_PID (ko_TaskStruct k)),
      (''task_struct'', ''tgid'', \<lambda>k. to_TGID (ko_TaskStruct k)),
      (''task_struct'', ''fdt'', \<lambda>k. to_FDT (ko_TaskStruct k)),
      (''task_struct'', ''private_data'', \<lambda>k. to_PrivData (ko_TaskStruct k)),
      (''sock'', ''sk_flags'', \<lambda>k. so_SKFlags (ko_Sock k)),
      (''sock'', ''sk_protocol'', \<lambda>k. so_SKProto (ko_Sock k)),
      (''sock'', ''sk_type'', \<lambda>k. so_SKType (ko_Sock k)),
      (''sock_common'', ''skc_family'', \<lambda>k. sc_SKCFamily (ko_SockCommon k)),
      (''sock_common'', ''skc_state'', \<lambda>k. sc_SKCState (ko_SockCommon k)),
      (''socket'', ''file'', \<lambda>k. sk_File (ko_Socket k)),
      (''socket'', ''sk'', \<lambda>k. sk_SK (ko_Socket k)),
      (''tcp_sock'', ''copied_seq'', \<lambda>k. tp_CopiedSeq (ko_TCPSock k)),
      (''tcp_sock'', ''write_seq'', \<lambda>k. tp_WriteSeq (ko_TCPSock k)),
      (''tcp_sock'', ''retrans_out'', \<lambda>k. tp_RetransOut (ko_TCPSock k)),
      (''tcp_sock'', ''total_retrans'', \<lambda>k. tp_TotalRetrans (ko_TCPSock k)),
      (''tcp_sock'', ''advmss'', \<lambda>k. tp_AdvMSS (ko_TCPSock k)),
      (''tcp_sock'', ''srtt_us'', \<lambda>k. tp_SRTTUs (ko_TCPSock k)),
      (''tcp_sock'', ''snd_wnd'', \<lambda>k. tp_SndWnd (ko_TCPSock k)),
      (''tcp_sock'', ''rcv_wnd'', \<lambda>k. tp_RcvWnd (ko_TCPSock k)),
      (''tcp_sock'', ''snd_cwnd'', \<lambda>k. tp_SndCwnd (ko_TCPSock k)),
      (''tcp_sock'', ''lost_out'', \<lambda>k. tp_LostOut (ko_TCPSock k))]"

definition GetOffset :: "OffsetDetector \<Rightarrow> string \<Rightarrow> string \<Rightarrow> (offset_error, int) outcome" where
  "GetOffset d structName fieldName =
     (case od_offsets d of
        None \<Rightarrow> Err NotDetected
      | Some offsets \<Rightarrow>
          (case find (\<lambda>(s, f, get). s = structName \<and> f = fieldName) offset_fields of
             Some (s, f, get) \<Rightarrow> Ok (get offsets)
           | None \<Rightarrow> Err (UnknownField structName fieldName)))"

definition SetOffsets :: "KernelOffsets option \<Rightarrow> OffsetDetector \<Rightarrow> OffsetDetector" where
  "SetOffsets offsets d = d\<lparr>od_offsets := offsets\<rparr>"

definition od_GetKernelVersion :: "OffsetDetector \<Rightarrow> string" where
  "od_GetKernelVersion d = od_kernelVer d"

section \<open>Which table a kernel gets\<close>

lemma Detect_keeps: "od_offsets (fst (Detect env d)) = od_offsets d"
  by (auto simp: Detect_def detectAuto_def detect_fallback_def detectEmbedded_def
      split: outcome.splits prod.splits if_splits)

lemma find_offsets_FS:
  "find_offsets v offsetFS =
     (if Contains v ''3.10.0-1160.el7.x86_64'' \<or> Contains ''3.10.0-1160.el7.x86_64'' v then Some offsets_3_10
      else if Contains v ''5.4.0-100-generic'' \<or> Contains ''5.4.0-100-generic'' v then Some offsets_5_4
      else None)"
  by (simp add: offsetFS_def TrimSuffix_def HasSuffix_def)

text \<open>On amd64 the embedded lookup always finds a table.\<close>

lemma embedded_for_amd64: "oe_GOARCH env = ''amd64'' \<Longrightarrow> \<exists>k. embedded_for env v = Ok k"
  by (auto simp: embedded_for_def getDefaultOffsets_def Let_def split: outcome.splits)

lemma detect_fallback_amd64:
  assumes "oe_GOARCH env = ''amd64''" and "oe_uname env = Inr out"
  shows "detect_fallback env d = (d\<lparr>od_kernelVer := TrimSpace out\<rparr>, embedded_for env (TrimSpace out))"
proof -
  obtain k where "embedded_for env (TrimSpace out) = Ok k" using embedded_for_amd64 [OF assms(1)] by blast
  then show ?thesis using assms(2)
    by (simp add: detect_fallback_def detectEmbedded_def od_getKernelVersion_def)
qed

text \<open>C36.  On amd64, once the kernel version is known, detection in mode \<open>auto\<close> always succeeds without the manual
  table: with BTF and \<open>bpftool\<close> it returns the defaults whatever the kernel is, otherwise the embedded
  lookup; and no mode stores the result, so that \<open>GetOffset\<close> still fails afterwards.\<close>

theorem detect_auto_amd64:
  assumes "oe_GOARCH env = ''amd64''" and "oe_uname env = Inr out"
  shows "snd (Detect env (NewOffsetDetector ''auto'' path)) =
      (if oe_hasBTF env \<and> oe_bpftool env = None then Ok getDefaultOffsetsAMD64 else embedded_for env (TrimSpace out)) \<and>
    (\<exists>k. snd (Detect env (NewOffsetDetector ''auto'' path)) = Ok k) \<and>
    GetOffset (fst (Detect env (NewOffsetDetector mode path))) s f = Err NotDetected"
proof -
  have e: "snd (Detect env (NewOffsetDetector ''auto'' path)) =
      (if oe_hasBTF env \<and> oe_bpftool env = None then Ok getDefaultOffsetsAMD64 else embedded_for env (TrimSpace out))"
    using assms
    by (auto simp: Detect_def NewOffsetDetector_def detectAuto_def detectFromBTF_def getDefaultOffsets_def
        detect_fallback_amd64 split: option.splits)
  moreover have "\<exists>k. snd (Detect env (NewOffsetDetector ''auto'' path)) = Ok k"
    unfolding e using embedded_for_amd64 [OF assms(1)] by simp
  moreover have "od_offsets (fst (Detect env (NewOffsetDetector mode path))) = None"
    by (simp add: Detect_keeps) (simp add: NewOffsetDetector_def)
  ultimately show ?thesis by (simp add: GetOffset_def)
qed

declare HasPrefix_Cons [simp]

lemma Contains_length: "Contains s t \<Longrightarrow> length t \<le> length s"
  by (auto simp: Contains_iff)

lemma embedded_short:
  assumes "a \<noteq> CHR ''.''" and "b \<noteq> CHR ''.''" and "length rest \<le> 12"
    and "\<not> Contains ''3.10.0-1160.el7.x86_64'' (a # CHR ''.'' # b # CHR ''.'' # rest)"
    and "\<not> Contains ''5.4.0-100-generic'' (a # CHR ''.'' # b # CHR ''.'' # rest)"
    and "find_offsets [a, CHR ''.'', b] offsetFS = Some k"
  shows "embedded_for env (a # CHR ''.'' # b # CHR ''.'' # rest) = Ok k"
proof -
  let ?v = "a # CHR ''.'' # b # CHR ''.'' # rest"
  have "Split ?v ''.'' = [a] # [b] # Split rest ''.''"
    using Split_char [of "CHR ''.''" "[a]" "b # CHR ''.'' # rest"] Split_char [of "CHR ''.''" "[b]" rest] assms(1,2) by simp
  moreover have "find_offsets ?v offsetFS = None"
    using Contains_length [of ?v "''3.10.0-1160.el7.x86_64''"] Contains_length [of ?v "''5.4.0-100-generic''"] assms(3-5)
    by (auto simp: find_offsets_FS)
  ultimately show ?thesis using assms(6)
    by (simp add: embedded_for_def loadEmbeddedOffsets_def Let_def)
qed

text \<open>The embedded lookup matches substrings: a kernel 5.4 of another build gets the table of 5.4, but every
  kernel 4.0 gets it too, and every kernel 3.1 gets the table of 3.10.\<close>

theorem embedded_wrong_kernel:
  assumes "length rest \<le> 12"
  shows "embedded_for env (''5.4.'' @ ''0-150-generic'') = Ok offsets_5_4 \<and>
    embedded_for env (''4.0.'' @ rest) = Ok offsets_5_4 \<and> embedded_for env (''3.1.'' @ rest) = Ok offsets_3_10"
proof (intro conjI)
  show "embedded_for env (''5.4.'' @ ''0-150-generic'') = Ok offsets_5_4"
    by (simp add: embedded_for_def loadEmbeddedOffsets_def find_offsets_FS Contains_def Split.simps Let_def)
  show "embedded_for env (''4.0.'' @ rest) = Ok offsets_5_4"
    using embedded_short [of "CHR ''4''" "CHR ''0''" rest offsets_5_4 env] assms
    by (simp add: find_offsets_FS Contains_def)
  show "embedded_for env (''3.1.'' @ rest) = Ok offsets_3_10"
    using embedded_short [of "CHR ''3''" "CHR ''1''" rest offsets_3_10 env] assms
    by (simp add: find_offsets_FS Contains_def)
qed

definition env_amd64 :: offset_env where
  "env_amd64 = \<lparr>oe_hasBTF = False, oe_bpftool = None, oe_uname = Inr ''4.0.9'', oe_read = \<lambda>_. Inl ''no file'',
     oe_unmarshal = \<lambda>_. Inl ''bad'', oe_GOARCH = ''amd64''\<rparr>"

theorem embedded_wrong_kernel_witness: "embedded_for env_amd64 ''4.0.9'' = Ok offsets_5_4"
  using embedded_wrong_kernel [of "''9''" env_amd64] by simp

theorem detect_auto_amd64_witness:
  "(\<exists>k. snd (Detect env_amd64 (NewOffsetDetector ''auto'' ''m'')) = Ok k) \<and>
   GetOffset (fst (Detect env_amd64 (NewOffsetDetector ''auto'' ''m''))) ''sock'' ''sk_type'' = Err NotDetected"
proof -
  have "oe_GOARCH env_amd64 = ''amd64''" "oe_uname env_amd64 = Inr ''4.0.9''" by (simp_all add: env_amd64_def)
  from detect_auto_amd64 [OF this, of "''m''" "''auto''" "''sock''" "''sk_type''"] show ?thesis by blast
qed

end
