(* ===== verification/Ping.thy ===== *)
theory Ping
  imports Complex_Main Go_Strings Lifecycle
begin

text \<open>
  The path tracer, \<open>src/internal/collector/pingtrace.go\<close>.  The network is an argument: for each time-to-live, whether
  the calls that precede the read succeed, and what the read returns.  A round-trip time is a natural
  number of nanoseconds (the clock is monotonic), a packet loss an exact rational.  The parsing and
  printing of addresses, of durations and of ICMP messages belong to the \<open>net\<close>, \<open>time\<close> and \<open>icmp\<close> packages;
  \<open>FormatTracePath\<close> is not modelled.
\<close>

section \<open>Tracing a path\<close>

record PingTraceConfig =
  pc_Enabled :: bool
  pc_Count :: int
  pc_Type :: string
  pc_Timeout :: int
  pc_IsNs :: bool
  pc_DstIP :: string
  pc_Interval :: int

record PingHop =
  hp_TTL :: nat
  hp_IP :: bytes
  hp_RTT :: nat
  hp_Timeout :: bool

record PingTraceResult =
  tr_DstIP :: bytes
  tr_Hops :: "PingHop list"
  tr_AvgRTT :: nat
  tr_MinRTT :: nat
  tr_MaxRTT :: nat
  tr_PacketLoss :: rat

datatype icmp_reply = ParseFailed | EchoReply | TimeExceeded | OtherReply

text \<open>One probe: the errors of \<open>SetTTL\<close>, \<open>Marshal\<close> and \<open>WriteTo\<close>, and the answer, \<open>None\<close> for a timeout.\<close>

record ping_probe =
  pp_sent :: bool
  pp_answer :: "(bytes \<times> nat \<times> icmp_reply) option"

record trace_state =
  ts_hops :: "PingHop list"
  ts_rtts :: "nat list"
  ts_sent :: nat
  ts_received :: nat

function trace_loop :: "(nat \<Rightarrow> ping_probe) \<Rightarrow> nat \<Rightarrow> trace_state \<Rightarrow> trace_state" where
  "trace_loop probe ttl st =
     (if ttl \<le> 30 then
        let p = probe ttl; hop = \<lparr>hp_TTL = ttl, hp_IP = [], hp_RTT = 0, hp_Timeout = False\<rparr> in
        if \<not> pp_sent p then trace_loop probe (ttl + 1) st
        else let st = st\<lparr>ts_sent := ts_sent st + 1\<rparr> in
          case pp_answer p of
            None \<Rightarrow> trace_loop probe (ttl + 1) (st\<lparr>ts_hops := ts_hops st @ [hop\<lparr>hp_Timeout := True\<rparr>]\<rparr>)
          | Some (ip, rtt, reply) \<Rightarrow>
              let st = st\<lparr>ts_received := ts_received st + 1, ts_rtts := ts_rtts st @ [rtt],
                    ts_hops := ts_hops st @ [hop\<lparr>hp_IP := ip, hp_RTT := rtt\<rparr>]\<rparr>
              in (case reply of
                    ParseFailed \<Rightarrow> trace_loop probe (ttl + 1) st
                  | TimeExceeded \<Rightarrow> trace_loop probe (ttl + 1) st
                  | EchoReply \<Rightarrow> st
                  | OtherReply \<Rightarrow> st)
      else st)"
  by auto
termination by (relation "measure (\<lambda>(probe, ttl, st). 31 - ttl)") auto

declare trace_loop.simps [simp del]

text \<open>The loop over the round-trip times: the sum, the least and the greatest.\<close>

fun rtt_stats :: "nat list \<Rightarrow> nat \<times> nat \<times> nat \<Rightarrow> nat \<times> nat \<times> nat" where
  "rtt_stats [] acc = acc"
| "rtt_stats (rtt # rtts) (tot, mn, mx) =
     rtt_stats rtts (tot + rtt, (if rtt < mn then rtt else mn), (if rtt > mx then rtt else mx))"

definition tracePath :: "bool \<Rightarrow> (nat \<Rightarrow> ping_probe) \<Rightarrow> bytes \<Rightarrow> PingTraceResult option" where
  "tracePath listen probe dst =
     (if \<not> listen then None
      else
        let st = trace_loop probe 1 \<lparr>ts_hops = [], ts_rtts = [], ts_sent = 0, ts_received = 0\<rparr>;
            result = \<lparr>tr_DstIP = dst, tr_Hops = ts_hops st, tr_AvgRTT = 0, tr_MinRTT = 0, tr_MaxRTT = 0, tr_PacketLoss = 0\<rparr>;
            result =
              (case ts_rtts st of
                 [] \<Rightarrow> result
               | r0 # _ \<Rightarrow>
                   (case rtt_stats (ts_rtts st) (0, r0, r0) of
                      (tot, mn, mx) \<Rightarrow>
                        result\<lparr>tr_MinRTT := mn, tr_MaxRTT := mx, tr_AvgRTT := tot div length (ts_rtts st)\<rparr>));
            result =
              (if ts_sent st > 0
               then result\<lparr>tr_PacketLoss := of_int (int (ts_sent st) - int (ts_received st)) / of_nat (ts_sent st) * 100\<rparr>
               else result)
        in Some result)"

section \<open>The collector\<close>

text \<open>\<open>pg_results\<close> is the content of the channel of capacity 100.\<close>

record PingTraceCollector =
  pg_config :: PingTraceConfig
  pg_running :: bool
  pg_stopped :: bool
  pg_results :: "PingTraceResult list"

definition NewPingTraceCollector :: "PingTraceConfig \<Rightarrow> PingTraceCollector" where
  "NewPingTraceCollector cfg =
     (let cfg = (if pc_Count cfg = 0 then cfg\<lparr>pc_Count := 10\<rparr> else cfg);
          cfg = (if pc_Timeout cfg = 0 then cfg\<lparr>pc_Timeout := 1000\<rparr> else cfg);
          cfg = (if pc_Interval cfg = 0 then cfg\<lparr>pc_Interval := 100\<rparr> else cfg)
      in \<lparr>pg_config = cfg, pg_running = False, pg_stopped = False, pg_results = []\<rparr>)"

definition ping_Start :: "PingTraceCollector \<Rightarrow> PingTraceCollector" where
  "ping_Start p = (if pg_running p then p else p\<lparr>pg_running := True\<rparr>)"

definition ping_Stop :: "PingTraceCollector \<Rightarrow> ('e, PingTraceCollector) outcome" where
  "ping_Stop p =
     (if \<not> pg_running p then Ok p
      else if pg_stopped p then Panic
      else Ok (p\<lparr>pg_stopped := True, pg_running := False\<rparr>))"

text \<open>One tick of \<open>runClient\<close>: a result that finds the channel full is dropped.\<close>

definition client_tick :: "bool \<Rightarrow> (nat \<Rightarrow> ping_probe) \<Rightarrow> bytes \<Rightarrow> PingTraceCollector \<Rightarrow> PingTraceCollector" where
  "client_tick listen probe dst p =
     (case tracePath listen probe dst of
        None \<Rightarrow> p
      | Some result \<Rightarrow> if length (pg_results p) < 100 then p\<lparr>pg_results := pg_results p @ [result]\<rparr> else p)"

definition GetResult :: "PingTraceCollector \<Rightarrow> PingTraceResult option \<times> PingTraceCollector" where
  "GetResult p =
     (case pg_results p of [] \<Rightarrow> (None, p) | result # rest \<Rightarrow> (Some result, p\<lparr>pg_results := rest\<rparr>))"

definition ping_Status :: "PingTraceCollector \<Rightarrow> bool \<times> string \<times> string" where
  "ping_Status p = (pg_running p, pc_Type (pg_config p), pc_DstIP (pg_config p))"

text \<open>One turn of \<open>runServer\<close>: the answer to a message, if there is one.\<close>

record icmp_echo =
  ie_ID :: int
  ie_Seq :: int
  ie_Data :: bytes

datatype icmp_message = EchoRequest "icmp_echo option" | EchoAnswer icmp_echo | OtherMessage

definition server_turn :: "(bytes \<Rightarrow> icmp_message option) \<Rightarrow> (icmp_message \<Rightarrow> bytes option) \<Rightarrow> bytes option \<Rightarrow> bytes option" where
  "server_turn parse marshal rd =
     (case rd of
        None \<Rightarrow> None
      | Some buf \<Rightarrow>
          (case parse buf of
             Some (EchoRequest (Some echo)) \<Rightarrow>
               marshal (EchoAnswer \<lparr>ie_ID = ie_ID echo, ie_Seq = ie_Seq echo, ie_Data = ie_Data echo\<rparr>)
           | _ \<Rightarrow> None))"

interpretation ping: lifecycle "\<lambda>_ :: unit. ping_Start" ping_Stop "\<lambda>_. True" pg_running pg_stopped "\<lambda>_. True"
  by unfold_locales (auto simp: ping_Start_def ping_Stop_def)

section \<open>The statistics describe the hops\<close>

definition answered :: "PingHop list \<Rightarrow> nat list" where
  "answered hops = map hp_RTT (filter (\<lambda>h. \<not> hp_Timeout h) hops)"

definition trace_inv :: "nat \<Rightarrow> trace_state \<Rightarrow> bool" where
  "trace_inv ttl st \<longleftrightarrow>
     ts_sent st = length (ts_hops st) \<and> ts_rtts st = answered (ts_hops st) \<and>
     ts_received st = length (answered (ts_hops st)) \<and>
     sorted_wrt (<) (map hp_TTL (ts_hops st)) \<and> (\<forall>h \<in> set (ts_hops st). 1 \<le> hp_TTL h \<and> hp_TTL h < ttl)"

lemma trace_inv_mono: "trace_inv ttl st \<Longrightarrow> ttl \<le> ttl' \<Longrightarrow> trace_inv ttl' st"
  by (auto simp: trace_inv_def)

lemma trace_loop_inv: "trace_inv ttl st \<Longrightarrow> 1 \<le> ttl \<Longrightarrow> ttl \<le> 31 \<Longrightarrow> trace_inv 31 (trace_loop probe ttl st)"
proof (induction probe ttl st rule: trace_loop.induct)
  case (1 probe ttl st)
  show ?case
  proof (cases "ttl \<le> 30")
    case False
    with 1 have "trace_loop probe ttl st = st" "ttl = 31" by (simp_all add: trace_loop.simps)
    with 1 show ?thesis by simp
  next
    case True
    let ?hop = "\<lparr>hp_TTL = ttl, hp_IP = [], hp_RTT = 0, hp_Timeout = False\<rparr>"
    let ?s = "st\<lparr>ts_sent := ts_sent st + 1\<rparr>"
    consider (unsent) "\<not> pp_sent (probe ttl)" | (lost) "pp_sent (probe ttl)" "pp_answer (probe ttl) = None"
      | (got) ip rtt reply where "pp_sent (probe ttl)" "pp_answer (probe ttl) = Some (ip, rtt, reply)"
      by (cases "pp_answer (probe ttl)") auto
    then show ?thesis
    proof cases
      case unsent
      with 1 True have "trace_inv 31 (trace_loop probe (ttl + 1) st)" using trace_inv_mono [of ttl st "ttl + 1"] by simp
      with unsent True show ?thesis by (subst trace_loop.simps) simp
    next
      case lost
      let ?t = "?s\<lparr>ts_hops := ts_hops ?s @ [?hop\<lparr>hp_Timeout := True\<rparr>]\<rparr>"
      have "trace_inv (ttl + 1) ?t" using 1(5,6) by (auto simp: trace_inv_def answered_def sorted_wrt_append less_SucI)
      with 1(2) [OF True refl refl _ refl] lost True 1(6) have "trace_inv 31 (trace_loop probe (ttl + 1) ?t)" by simp
      with lost True show ?thesis by (subst trace_loop.simps) simp
    next
      case got
      let ?t = "?s\<lparr>ts_received := ts_received ?s + 1, ts_rtts := ts_rtts ?s @ [rtt],
          ts_hops := ts_hops ?s @ [?hop\<lparr>hp_IP := ip, hp_RTT := rtt\<rparr>]\<rparr>"
      have t: "trace_inv (ttl + 1) ?t" using 1(5,6) by (auto simp: trace_inv_def answered_def sorted_wrt_append less_SucI)
      have "trace_inv 31 (trace_loop probe (ttl + 1) ?t)" if "reply = ParseFailed \<or> reply = TimeExceeded"
        using that 1(3) [OF True refl refl _ refl got(2) refl refl refl] 1(4) [OF True refl refl _ refl got(2) refl refl refl]
          got True 1(6) t by auto
      moreover have "trace_inv 31 ?t" using t True by (auto intro: trace_inv_mono)
      ultimately show ?thesis using got True by (subst trace_loop.simps) (cases reply, simp_all)
    qed
  qed
qed

lemma rtt_stats_eq: "rtt_stats rtts (tot, mn, mx) = (tot + sum_list rtts, fold min rtts mn, fold max rtts mx)"
  by (induction rtts arbitrary: tot mn mx) (simp_all add: min_def max_def)

lemma rtt_stats_Cons:
  assumes "rtts = r0 # rest"
  shows "rtt_stats rtts (0, r0, r0) = (sum_list rtts, Min (set rtts), Max (set rtts))"
  using assms by (simp add: rtt_stats_eq Min.set_eq_fold [symmetric] Max.set_eq_fold [symmetric] del: Min.set_eq_fold Max.set_eq_fold)

lemma average_between:
  fixes rtts :: "nat list"
  assumes "rtts \<noteq> []"
  shows "Min (set rtts) \<le> sum_list rtts div length rtts" and "sum_list rtts div length rtts \<le> Max (set rtts)"
proof -
  have "sum_list (map (\<lambda>_. Min (set rtts)) rtts) \<le> sum_list (map (\<lambda>r. r) rtts)" by (rule sum_list_mono) simp
  then have "Min (set rtts) * length rtts \<le> sum_list rtts" by (simp add: sum_list_triv mult.commute)
  then show "Min (set rtts) \<le> sum_list rtts div length rtts" using assms by (simp add: less_eq_div_iff_mult_less_eq)
  have "sum_list (map (\<lambda>r. r) rtts) \<le> sum_list (map (\<lambda>_. Max (set rtts)) rtts)" by (rule sum_list_mono) simp
  then have "sum_list rtts \<le> Max (set rtts) * length rtts" by (simp add: sum_list_triv mult.commute)
  then have "sum_list rtts div length rtts \<le> Max (set rtts) * length rtts div length rtts" by (rule div_le_mono)
  then show "sum_list rtts div length rtts \<le> Max (set rtts)" using assms by simp
qed

text \<open>The path the probes describe: the hops of the time-to-live values from \<open>ttl\<close> up to the first one whose
  answer ends the trace, or up to 30.  A probe that could not be sent leaves no hop.\<close>

definition ends_trace :: "ping_probe \<Rightarrow> bool" where
  "ends_trace p \<longleftrightarrow> pp_sent p \<and>
     (case pp_answer p of Some (_, _, reply) \<Rightarrow> reply = EchoReply \<or> reply = OtherReply | None \<Rightarrow> False)"

definition hop_of :: "(nat \<Rightarrow> ping_probe) \<Rightarrow> nat \<Rightarrow> PingHop list" where
  "hop_of probe ttl =
     (if pp_sent (probe ttl)
      then [case pp_answer (probe ttl) of
              None \<Rightarrow> \<lparr>hp_TTL = ttl, hp_IP = [], hp_RTT = 0, hp_Timeout = True\<rparr>
            | Some (ip, rtt, _) \<Rightarrow> \<lparr>hp_TTL = ttl, hp_IP = ip, hp_RTT = rtt, hp_Timeout = False\<rparr>]
      else [])"

definition path_from :: "(nat \<Rightarrow> ping_probe) \<Rightarrow> nat \<Rightarrow> PingHop list" where
  "path_from probe ttl =
     concat (map (hop_of probe)
       (case find (\<lambda>t. ends_trace (probe t)) [ttl..<31] of Some t \<Rightarrow> [ttl..<Suc t] | None \<Rightarrow> [ttl..<31]))"

lemma find_upt_ge: "find P [a..<b] = Some t \<Longrightarrow> a \<le> t"
  by (auto simp: find_Some_iff)

lemma path_from_step:
  assumes "ttl \<le> 30"
  shows "path_from probe ttl = hop_of probe ttl @ (if ends_trace (probe ttl) then [] else path_from probe (ttl + 1))"
proof -
  have u: "[ttl..<31] = ttl # [Suc ttl..<31]" using assms by (simp add: upt_rec)
  show ?thesis
  proof (cases "find (\<lambda>t. ends_trace (probe t)) [Suc ttl..<31]")
    case None
    with u show ?thesis by (simp add: path_from_def)
  next
    case (Some t)
    with find_upt_ge [OF this] u show ?thesis by (simp add: path_from_def upt_rec [of ttl])
  qed
qed

lemma trace_loop_hops: "ttl \<le> 31 \<Longrightarrow> ts_hops (trace_loop probe ttl st) = ts_hops st @ path_from probe ttl"
proof (induction "31 - ttl" arbitrary: ttl st)
  case 0
  then show ?case by (simp add: trace_loop.simps path_from_def)
next
  case (Suc n)
  then have l: "ttl \<le> 30" and n: "n = 31 - (ttl + 1)" by simp_all
  note ih = Suc.hyps(1) [OF n]
  show ?case using l ih unfolding path_from_step [OF l]
    by (subst trace_loop.simps)
      (auto simp: hop_of_def ends_trace_def Let_def split: option.splits icmp_reply.splits)
qed

lemma rtt_stats_result:
  "(case rtts of [] \<Rightarrow> result | r0 # _ \<Rightarrow>
      (case rtt_stats rtts (0, r0, r0) of (tot, mn, mx) \<Rightarrow>
         result\<lparr>tr_MinRTT := mn, tr_MaxRTT := mx, tr_AvgRTT := tot div length rtts\<rparr>)) =
   (if rtts = [] then result
    else result\<lparr>tr_MinRTT := Min (set rtts), tr_MaxRTT := Max (set rtts), tr_AvgRTT := sum_list rtts div length rtts\<rparr>)"
proof (cases rtts)
  case (Cons r0 rest)
  show ?thesis unfolding rtt_stats_Cons [OF Cons, symmetric] using rtt_stats_Cons [OF Cons] Cons by simp
qed simp

lemma trace_loop_start:
  "trace_inv 31 (trace_loop probe 1 \<lparr>ts_hops = [], ts_rtts = [], ts_sent = 0, ts_received = 0\<rparr>)"
  by (rule trace_loop_inv) (simp_all add: trace_inv_def answered_def)

lemma ttl_bound:
  assumes "sorted_wrt (<) ts" and "set ts \<subseteq> {1..30 :: nat}"
  shows "length ts \<le> 30"
  using card_mono [OF _ assms(2)] assms(1) by (simp add: distinct_card strict_sorted_iff)

lemma loss_range:
  fixes sent received :: nat
  assumes "received \<le> sent"
  shows "of_int (int sent - int received) / of_nat sent * 100 \<in> {0..100 :: rat}"
proof -
  have "(of_nat sent - of_nat received :: rat) * 100 \<le> of_nat sent * 100" by simp
  with assms show ?thesis by (cases "sent = 0") (simp_all add: divide_simps)
qed

text \<open>C19.  The path tracer, for every behaviour of the network.  Without a socket there is no result.  Otherwise
  the hops are those of the probes that could be sent, in order, up to and including the first answer that
  is neither a time-exceeded message nor unreadable (at most 30, with increasing time-to-live values); the
  least, greatest and average round-trip times are those of the hops that answered, or 0 when none did, and
  the average lies between the other two; the packet loss is the share of hops without answer, between 0
  and 100 per cent, also when nothing could be sent.\<close>

theorem trace_statistics:
  "case tracePath listen probe dst of
     None \<Rightarrow> \<not> listen
   | Some r \<Rightarrow>
       listen \<and> tr_DstIP r = dst \<and> tr_Hops r = path_from probe 1 \<and> length (tr_Hops r) \<le> 30 \<and>
       sorted_wrt (<) (map hp_TTL (tr_Hops r)) \<and> set (map hp_TTL (tr_Hops r)) \<subseteq> {1..30} \<and>
       (let rtts = answered (tr_Hops r) in
          (if rtts = [] then tr_MinRTT r = 0 \<and> tr_MaxRTT r = 0 \<and> tr_AvgRTT r = 0
           else tr_MinRTT r = Min (set rtts) \<and> tr_MaxRTT r = Max (set rtts) \<and>
             tr_AvgRTT r = sum_list rtts div length rtts) \<and>
          tr_MinRTT r \<le> tr_AvgRTT r \<and> tr_AvgRTT r \<le> tr_MaxRTT r \<and>
          tr_PacketLoss r = of_nat (length (tr_Hops r) - length rtts) / of_nat (length (tr_Hops r)) * 100 \<and>
          tr_PacketLoss r \<in> {0..100})"
proof (cases listen)
  case False
  then show ?thesis by (simp add: tracePath_def)
next
  case True
  define st where "st = trace_loop probe 1 \<lparr>ts_hops = [], ts_rtts = [], ts_sent = 0, ts_received = 0\<rparr>"
  have path: "ts_hops st = path_from probe 1" by (simp add: st_def trace_loop_hops)
  have inv: "trace_inv 31 st" unfolding st_def by (rule trace_loop_start)
  define hops where "hops = ts_hops st"
  define rtts where "rtts = answered hops"
  have st: "ts_sent st = length hops" "ts_received st = length rtts" "ts_rtts st = rtts"
    using inv by (simp_all add: trace_inv_def hops_def rtts_def)
  have ttl: "sorted_wrt (<) (map hp_TTL hops)" "set (map hp_TTL hops) \<subseteq> {1..30}"
    using inv by (auto simp: trace_inv_def hops_def)
  have le: "length rtts \<le> length hops" by (simp add: rtts_def answered_def)
  have n: "length hops \<le> 30" using ttl_bound [OF ttl] by simp
  define r where "r = the (tracePath listen probe dst)"
  have some: "tracePath listen probe dst = Some r" using True by (simp add: r_def tracePath_def Let_def)
  have r: "tr_DstIP r = dst" "tr_Hops r = hops"
      "tr_PacketLoss r = of_nat (length hops - length rtts) / of_nat (length hops) * 100"
      "if rtts = [] then tr_MinRTT r = 0 \<and> tr_MaxRTT r = 0 \<and> tr_AvgRTT r = 0
       else tr_MinRTT r = Min (set rtts) \<and> tr_MaxRTT r = Max (set rtts) \<and> tr_AvgRTT r = sum_list rtts div length rtts"
    using True le unfolding r_def tracePath_def st_def [symmetric] Let_def st rtt_stats_result hops_def [symmetric]
    by (simp_all add: of_nat_diff)
  have "tr_PacketLoss r \<in> {0..100}" using loss_range [OF le] r(3) le by (simp add: of_nat_diff)
  moreover have "tr_MinRTT r \<le> tr_AvgRTT r" "tr_AvgRTT r \<le> tr_MaxRTT r"
    using r(4) average_between [of rtts] by (auto split: if_splits)
  ultimately show ?thesis
    unfolding some option.case Let_def r(2) rtts_def [symmetric]
    using True r(1,3,4) n ttl path [folded hops_def] by blast
qed

end
