(* ===== verification/Cloud.thy ===== *)
theory Cloud
  imports Go_Strings
begin

text \<open>
  The collector of cloud metadata, \<open>src/internal/collector/cloud_metadata.go\<close>.  The HTTP client is an
  argument: what it answers to a URL and request headers, \<open>None\<close> for an error of \<open>NewRequest\<close>, of \<open>Get\<close> or
  of \<open>Do\<close>.  So is \<open>json.Unmarshal\<close> into a map: the values of the keys of the object, of which the source only
  uses those that are strings.
\<close>

section \<open>The collector\<close>

datatype CloudPlatform = CloudNone | CloudAliyun | CloudHuawei | CloudAWS | CloudGCP | CloudAzure

record CloudMetadata =
  cm_Platform :: CloudPlatform
  cm_InstanceID :: string
  cm_InstanceType :: string
  cm_Region :: string
  cm_Zone :: string
  cm_VPCID :: string
  cm_SubnetID :: string
  cm_PrivateIP :: string
  cm_PublicIP :: string
  cm_Hostname :: string
  cm_ImageID :: string



datatype json_value = JString string | JOther


record CloudMetadataCollector =
  cl_platform :: CloudPlatform
  cl_metadata :: "CloudMetadata option"
  cl_stopped :: bool


section \<open>Detection\<close>








section \<open>Collection\<close>











definition getPlatformName :: "CloudPlatform \<Rightarrow> string" where
  "getPlatformName p =
     (case p of CloudAliyun \<Rightarrow> ''aliyun'' | CloudHuawei \<Rightarrow> ''huawei'' | CloudAWS \<Rightarrow> ''aws'' | CloudGCP \<Rightarrow> ''gcp''
      | CloudAzure \<Rightarrow> ''azure'' | CloudNone \<Rightarrow> ''unknown'')"

definition cloud_Stop :: "CloudMetadataCollector \<Rightarrow> ('e, CloudMetadataCollector) outcome" where
  "cloud_Stop c = (if cl_stopped c then Panic else Ok (c\<lparr>cl_stopped := True\<rparr>))"


section \<open>Where the metadata comes from\<close>




















end
