(* ===== verification/K8s.thy ===== *)
theory K8s
  imports Go_Strings Lifecycle
begin

text \<open>
  The Kubernetes client and the enricher of events, \<open>src/internal/k8s/client.go\<close> and \<open>enricher.go\<close>.

  The Kubernetes libraries are third-party code: an informer is represented by what its store and its
  indexes return at the time of the call, and the answers to the set-up calls are the record \<open>k8s_env\<close>.
  The cache of the enricher is the record \<open>lru\<close> of the operations of the LRU library that the source uses;
  what the theorems need of it is the predicate \<open>lru_laws\<close>, which states the documented behaviour of these
  operations: a lookup returns what was added last under the key or nothing, and adding under one key
  may evict other keys but changes no value.
\<close>

section \<open>The client\<close>

record container_status =
  cn_Name :: string
  cn_Image :: string
  cn_ContainerID :: string

record v1_pod =
  po_Name :: string
  po_Namespace :: string
  po_UID :: string
  po_Labels :: "string \<rightharpoonup> string"
  po_NodeName :: string
  po_Phase :: string
  po_ContainerStatuses :: "container_status list"

record v1_node =
  no_Name :: string
  no_Labels :: "string \<rightharpoonup> string"
  no_Addresses :: "(string \<times> string) list"
  no_Conditions :: "(string \<times> string) list"

record 'obj informer =
  in_List :: "'obj list"
  in_ByIndex :: "string \<Rightarrow> string \<Rightarrow> string + 'obj list"
  in_HasSynced :: bool

record PodInfo =
  pi_Name :: string
  pi_Namespace :: string
  pi_NodeName :: string
  pi_UID :: string
  pi_Labels :: "string \<rightharpoonup> string"
  pi_Containers :: "container_status list"

record NodeInfo =
  ni_Name :: string
  ni_Labels :: "string \<rightharpoonup> string"
  ni_Addresses :: "(string \<times> string) list"
  ni_Conditions :: "(string \<times> string) list"

datatype rest_config = InCluster | KubeConfig string | ApiServer string string

record K8sClient =
  kx_config :: rest_config
  kx_nodeName :: string
  kx_namespace :: string
  kx_podInformer :: "v1_pod informer option"
  kx_nodeInformer :: "v1_node informer option"
  kx_running :: bool
  kx_stopped :: bool

record k8s_env =
  kv_inCluster :: bool
  kv_home :: string
  kv_stat :: "string \<Rightarrow> bool"
  kv_build :: "string option"
  kv_read :: "string \<Rightarrow> string + string"
  kv_newForConfig :: "string option"
  kv_hostname :: string
  kv_podInformer :: "v1_pod informer"
  kv_podSync :: bool
  kv_nodeInformer :: "v1_node informer"
  kv_nodeSync :: bool

datatype k8s_error =
    BuildKubeconfig string | ReadToken string | NoConfig | CreateClient string
  | SyncPods | SyncNodes | NotReady

definition NewK8sClient :: "k8s_env \<Rightarrow> string \<Rightarrow> string \<Rightarrow> string \<Rightarrow> string \<Rightarrow> (k8s_error, K8sClient) outcome" where
  "NewK8sClient env apiServer tokenPath nodeName namespace =
     (let kubeconfig = (if kv_home env = '''' then ''.kube/config'' else kv_home env @ ''/.kube/config'') in
      obind (if kv_inCluster env then Ok InCluster
             else if kv_stat env kubeconfig
             then (case kv_build env of Some err \<Rightarrow> Err (BuildKubeconfig err) | None \<Rightarrow> Ok (KubeConfig kubeconfig))
             else if apiServer \<noteq> ''''
             then if tokenPath \<noteq> ''''
                  then (case kv_read env tokenPath of
                          Inl err \<Rightarrow> Err (ReadToken err)
                        | Inr token \<Rightarrow> Ok (ApiServer apiServer token))
                  else Ok (ApiServer apiServer '''')
             else Err NoConfig) (\<lambda>config.
      case kv_newForConfig env of
        Some err \<Rightarrow> Err (CreateClient err)
      | None \<Rightarrow>
          Ok \<lparr>kx_config = config, kx_nodeName = (if nodeName = '''' then kv_hostname env else nodeName),
              kx_namespace = namespace, kx_podInformer = None, kx_nodeInformer = None,
              kx_running = False, kx_stopped = False\<rparr>))"

text \<open>The two informers are assigned before their stores are synchronised, and stay when that fails.\<close>

definition startPodInformer :: "k8s_env \<Rightarrow> K8sClient \<Rightarrow> K8sClient \<times> (k8s_error, unit) outcome" where
  "startPodInformer env c =
     (c\<lparr>kx_podInformer := Some (kv_podInformer env)\<rparr>, if kv_podSync env then Ok () else Err SyncPods)"

definition startNodeInformer :: "k8s_env \<Rightarrow> K8sClient \<Rightarrow> K8sClient \<times> (k8s_error, unit) outcome" where
  "startNodeInformer env c =
     (c\<lparr>kx_nodeInformer := Some (kv_nodeInformer env)\<rparr>, if kv_nodeSync env then Ok () else Err SyncNodes)"

definition k8s_Start :: "k8s_env \<Rightarrow> K8sClient \<Rightarrow> K8sClient \<times> (k8s_error, unit) outcome" where
  "k8s_Start env c =
     (if kx_running c then (c, Ok ())
      else case startPodInformer env c of
        (c, Ok _) \<Rightarrow>
          (case startNodeInformer env c of
             (c, Ok _) \<Rightarrow> (c\<lparr>kx_running := True\<rparr>, Ok ())
           | (c, r) \<Rightarrow> (c, r))
      | (c, r) \<Rightarrow> (c, r))"

definition k8s_Stop :: "K8sClient \<Rightarrow> ('e, K8sClient) outcome" where
  "k8s_Stop c =
     (if \<not> kx_running c then Ok c
      else if kx_stopped c then Panic
      else Ok (c\<lparr>kx_stopped := True, kx_running := False\<rparr>))"

text \<open>\<open>GetPodByPID\<close>: the first pod of the store that is on this node, running, and has a container.\<close>

fun first_pod :: "string \<Rightarrow> v1_pod list \<Rightarrow> PodInfo option" where
  "first_pod nodeName [] = None"
| "first_pod nodeName (pod # pods) =
     (if po_NodeName pod \<noteq> nodeName then first_pod nodeName pods
      else if po_Phase pod \<noteq> ''Running'' then first_pod nodeName pods
      else case po_ContainerStatuses pod of
        [] \<Rightarrow> first_pod nodeName pods
      | cs # _ \<Rightarrow>
          Some \<lparr>pi_Name = po_Name pod, pi_Namespace = po_Namespace pod, pi_NodeName = po_NodeName pod,
                pi_UID = po_UID pod, pi_Labels = po_Labels pod, pi_Containers = [cs]\<rparr>)"

definition GetPodByPID :: "K8sClient \<Rightarrow> 32 word \<Rightarrow> PodInfo option" where
  "GetPodByPID c pid =
     (case kx_podInformer c of None \<Rightarrow> None | Some ix \<Rightarrow> first_pod (kx_nodeName c) (in_List ix))"

definition pod_info :: "v1_pod \<Rightarrow> PodInfo" where
  "pod_info pod =
     \<lparr>pi_Name = po_Name pod, pi_Namespace = po_Namespace pod, pi_NodeName = po_NodeName pod,
      pi_UID = po_UID pod, pi_Labels = po_Labels pod, pi_Containers = []\<rparr>"

definition GetPodByUID :: "K8sClient \<Rightarrow> string \<Rightarrow> PodInfo option" where
  "GetPodByUID c uid =
     (case kx_podInformer c of
        None \<Rightarrow> None
      | Some ix \<Rightarrow>
          (case in_ByIndex ix ''uid'' uid of
             Inr (pod # _) \<Rightarrow> Some (pod_info pod)
           | _ \<Rightarrow> None))"

definition GetPodsByNode :: "K8sClient \<Rightarrow> string \<Rightarrow> PodInfo list" where
  "GetPodsByNode c nodeName =
     (case kx_podInformer c of
        None \<Rightarrow> []
      | Some ix \<Rightarrow> (case in_ByIndex ix ''node'' nodeName of Inl _ \<Rightarrow> [] | Inr pods \<Rightarrow> map pod_info pods))"

definition GetNodeInfo :: "K8sClient \<Rightarrow> NodeInfo option" where
  "GetNodeInfo c =
     (case kx_nodeInformer c of
        None \<Rightarrow> None
      | Some ix \<Rightarrow>
          (case in_ByIndex ix ''name'' (kx_nodeName c) of
             Inr (node # _) \<Rightarrow>
               Some \<lparr>ni_Name = no_Name node, ni_Labels = no_Labels node, ni_Addresses = no_Addresses node,
                     ni_Conditions = no_Conditions node\<rparr>
           | _ \<Rightarrow> None))"

definition GetPodCount :: "K8sClient \<Rightarrow> nat" where
  "GetPodCount c = (case kx_podInformer c of None \<Rightarrow> 0 | Some ix \<Rightarrow> length (in_List ix))"

definition IsRunning :: "K8sClient \<Rightarrow> bool" where
  "IsRunning c = kx_running c"

definition GetServiceAccountToken :: "k8s_env \<Rightarrow> string \<Rightarrow> (k8s_error, string) outcome" where
  "GetServiceAccountToken env tokenPath =
     (let tokenPath = (if tokenPath = '''' then ''/var/run/secrets/kubernetes.io/serviceaccount/token'' else tokenPath) in
      case kv_read env tokenPath of Inl err \<Rightarrow> Err (ReadToken err) | Inr token \<Rightarrow> Ok token)"

text \<open>\<open>WaitForReady\<close>, given the turns of its loop: \<open>None\<close> for the expired context, or the client at a tick.  The
  history ends when the loop has not returned; a nil informer is a panic.\<close>

fun WaitForReady :: "K8sClient option list \<Rightarrow> (k8s_error, bool) outcome" where
  "WaitForReady [] = Ok False"
| "WaitForReady (None # ts) = Err NotReady"
| "WaitForReady (Some c # ts) =
     (if \<not> IsRunning c then WaitForReady ts
      else case kx_podInformer c of
        None \<Rightarrow> Panic
      | Some pods \<Rightarrow>
          if \<not> in_HasSynced pods then WaitForReady ts
          else case kx_nodeInformer c of
            None \<Rightarrow> Panic
          | Some nodes \<Rightarrow> if in_HasSynced nodes then Ok True else WaitForReady ts)"

interpretation k8s_life: lifecycle "\<lambda>env c. fst (k8s_Start env c)" k8s_Stop "\<lambda>env. kv_podSync env \<and> kv_nodeSync env"
  kx_running kx_stopped "\<lambda>_. True"
  by unfold_locales (auto simp: k8s_Start_def k8s_Stop_def startPodInformer_def startNodeInformer_def)

section \<open>The key of the cache\<close>

text \<open>The conversion \<open>string(r)\<close> of a rune: its UTF-8 encoding, with \<open>U+FFFD\<close> for what is not a code point.\<close>

definition valid_rune :: "int \<Rightarrow> bool" where
  "valid_rune r \<longleftrightarrow> 0 \<le> r \<and> r \<le> 0x10FFFF \<and> \<not> (0xD800 \<le> r \<and> r \<le> 0xDFFF)"

definition utf8 :: "nat \<Rightarrow> string" where
  "utf8 n =
     (if n < 0x80 then [char_of n]
      else if n < 0x800 then [char_of (0xC0 + n div 64), char_of (0x80 + n mod 64)]
      else if n < 0x10000 then [char_of (0xE0 + n div 4096), char_of (0x80 + n div 64 mod 64), char_of (0x80 + n mod 64)]
      else [char_of (0xF0 + n div 262144), char_of (0x80 + n div 4096 mod 64), char_of (0x80 + n div 64 mod 64),
            char_of (0x80 + n mod 64)])"

definition string_of_rune :: "32 word \<Rightarrow> string" where
  "string_of_rune r = utf8 (if valid_rune (sint r) then nat (sint r) else 0xFFFD)"

definition formatPID :: "32 word \<Rightarrow> string" where
  "formatPID pid = string_of_rune pid"

section \<open>The enricher\<close>

record 'c lru =
  lru_Get :: "string \<Rightarrow> 'c \<Rightarrow> PodInfo option \<times> 'c"
  lru_Add :: "string \<Rightarrow> PodInfo \<Rightarrow> 'c \<Rightarrow> 'c"
  lru_Remove :: "string \<Rightarrow> 'c \<Rightarrow> 'c"
  lru_Purge :: "'c \<Rightarrow> 'c"
  lru_Len :: "'c \<Rightarrow> nat"

text \<open>\<open>en_client\<close> is \<open>None\<close> for a nil client.\<close>

record 'c EventEnricher =
  en_client :: "K8sClient option"
  en_podCache :: 'c
  en_running :: bool
  en_stopped :: bool

record EnrichedEvent =
  ee_TimestampNS :: "64 word"
  ee_PID :: "32 word"
  ee_EventType :: string
  ee_Protocol :: string
  ee_SrcIP :: string
  ee_DstIP :: string
  ee_SrcPort :: "16 word"
  ee_DstPort :: "16 word"
  ee_Bytes :: "64 word"
  ee_LatencyNS :: "64 word"
  ee_Comm :: string
  ee_Data :: string
  ee_PodName :: string
  ee_PodNamespace :: string
  ee_PodUID :: string
  ee_NodeName :: string
  ee_Labels :: "string \<rightharpoonup> string"
  ee_ContainerName :: string

text \<open>\<open>new\<close> is the result of \<open>lru.New\<close> for a capacity of 10000.\<close>

definition NewEventEnricher :: "(nat \<Rightarrow> string + 'c) \<Rightarrow> K8sClient option \<Rightarrow> (string, 'c EventEnricher) outcome" where
  "NewEventEnricher new client =
     (case new 10000 of
        Inl err \<Rightarrow> Err err
      | Inr cache \<Rightarrow> Ok \<lparr>en_client = client, en_podCache = cache, en_running = False, en_stopped = False\<rparr>)"

definition enricher_Start :: "'c EventEnricher \<Rightarrow> 'c EventEnricher" where
  "enricher_Start e = (if en_running e then e else e\<lparr>en_running := True\<rparr>)"

definition enricher_Stop :: "'c EventEnricher \<Rightarrow> ('e, 'c EventEnricher) outcome" where
  "enricher_Stop e =
     (if \<not> en_running e then Ok e
      else if en_stopped e then Panic
      else Ok (e\<lparr>en_stopped := True, en_running := False\<rparr>))"

definition getPodFromCache :: "'c lru \<Rightarrow> 32 word \<Rightarrow> 'c EventEnricher \<Rightarrow> PodInfo option \<times> 'c EventEnricher" where
  "getPodFromCache l pid e =
     (case lru_Get l (formatPID pid) (en_podCache e) of (p, cache) \<Rightarrow> (p, e\<lparr>en_podCache := cache\<rparr>))"

definition addToCache :: "'c lru \<Rightarrow> 32 word \<Rightarrow> PodInfo \<Rightarrow> 'c EventEnricher \<Rightarrow> 'c EventEnricher" where
  "addToCache l pid podInfo e = e\<lparr>en_podCache := lru_Add l (formatPID pid) podInfo (en_podCache e)\<rparr>"

definition with_pod :: "PodInfo \<Rightarrow> EnrichedEvent \<Rightarrow> EnrichedEvent" where
  "with_pod podInfo event =
     (let event = event\<lparr>ee_PodName := pi_Name podInfo, ee_PodNamespace := pi_Namespace podInfo,
            ee_PodUID := pi_UID podInfo, ee_NodeName := pi_NodeName podInfo, ee_Labels := pi_Labels podInfo\<rparr>
      in case pi_Containers podInfo of [] \<Rightarrow> event | cs # _ \<Rightarrow> event\<lparr>ee_ContainerName := cn_Name cs\<rparr>)"

definition Enrich ::
  "'c lru \<Rightarrow> 32 word \<Rightarrow> EnrichedEvent option \<Rightarrow> 'c EventEnricher \<Rightarrow> 'c EventEnricher \<times> EnrichedEvent option" where
  "Enrich l pid event e =
     (case event of
        None \<Rightarrow> (e, None)
      | Some event \<Rightarrow>
          (case en_client e of
             None \<Rightarrow> (e, Some event)
           | Some client \<Rightarrow>
               if \<not> en_running e then (e, Some event)
               else
                 let (podInfo, e) = getPodFromCache l pid e;
                     (podInfo, e) =
                       (case podInfo of
                          Some p \<Rightarrow> (Some p, e)
                        | None \<Rightarrow>
                            (case GetPodByPID client pid of
                               None \<Rightarrow> (None, e)
                             | Some p \<Rightarrow> (Some p, addToCache l pid p e)))
                 in case podInfo of
                      Some p \<Rightarrow> (e, Some (with_pod p event))
                    | None \<Rightarrow> (e, Some (event\<lparr>ee_NodeName := kx_nodeName client\<rparr>))))"

definition GetCacheStats :: "'c lru \<Rightarrow> 'c EventEnricher \<Rightarrow> nat \<times> bool" where
  "GetCacheStats l e = (lru_Len l (en_podCache e), en_running e)"

definition InvalidateCache :: "'c lru \<Rightarrow> 32 word \<Rightarrow> 'c EventEnricher \<Rightarrow> 'c EventEnricher" where
  "InvalidateCache l pid e = e\<lparr>en_podCache := lru_Remove l (formatPID pid) (en_podCache e)\<rparr>"

definition InvalidateAllCache :: "'c lru \<Rightarrow> 'c EventEnricher \<Rightarrow> 'c EventEnricher" where
  "InvalidateAllCache l e = e\<lparr>en_podCache := lru_Purge l (en_podCache e)\<rparr>"

interpretation enricher: lifecycle "\<lambda>_ :: unit. enricher_Start" enricher_Stop "\<lambda>_. True" en_running en_stopped "\<lambda>_. True"
  by unfold_locales (auto simp: enricher_Start_def enricher_Stop_def)

section \<open>Which processes share a key\<close>

definition utf8_value :: "nat list \<Rightarrow> nat" where
  "utf8_value bs =
     (case bs of
        [a] \<Rightarrow> a
      | [a, b] \<Rightarrow> (a - 0xC0) * 64 + (b - 0x80)
      | [a, b, c] \<Rightarrow> (a - 0xE0) * 4096 + (b - 0x80) * 64 + (c - 0x80)
      | [a, b, c, d] \<Rightarrow> (a - 0xF0) * 262144 + (b - 0x80) * 4096 + (c - 0x80) * 64 + (d - 0x80)
      | _ \<Rightarrow> 0)"

lemma div_mod_64:
  fixes n :: nat
  shows "n div 64 * 64 + n mod 64 = n" "n div 4096 * 4096 + n div 64 mod 64 * 64 + n mod 64 = n"
    "n div 262144 * 262144 + n div 4096 mod 64 * 4096 + n div 64 mod 64 * 64 + n mod 64 = n"
proof -
  show 1: "n div 64 * 64 + n mod 64 = n" for n :: nat by simp
  have d: "n div 4096 = n div 64 div 64" "n div 262144 = n div 4096 div 64" by (simp_all add: div_mult2_eq [symmetric])
  show 2: "n div 4096 * 4096 + n div 64 mod 64 * 64 + n mod 64 = n"
    unfolding d(1) using 1 [of n] 1 [of "n div 64"] by linarith
  show "n div 262144 * 262144 + n div 4096 mod 64 * 4096 + n div 64 mod 64 * 64 + n mod 64 = n"
    unfolding d(2) using 2 1 [of "n div 4096"] by linarith
qed

lemma utf8_value_utf8: "n \<le> 0x10FFFF \<Longrightarrow> utf8_value (map of_char (utf8 n)) = n"
proof -
  assume n: "n \<le> 0x10FFFF"
  have byte: "(of_char (char_of x) :: nat) = x" if "x < 256" for x :: nat using that by (simp add: of_char_of)
  have b1: "n < 0x800 \<Longrightarrow> 192 + n div 64 < 256" by (simp add: less_mult_imp_div_less)
  have b2: "n < 0x10000 \<Longrightarrow> 224 + n div 4096 < 256" by (simp add: less_mult_imp_div_less)
  have b3: "240 + n div 262144 < 256"
    using n by (simp add: less_mult_imp_div_less)
  have b4: "128 + x mod 64 < 256" for x :: nat
    using mod_less_divisor [of 64 x] by simp
  show ?thesis
    using n div_mod_64 [of n] by (simp add: utf8_def utf8_value_def byte b1 b2 b3 b4)
qed

lemma utf8_inj: "n \<le> 0x10FFFF \<Longrightarrow> m \<le> 0x10FFFF \<Longrightarrow> utf8 n = utf8 m \<Longrightarrow> n = m"
  by (metis utf8_value_utf8)

text \<open>The numbers that have a key of their own: code points other than the replacement character.\<close>

definition own_key :: "32 word \<Rightarrow> bool" where
  "own_key pid \<longleftrightarrow> unat pid \<le> 0x10FFFF \<and> \<not> (0xD800 \<le> unat pid \<and> unat pid \<le> 0xDFFF) \<and> unat pid \<noteq> 0xFFFD"

lemma valid_rune_sint: "valid_rune (sint (pid :: 32 word)) \<longleftrightarrow> unat pid \<le> 0x10FFFF \<and> \<not> (0xD800 \<le> unat pid \<and> unat pid \<le> 0xDFFF)"
  "valid_rune (sint pid) \<Longrightarrow> nat (sint pid) = unat pid"
proof -
  have lt: "unat pid < 2 ^ 32" using unsigned_less [where 'a = nat, of pid] by simp
  have wrap: "(int x + 2 ^ 31) mod 2 ^ 32 = (if x < 2 ^ 31 then int x + 2 ^ 31 else int x - 2 ^ 31)"
    if "x < 2 ^ 32" for x :: nat
  proof (cases "x < 2 ^ 31")
    case False
    have "(int x + 2 ^ 31) mod 2 ^ 32 = (int x + 2 ^ 31 - 2 ^ 32) mod 2 ^ 32" by (simp only: minus_mod_self2)
    also have "\<dots> = int x + 2 ^ 31 - 2 ^ 32" using that False by (intro mod_pos_pos_trivial) simp_all
    finally show ?thesis using False by simp
  qed simp
  have s: "sint pid = (if unat pid < 2 ^ 31 then int (unat pid) else int (unat pid) - 2 ^ 32)"
  proof -
    have u: "uint pid = int (unat pid)" by simp
    have "sint pid = (int (unat pid) + 2 ^ 31) mod 2 ^ 32 - 2 ^ 31"
      unfolding sint_uint u by (simp add: signed_take_bit_eq_take_bit_shift take_bit_eq_mod)
    with wrap [OF lt] show ?thesis by simp
  qed
  obtain x where x: "unat pid = x" by simp
  show "valid_rune (sint pid) \<longleftrightarrow> unat pid \<le> 0x10FFFF \<and> \<not> (0xD800 \<le> unat pid \<and> unat pid \<le> 0xDFFF)"
    using lt unfolding s x valid_rune_def by auto
  show "valid_rune (sint pid) \<Longrightarrow> nat (sint pid) = unat pid"
    using lt unfolding s x valid_rune_def by (auto split: if_splits)
qed

lemma formatPID_key: "formatPID pid = utf8 (if own_key pid then unat pid else 0xFFFD)"
  using valid_rune_sint [of pid] by (auto simp: formatPID_def string_of_rune_def own_key_def)

text \<open>C21.  The keys of the enricher's cache: two processes have the same key exactly when they are the same
  process or when both have a number that is no Unicode code point, is a surrogate or is 65533.  Linux
  hands out process numbers up to 4194304, so the numbers above 1114111 all share one key.\<close>

theorem formatPID_collisions:
  "formatPID p = formatPID q \<longleftrightarrow> p = q \<or> \<not> own_key p \<and> \<not> own_key q"
proof -
  have le: "own_key r \<Longrightarrow> unat r \<le> 0x10FFFF" "own_key r \<Longrightarrow> unat r \<noteq> 0xFFFD" for r
    by (simp_all add: own_key_def)
  show ?thesis
  proof (cases "own_key p"; cases "own_key q")
    assume "own_key p" "own_key q"
    then show ?thesis using utf8_inj [of "unat p" "unat q"] le by (auto simp: formatPID_key word_unat_eq_iff)
  next
    assume "own_key p" "\<not> own_key q"
    then show ?thesis using utf8_inj [of "unat p" "0xFFFD"] le [of p] by (auto simp: formatPID_key)
  next
    assume "\<not> own_key p" "own_key q"
    then show ?thesis using utf8_inj [of "0xFFFD" "unat q"] le [of q] by (auto simp: formatPID_key)
  next
    assume "\<not> own_key p" "\<not> own_key q"
    then show ?thesis by (simp add: formatPID_key)
  qed
qed

section \<open>Where the metadata comes from\<close>

definition lru_laws :: "'c lru \<Rightarrow> ('c \<Rightarrow> string \<rightharpoonup> PodInfo) \<Rightarrow> bool" where
  "lru_laws l view \<longleftrightarrow>
     (\<forall>k c. fst (lru_Get l k c) = view c k \<and> view (snd (lru_Get l k c)) = view c) \<and>
     (\<forall>k v c. view (lru_Add l k v c) k = Some v) \<and>
     (\<forall>k v c k'. k' \<noteq> k \<longrightarrow> view (lru_Add l k v c) k' = None \<or> view (lru_Add l k v c) k' = view c k') \<and>
     (\<forall>k c. view (lru_Remove l k c) = (view c)(k := None)) \<and>
     (\<forall>c. view (lru_Purge l c) = Map.empty)"

text \<open>A use of the enricher: events of processes, each with the client as it is at that time, and the two
  operations that forget.\<close>

datatype en_op = EnrichOp "32 word" EnrichedEvent K8sClient | InvalidateOp "32 word" | InvalidateAllOp

fun en_step :: "'c lru \<Rightarrow> en_op \<Rightarrow> 'c EventEnricher \<Rightarrow> 'c EventEnricher" where
  "en_step l (EnrichOp pid ev client) e = fst (Enrich l pid (Some ev) (e\<lparr>en_client := Some client\<rparr>))"
| "en_step l (InvalidateOp pid) e = InvalidateCache l pid e"
| "en_step l InvalidateAllOp e = InvalidateAllCache l e"

definition en_run :: "'c lru \<Rightarrow> en_op list \<Rightarrow> 'c EventEnricher \<Rightarrow> 'c EventEnricher" where
  "en_run l ops e = fold (en_step l) ops e"

text \<open>A pod that some call found for a process with this key.\<close>

definition found_by :: "en_op list \<Rightarrow> string \<Rightarrow> PodInfo \<Rightarrow> bool" where
  "found_by ops key p \<longleftrightarrow>
     list_ex (\<lambda>op. case op of EnrichOp pid ev client \<Rightarrow> formatPID pid = key \<and> GetPodByPID client pid = Some p | _ \<Rightarrow> False) ops"

lemma found_by_append [simp]:
  "found_by (ops @ [op]) key p \<longleftrightarrow> found_by ops key p \<or>
     (case op of EnrichOp pid ev client \<Rightarrow> formatPID pid = key \<and> GetPodByPID client pid = Some p | _ \<Rightarrow> False)"
  by (auto simp: found_by_def)

text \<open>What a running enricher with a client does with an event.\<close>

definition pod_for :: "'c lru \<Rightarrow> 32 word \<Rightarrow> K8sClient \<Rightarrow> 'c \<Rightarrow> PodInfo option" where
  "pod_for l pid client cache =
     (case fst (lru_Get l (formatPID pid) cache) of Some p \<Rightarrow> Some p | None \<Rightarrow> GetPodByPID client pid)"

lemma Enrich_running:
  assumes "en_running e"
  shows "snd (Enrich l pid (Some ev) (e\<lparr>en_client := Some client\<rparr>)) =
      Some (case pod_for l pid client (en_podCache e) of
              Some p \<Rightarrow> with_pod p ev | None \<Rightarrow> ev\<lparr>ee_NodeName := kx_nodeName client\<rparr>)"
    and "en_podCache (fst (Enrich l pid (Some ev) (e\<lparr>en_client := Some client\<rparr>))) =
      (case fst (lru_Get l (formatPID pid) (en_podCache e)) of
         Some p \<Rightarrow> snd (lru_Get l (formatPID pid) (en_podCache e))
       | None \<Rightarrow>
           (case GetPodByPID client pid of
              None \<Rightarrow> snd (lru_Get l (formatPID pid) (en_podCache e))
            | Some p \<Rightarrow> lru_Add l (formatPID pid) p (snd (lru_Get l (formatPID pid) (en_podCache e)))))"
    and "en_running (fst (Enrich l pid (Some ev) (e\<lparr>en_client := Some client\<rparr>)))"
  using assms
  by (auto simp: Enrich_def getPodFromCache_def addToCache_def pod_for_def split: prod.splits option.splits)

lemma en_run_cache:
  assumes laws: "lru_laws l view" and "en_running e" and "view (en_podCache e) = Map.empty"
  shows "en_running (en_run l ops e) \<and>
    (\<forall>key p. view (en_podCache (en_run l ops e)) key = Some p \<longrightarrow> found_by ops key p)"
proof (induction ops rule: rev_induct)
  case Nil
  with assms show ?case by (simp add: en_run_def)
next
  case (snoc op ops)
  let ?e = "en_run l ops e"
  have step: "en_run l (ops @ [op']) e = en_step l op' ?e" for op' by (simp add: en_run_def)
  have run: "en_running ?e" and ih: "\<And>key p. view (en_podCache ?e) key = Some p \<Longrightarrow> found_by ops key p"
    using snoc by auto
  show ?case
  proof (cases op)
    case (EnrichOp pid ev client)
    let ?e' = "fst (Enrich l pid (Some ev) (?e\<lparr>en_client := Some client\<rparr>))"
    have "found_by (ops @ [op]) key p" if v: "view (en_podCache ?e') key = Some p" for key p
    proof (cases "fst (lru_Get l (formatPID pid) (en_podCache ?e)) = None \<and> GetPodByPID client pid \<noteq> None")
      case True
      then obtain q where q: "GetPodByPID client pid = Some q" by blast
      let ?c = "snd (lru_Get l (formatPID pid) (en_podCache ?e))"
      have c: "en_podCache ?e' = lru_Add l (formatPID pid) q ?c" using Enrich_running(2) [OF run] True q by simp
      show ?thesis
      proof (cases "key = formatPID pid")
        case True
        with v c laws q show ?thesis by (simp add: EnrichOp lru_laws_def)
      next
        case False
        with laws have "view (en_podCache ?e') key = None \<or> view (en_podCache ?e') key = view ?c key"
          unfolding c lru_laws_def by blast
        with v laws ih show ?thesis by (auto simp: lru_laws_def)
      qed
    next
      case False
      then have "en_podCache ?e' = snd (lru_Get l (formatPID pid) (en_podCache ?e))"
        using Enrich_running(2) [OF run, of l pid ev client] by (auto split: option.splits)
      with v laws ih show ?thesis by (simp add: lru_laws_def)
    qed
    with Enrich_running(3) [OF run] show ?thesis unfolding step unfolding EnrichOp en_step.simps by blast
  next
    case (InvalidateOp pid)
    with laws run ih show ?thesis
      by (auto simp: step InvalidateCache_def lru_laws_def split: if_splits)
  next
    case InvalidateAllOp
    with laws run show ?thesis by (simp add: step InvalidateAllCache_def lru_laws_def)
  qed
qed

text \<open>C20.  Where the metadata of an event comes from, for any cache that behaves as the LRU library documents and
  after any use of the enricher: the event gets either the pod that the client found for a process
  with the same key, at some call since the start, or, when the client finds none now, only the name
  of the node.\<close>

theorem enrich_provenance:
  assumes "lru_laws l view" and "new 10000 = Inr c0" and "view c0 = Map.empty"
    and "NewEventEnricher new client0 = Ok e"
  shows "\<exists>ev'. snd (Enrich l pid (Some ev) ((en_run l ops (enricher_Start e))\<lparr>en_client := Some client\<rparr>)) = Some ev' \<and>
    ((\<exists>p. ev' = with_pod p ev \<and> found_by (ops @ [EnrichOp pid ev client]) (formatPID pid) p) \<or>
     (GetPodByPID client pid = None \<and> ev' = ev\<lparr>ee_NodeName := kx_nodeName client\<rparr>))"
proof -
  let ?e = "en_run l ops (enricher_Start e)"
  have "en_running (enricher_Start e)" "view (en_podCache (enricher_Start e)) = Map.empty"
    using assms by (auto simp: enricher_Start_def NewEventEnricher_def)
  from en_run_cache [OF assms(1) this, of ops]
  have run: "en_running ?e" and cache: "\<And>key p. view (en_podCache ?e) key = Some p \<Longrightarrow> found_by ops key p" by auto
  have get: "fst (lru_Get l (formatPID pid) (en_podCache ?e)) = view (en_podCache ?e) (formatPID pid)"
    using assms(1) by (simp add: lru_laws_def)
  show ?thesis
  proof (cases "pod_for l pid client (en_podCache ?e)")
    case None
    then show ?thesis using Enrich_running(1) [OF run] by (simp add: pod_for_def split: option.splits)
  next
    case (Some p)
    then have "found_by (ops @ [EnrichOp pid ev client]) (formatPID pid) p"
      using cache by (auto simp: pod_for_def get split: option.splits)
    with Some show ?thesis using Enrich_running(1) [OF run] by auto
  qed
qed

text \<open>An LRU cache: the entries, the one used last in front.\<close>

definition list_lru :: "(string \<times> PodInfo) list lru" where
  "list_lru =
     \<lparr>lru_Get = \<lambda>k c. case map_of c k of None \<Rightarrow> (None, c) | Some v \<Rightarrow> (Some v, (k, v) # filter (\<lambda>x. fst x \<noteq> k) c),
      lru_Add = \<lambda>k v c. take 10000 ((k, v) # filter (\<lambda>x. fst x \<noteq> k) c),
      lru_Remove = \<lambda>k c. filter (\<lambda>x. fst x \<noteq> k) c, lru_Purge = \<lambda>c. [], lru_Len = length\<rparr>"

lemma map_of_filter_key: "map_of (filter (\<lambda>x. fst x \<noteq> k) c) = (map_of c)(k := None)"
  by (induction c) auto

lemma map_of_take: "map_of (take n c) k = None \<or> map_of (take n c) k = map_of c k"
  by (metis append_take_drop_id map_add_find_right map_of_append not_None_eq)

lemma list_lru_laws: "lru_laws list_lru map_of"
proof -
  have 1: "map_of c k = Some v \<Longrightarrow> (map_of c)(k := None, k \<mapsto> v) = map_of c" for c :: "(string \<times> PodInfo) list" and k v
    by auto
  have 2: "k' \<noteq> k \<Longrightarrow> map_of (take 9999 (filter (\<lambda>x. fst x \<noteq> k) c)) k' = None \<or>
      map_of (take 9999 (filter (\<lambda>x. fst x \<noteq> k) c)) k' = map_of c k'" for c :: "(string \<times> PodInfo) list" and k k'
    using map_of_take [of 9999 "filter (\<lambda>x. fst x \<noteq> k) c" k'] by (simp add: map_of_filter_key)
  show ?thesis
    unfolding lru_laws_def using 2
    by (auto simp: list_lru_def map_of_filter_key fun_upd_idem 1 split: option.splits)
qed

definition pod_web :: v1_pod where
  "pod_web = \<lparr>po_Name = ''web'', po_Namespace = ''default'', po_UID = ''u'', po_Labels = Map.empty, po_NodeName = ''n1'',
     po_Phase = ''Running'', po_ContainerStatuses = [\<lparr>cn_Name = ''nginx'', cn_Image = ''i'', cn_ContainerID = ''c''\<rparr>]\<rparr>"

definition client_web :: "v1_pod list \<Rightarrow> K8sClient" where
  "client_web pods = \<lparr>kx_config = InCluster, kx_nodeName = ''n1'', kx_namespace = '''',
     kx_podInformer = Some \<lparr>in_List = pods, in_ByIndex = \<lambda>_ _. Inr [], in_HasSynced = True\<rparr>,
     kx_nodeInformer = None, kx_running = True, kx_stopped = False\<rparr>"

definition event0 :: EnrichedEvent where
  "event0 = \<lparr>ee_TimestampNS = 0, ee_PID = 7, ee_EventType = '''', ee_Protocol = '''', ee_SrcIP = '''', ee_DstIP = '''',
     ee_SrcPort = 0, ee_DstPort = 0, ee_Bytes = 0, ee_LatencyNS = 0, ee_Comm = '''', ee_Data = '''', ee_PodName = '''',
     ee_PodNamespace = '''', ee_PodUID = '''', ee_NodeName = '''', ee_Labels = Map.empty, ee_ContainerName = ''''\<rparr>"

theorem enrich_provenance_witness:
  "\<exists>e ev'. NewEventEnricher (\<lambda>_. Inr []) None = Ok e \<and>
     snd (Enrich list_lru 7 (Some event0)
       ((en_run list_lru [] (enricher_Start e))\<lparr>en_client := Some (client_web [pod_web])\<rparr>)) = Some ev' \<and>
     ee_PodName ev' = ''web'' \<and> ee_ContainerName ev' = ''nginx''"
proof -
  let ?c = "client_web [pod_web]"
  obtain e where e: "NewEventEnricher (\<lambda>_. Inr []) None = Ok (e :: (string \<times> PodInfo) list EventEnricher)"
    by (simp add: NewEventEnricher_def)
  obtain p where p: "GetPodByPID ?c 7 = Some p" "ee_PodName (with_pod p event0) = ''web''"
      "ee_ContainerName (with_pod p event0) = ''nginx''"
    by (simp add: GetPodByPID_def client_web_def pod_web_def with_pod_def)
  have q: "found_by ([] @ [EnrichOp 7 event0 ?c]) (formatPID 7) q \<Longrightarrow> q = p" for q
    using p(1) by (simp add: found_by_def)
  obtain ev' where "snd (Enrich list_lru 7 (Some event0) ((en_run list_lru [] (enricher_Start e))\<lparr>en_client := Some ?c\<rparr>)) = Some ev'"
    and "(\<exists>p. ev' = with_pod p event0 \<and> found_by ([] @ [EnrichOp 7 event0 ?c]) (formatPID 7) p) \<or> GetPodByPID ?c 7 = None"
    using enrich_provenance [OF list_lru_laws refl map_of.simps(1) e, where pid = 7 and ev = event0 and ops = "[]" and client = ?c]
    by blast
  moreover from this(2) q p(1) have "ev' = with_pod p event0" by fastforce
  ultimately show ?thesis using e p(2,3) by (intro exI [of _ e] exI [of _ ev'] conjI) simp_all
qed

end
