(* ===== verification/Probe.thy ===== *)
theory Probe
  imports Manager K8s
begin

text \<open>
  The program entry, \<open>src/cmd/probe/main.go\<close>: loading of the configuration, construction of the writers,
  the manager and the Kubernetes integration, the API handlers, and the shutdown.  The file system, the
  YAML decoder, the environment variables and everything the components take from outside are the record
  \<open>main_env\<close>.  Log lines are left out, and with them the detection of offsets, whose result is only logged;
  the branches that end the program when \<open>InitFromConfig\<close> or \<open>StartAll\<close> fail are unreachable, since both
  always return nil.
\<close>

section \<open>Configuration\<close>

record tls_section =
  xt_Enabled :: bool
  xt_Libraries :: "string list"
  xt_CaptureHandshake :: bool

record http2_section =
  xh_Enabled :: bool
  xh_DecodeHPACK :: bool

record sniffer_section =
  xs_Enabled :: bool
  xs_Protocols :: "string list"
  xs_PortOverride :: "16 word \<rightharpoonup> string"

record log_section =
  xl_Enabled :: bool
  xl_BufferSize :: int
  xl_MaxLineLength :: int
  xl_FilterPatterns :: "string list"

record k8s_section =
  xk_Enabled :: bool
  xk_Mode :: string
  xk_APIServer :: string
  xk_TokenPath :: string
  xk_NamespaceFilter :: string
  xk_PodLabelSelector :: string
  xk_NodeName :: string
  xk_EnrichEvents :: bool

record Config =
  cg_ProbeID :: string
  cg_Interface :: string
  cg_APIPort :: string
  cg_ClickhouseAddr :: string
  cg_ClickhouseUser :: string
  cg_ClickhousePassword :: string
  cg_ClickhouseDatabase :: string
  cg_EdgeAddr :: string
  cg_Collectors :: CollectorConfig
  cg_TLS :: tls_section
  cg_HTTP2 :: http2_section
  cg_Sniffer :: sniffer_section
  cg_LogCollect :: log_section
  cg_Kubernetes :: k8s_section
  cg_OffsetsMode :: string
  cg_OffsetsManualPath :: string
  cg_LogLevel :: string

record 'c main_env =
  ma_read :: "string \<Rightarrow> string + string"
  ma_yaml :: "string \<Rightarrow> string + Config"
  ma_getenv :: "string \<Rightarrow> string"
  ma_kernel :: kernel_env
  ma_db :: ch_db
  ma_mgr :: mgr_env
  ma_order :: "string list"
  ma_k8s :: k8s_env
  ma_lru :: "nat \<Rightarrow> string + 'c"

datatype config_error = ReadConfig string | ParseConfig string

definition loadConfig :: "'c main_env \<Rightarrow> string \<Rightarrow> (config_error, Config) outcome" where
  "loadConfig env path =
     (case ma_read env path of
        Inl err \<Rightarrow> Err (ReadConfig err)
      | Inr data \<Rightarrow>
          (case ma_yaml env data of
             Inl err \<Rightarrow> Err (ParseConfig err)
           | Inr cfg \<Rightarrow>
               let v = ma_getenv env ''EDGE_ADDR''; cfg = (if v \<noteq> '''' then cfg\<lparr>cg_EdgeAddr := v\<rparr> else cfg);
                   v = ma_getenv env ''PROBE_ID''; cfg = (if v \<noteq> '''' then cfg\<lparr>cg_ProbeID := v\<rparr> else cfg);
                   v = ma_getenv env ''INTERFACE''; cfg = (if v \<noteq> '''' then cfg\<lparr>cg_Interface := v\<rparr> else cfg);
                   v = ma_getenv env ''CLICKHOUSE_ADDR''; cfg = (if v \<noteq> '''' then cfg\<lparr>cg_ClickhouseAddr := v\<rparr> else cfg);
                   v = ma_getenv env ''NODE_NAME'';
                   cfg = (if v \<noteq> '''' then cfg\<lparr>cg_Kubernetes := (cg_Kubernetes cfg)\<lparr>xk_NodeName := v\<rparr>\<rparr> else cfg)
               in Ok cfg))"

section \<open>Start\<close>

definition main_writers :: "ch_db \<Rightarrow> Config \<Rightarrow> any_writer list \<times> effect list" where
  "main_writers db cfg =
     (let writers = [];
          writers = (if cg_EdgeAddr cfg \<noteq> ''''
                     then writers @ [WEdge (edge_Start (NewEdgeClient (cg_EdgeAddr cfg) (cg_ProbeID cfg)))] else writers)
      in if cg_ClickhouseAddr cfg \<noteq> ''''
         then (case NewClickHouseWriter db (cg_ClickhouseAddr cfg) (cg_ClickhouseUser cfg) (cg_ClickhousePassword cfg)
                      (cg_ClickhouseDatabase cfg) of
                 (fx, Ok chWriter) \<Rightarrow> (writers @ [WClickHouse chWriter], fx)
               | (fx, _) \<Rightarrow> (writers, fx))
         else (writers, []))"

text \<open>The client and the enricher the integration leaves running.\<close>

definition main_k8s :: "'c main_env \<Rightarrow> Config \<Rightarrow> K8sClient option \<times> 'c EventEnricher option" where
  "main_k8s env cfg =
     (let k = cg_Kubernetes cfg in
      if \<not> xk_Enabled k then (None, None)
      else case NewK8sClient (ma_k8s env) (xk_APIServer k) (xk_TokenPath k) (xk_NodeName k) (xk_NamespaceFilter k) of
        Ok k8sClient \<Rightarrow>
          (case k8s_Start (ma_k8s env) k8sClient of
             (k8sClient, Ok _) \<Rightarrow>
               (case NewEventEnricher (ma_lru env) (Some k8sClient) of
                  Ok e \<Rightarrow> (Some k8sClient, Some (enricher_Start e))
                | _ \<Rightarrow> (Some k8sClient, None))
           | (k8sClient, _) \<Rightarrow> (Some k8sClient, None))
      | _ \<Rightarrow> (None, None))"

record 'c probe =
  pb_config :: Config
  pb_writers :: "any_writer list"
  pb_manager :: Manager
  pb_client :: "K8sClient option"
  pb_enricher :: "'c EventEnricher option"
  pb_apiAddr :: "string option"

datatype 'c main_result =
    ShowVersion | FatalConfig config_error | FatalCapabilities string | Crashed | Running "'c probe" "effect list"

definition main_start :: "'c main_env \<Rightarrow> string \<Rightarrow> bool \<Rightarrow> 'c main_result" where
  "main_start env configPath showVersion =
     (if showVersion then ShowVersion
      else case loadConfig env configPath of
        Err e \<Rightarrow> FatalConfig e
      | Panic \<Rightarrow> Crashed
      | Ok cfg \<Rightarrow>
          (case DetectCapabilities (ma_kernel env) of
             Err e \<Rightarrow> FatalCapabilities e
           | Panic \<Rightarrow> Crashed
           | Ok k \<Rightarrow>
               let (writers, fx) = main_writers (ma_db env) cfg;
                   mgr = InitFromConfig (ma_mgr env) (cg_Collectors cfg) (NewManager k (cg_ProbeID cfg));
                   (client, enricher) = main_k8s env cfg;
                   mgr = StartAll (ma_mgr env) (ma_order env) mgr
               in Running \<lparr>pb_config = cfg, pb_writers = writers, pb_manager = mgr, pb_client = client,
                    pb_enricher = enricher,
                    pb_apiAddr = (if cg_APIPort cfg \<noteq> '''' then Some ('':'' @ cg_APIPort cfg) else None)\<rparr> fx))"

section \<open>The API and the shutdown\<close>

record api_answer =
  aa_status :: int
  aa_contentType :: "string option"
  aa_body :: string

text \<open>The three handlers; a path without handler is answered by the library (\<open>None\<close>).\<close>

definition api_handler :: "Manager \<Rightarrow> string \<Rightarrow> api_answer option" where
  "api_handler mgr path =
     (if path = ''/health''
      then Some \<lparr>aa_status = 200, aa_contentType = None, aa_body = ''{'' @ quoted ''status'' @ '':'' @ quoted ''ok'' @ ''}''\<rparr>
      else if path = ''/ready''
      then Some \<lparr>aa_status = 200, aa_contentType = None, aa_body = ''{'' @ quoted ''status'' @ '':'' @ quoted ''ready'' @ ''}''\<rparr>
      else if path = ''/status''
      then (let status = mgr_Status mgr in
            Some \<lparr>aa_status = 200, aa_contentType = Some ''application/json'',
              aa_body = ''{'' @ quoted ''collectors'' @ '':'' @ ''{}''\<rparr>)
      else None)"


section \<open>From a record in the ring buffer to the server\<close>

text \<open>An effect that loses no event, a writer that can be closed, and a world in which nothing fails: the encoder
  encodes, the edge server answers 200, and the database accepts every statement.\<close>

definition lossless :: "effect list \<Rightarrow> bool" where
  "lossless fx \<longleftrightarrow>
     list_all (\<lambda>f. case f of DroppedAfterRetries evs \<Rightarrow> evs = [] | NotMarshalled evs \<Rightarrow> evs = []
       | NotInserted evs \<Rightarrow> evs = [] | _ \<Rightarrow> True) fx"

lemma lossless_simps [simp]: "lossless []" "lossless (fx @ gx) \<longleftrightarrow> lossless fx \<and> lossless gx"
  "lossless (Logged m # fx) \<longleftrightarrow> lossless fx" "lossless (LoggedError e # fx) \<longleftrightarrow> lossless fx"
  "lossless (Sent evs # fx) \<longleftrightarrow> lossless fx" "lossless (Inserted evs # fx) \<longleftrightarrow> lossless fx"
  by (simp_all add: lossless_def)











lemma main_start_parts:
  assumes "main_start env path v = Running pb fx"
  obtains cfg k where "loadConfig env path = Ok cfg" "DetectCapabilities (ma_kernel env) = Ok k" "pb_config pb = cfg"
    "pb_writers pb = fst (main_writers (ma_db env) cfg)"
    "pb_manager pb = StartAll (ma_mgr env) (ma_order env)
       (InitFromConfig (ma_mgr env) (cg_Collectors cfg) (NewManager k (cg_ProbeID cfg)))"
  using assms by (auto simp: main_start_def Let_def split: if_splits outcome.splits prod.splits)

lemma main_start_runs:
  assumes "loadConfig env path = Ok cfg" and "DetectCapabilities (ma_kernel env) = Ok k"
  shows "\<exists>pb fx. main_start env path False = Running pb fx \<and> pb_config pb = cfg"
  using assms by (cases "main_writers (ma_db env) cfg"; cases "main_k8s env cfg") (simp add: main_start_def Let_def)



definition config_edge :: Config where
  "config_edge = \<lparr>cg_ProbeID = ''p'', cg_Interface = '''', cg_APIPort = ''9090'', cg_ClickhouseAddr = '''',
     cg_ClickhouseUser = '''', cg_ClickhousePassword = '''', cg_ClickhouseDatabase = '''', cg_EdgeAddr = ''edge:80'',
     cg_Collectors = cfg_tls,
     cg_TLS = \<lparr>xt_Enabled = True, xt_Libraries = [], xt_CaptureHandshake = True\<rparr>,
     cg_HTTP2 = \<lparr>xh_Enabled = False, xh_DecodeHPACK = False\<rparr>,
     cg_Sniffer = \<lparr>xs_Enabled = False, xs_Protocols = [], xs_PortOverride = Map.empty\<rparr>,
     cg_LogCollect = \<lparr>xl_Enabled = False, xl_BufferSize = 0, xl_MaxLineLength = 0, xl_FilterPatterns = []\<rparr>,
     cg_Kubernetes = \<lparr>xk_Enabled = False, xk_Mode = '''', xk_APIServer = '''', xk_TokenPath = '''', xk_NamespaceFilter = '''',
       xk_PodLabelSelector = '''', xk_NodeName = '''', xk_EnrichEvents = False\<rparr>,
     cg_OffsetsMode = ''auto'', cg_OffsetsManualPath = '''', cg_LogLevel = ''''\<rparr>"

definition db_fine :: ch_db where
  "db_fine = \<lparr>db_Open = \<lambda>_. None, db_Ping = None, db_CreateTable = \<lambda>_. None, db_ExecRow = \<lambda>_. None, db_Begin = None,
     db_Prepare = None, db_Exec = \<lambda>_. None, db_Commit = None, db_Close = None\<rparr>"


definition k8s_absent :: k8s_env where
  "k8s_absent = \<lparr>kv_inCluster = False, kv_home = '''', kv_stat = \<lambda>_. False, kv_build = None, kv_read = \<lambda>_. Inl '''',
     kv_newForConfig = None, kv_hostname = ''host'', kv_podInformer = \<lparr>in_List = [], in_ByIndex = \<lambda>_ _. Inr [], in_HasSynced = True\<rparr>,
     kv_podSync = True, kv_nodeInformer = \<lparr>in_List = [], in_ByIndex = \<lambda>_ _. Inr [], in_HasSynced = True\<rparr>,
     kv_nodeSync = True\<rparr>"

definition main_fine :: "unit main_env" where
  "main_fine = \<lparr>ma_read = \<lambda>_. Inr '''', ma_yaml = \<lambda>_. Inr config_edge, ma_getenv = \<lambda>_. '''',
     ma_kernel = \<lparr>ke_uname = Inr ''5.4.0'', ke_stat = \<lambda>_. False, ke_read = \<lambda>_. Some ''kprobe_dispatcher'', ke_tc = False\<rparr>,
     ma_db = db_fine, ma_mgr = env_fine, ma_order = [''tls_trace''],
     ma_k8s = k8s_absent, ma_lru = \<lambda>_. Inl ''''\<rparr>"






section \<open>Which collectors a probe runs\<close>

text \<open>C15.  The collectors of a started probe, from the configuration file and the state of the kernel: the TLS
  collector exists exactly when it is enabled, \<open>/proc/kallsyms\<close> shows kprobes or tracepoints and the eBPF
  library serves it; the HTTP/2 collector needs kprobes, the log collector tracepoints; the fourteen other
  flags of the configuration create nothing.  When \<open>/proc\<close> can be listed, all of them run.\<close>

theorem probe_collectors_exact:
  assumes "main_start env path v = Running pb fx" and "distinct (ma_order env)"
    and "{''tls_trace'', ''http2_trace'', ''log_collect''} \<subseteq> set (ma_order env)"
  shows "(''tls_trace'' \<in> dom (mg_collectors (pb_manager pb)) \<longleftrightarrow>
      cc_TLSTrace (cg_Collectors (pb_config pb)) \<and> (checkKprobe (ma_kernel env) \<or> checkTracepoint (ma_kernel env)) \<and>
      bpf_ok (me_bpf (ma_mgr env) ''tls_trace'')) \<and>
    (''http2_trace'' \<in> dom (mg_collectors (pb_manager pb)) \<longleftrightarrow>
      cc_HTTP2Trace (cg_Collectors (pb_config pb)) \<and> checkKprobe (ma_kernel env) \<and>
      bpf_ok (me_bpf (ma_mgr env) ''http2_trace'')) \<and>
    (''log_collect'' \<in> dom (mg_collectors (pb_manager pb)) \<longleftrightarrow>
      cc_LogCollect (cg_Collectors (pb_config pb)) \<and> checkTracepoint (ma_kernel env) \<and>
      bpf_ok (me_bpf (ma_mgr env) ''log_collect'')) \<and>
    dom (mg_collectors (pb_manager pb)) \<subseteq> {''tls_trace'', ''http2_trace'', ''log_collect''} \<and>
    (isl (pr_readdir (me_proc (ma_mgr env))) \<or> (\<forall>c \<in> ran (mg_collectors (pb_manager pb)). c_running c))"
proof -
  obtain cfg k where k: "DetectCapabilities (ma_kernel env) = Ok k" and cfg: "pb_config pb = cfg"
    and m: "pb_manager pb = StartAll (ma_mgr env) (ma_order env)
       (InitFromConfig (ma_mgr env) (cg_Collectors cfg) (NewManager k (cg_ProbeID cfg)))" (is "_ = StartAll _ _ ?m")
    using assms(1) by (rule main_start_parts)
  note lookup = InitFromConfig_lookup [of "ma_mgr env" "cg_Collectors cfg" k "cg_ProbeID cfg"]
  have started: "mg_collectors (pb_manager pb) n = map_option (\<lambda>c. fst (c_Start (ma_mgr env) c)) (mg_collectors ?m n)" for n
  proof (cases "n \<in> set (ma_order env)")
    case True
    then show ?thesis unfolding m by (simp add: StartAll_map [OF assms(2)])
  next
    case False
    then have "mg_collectors ?m n = None" using lookup(4) assms(3) by (auto simp: domIff)
    with False show ?thesis unfolding m by (simp add: StartAll_map [OF assms(2)])
  qed
  then have dom: "dom (mg_collectors (pb_manager pb)) = dom (mg_collectors ?m)" by (auto simp: dom_def)
  have "isl (pr_readdir (me_proc (ma_mgr env))) \<or> (\<forall>c \<in> ran (mg_collectors (pb_manager pb)). c_running c)"
    using c_Start_props(1) [of "ma_mgr env"] by (auto simp: ran_def started)
  with lookup(1-4) show ?thesis
    unfolding dom cfg using DetectCapabilities_fields(1,2) [OF k] by (simp add: domIff)
qed

definition main_fine3 :: "unit main_env" where
  "main_fine3 = main_fine\<lparr>ma_order := [''tls_trace'', ''http2_trace'', ''log_collect'']\<rparr>"

theorem probe_collectors_exact_witness:
  "\<exists>pb fx. main_start main_fine3 ''config.yaml'' False = Running pb fx \<and>
     dom (mg_collectors (pb_manager pb)) = {''tls_trace''}"
proof -
  have "\<exists>k. DetectCapabilities (ma_kernel main_fine3) = Ok k"
    by (simp add: main_fine3_def main_fine_def DetectCapabilities_def getKernelVersion_def Let_def)
  moreover have "loadConfig main_fine3 ''config.yaml'' = Ok config_edge"
    by (simp add: main_fine3_def main_fine_def loadConfig_def)
  ultimately obtain pb fx where pb: "main_start main_fine3 ''config.yaml'' False = Running pb fx" "pb_config pb = config_edge"
    using main_start_runs by blast
  have "distinct (ma_order main_fine3)" "{''tls_trace'', ''http2_trace'', ''log_collect''} \<subseteq> set (ma_order main_fine3)"
    by (simp_all add: main_fine3_def)
  note exact = probe_collectors_exact [OF pb(1) this]
  have "Contains ''kprobe_dispatcher'' ''kprobe_dispatcher''" by (simp add: Contains_def HasPrefix_def)
  then have "checkKprobe (ma_kernel main_fine3)"
    by (simp add: main_fine3_def main_fine_def checkKprobe_def scan_lines_def Split_last drop_cr_def TrimSuffix_def HasSuffix_def)
  moreover have "bpf_ok (me_bpf (ma_mgr main_fine3) n)" for n
    by (simp add: main_fine3_def main_fine_def env_fine_def bpf_ok_def)
  ultimately show ?thesis using exact pb by (auto simp: config_edge_def cfg_tls_def)
qed

end
