(* ===== verification/Spec2Isabelle.thy ===== *)
theory Spec2Isabelle
  imports Http2 Tls Sniffer Perf Output Manager Vtap Docker Offset Ping Cloud Probe
begin

text \<open>
  Verification of the eBPF probe's user-space code (\<open>src/\<close>, Go).

  \<^bold>\<open>The program.\<close>  \<open>main\<close> loads a configuration, asks the kernel which hooks it has, builds the writers (edge
  server, ClickHouse), the collectors and the Kubernetes integration, starts them and waits for a
  signal.  Collectors read records of eBPF programs from ring buffers, or packets from a socket; the
  parsers and the sniffer recognise and decode application protocols in payloads; mappers and an
  enricher add container, cloud and pod metadata; every event goes through the multi-writer to all
  writers, which send it in batches.  Every Go file is modelled, function by function, in the theory
  named here.

  \<^item> \<open>Mysql\<close>, \<open>Redis\<close>, \<open>Http2\<close>, \<open>Kafka\<close>, \<open>Dubbo\<close>, \<open>Tls\<close>: the parsers of \<open>src/pkg/protocol\<close> (\<open>mysql.go\<close>,
    \<open>redis.go\<close>, \<open>http2.go\<close> with its HPACK decoder, \<open>kafka.go\<close>, \<open>dubbo.go\<close> with its Hessian reader, \<open>https.go\<close>).
    A Go function that returns a value and an error, and may panic, is a function into \<open>outcome\<close>; every
    \<open>fmt.Errorf\<close> is a constructor of the file's error type; index and slice expressions panic as in Go.
  \<^item> \<open>Sniffer\<close>: \<open>sniffer.go\<close>, which chooses the protocol by configured port, well-known port and payload,
    and dispatches to the parsers.
  \<^item> \<open>Perf\<close>: \<open>src/pkg/perf/analyzer.go\<close>, the CPU, memory and block-I/O analyzers and the readers of \<open>/proc\<close>.
  \<^item> \<open>Output\<close>: \<open>src/internal/output\<close>, the edge client with its retries, the ClickHouse writer and the
    writer that fans out to both.
  \<^item> \<open>Pcap\<close> and \<open>Vtap\<close>: \<open>src/internal/collector/vtap.go\<close>, the pcap writer over a file system with inodes (with
    \<open>time.ParseDuration\<close>), the forwarder, and the collector, whose goroutines are the rules of \<open>vtap_step\<close>.
  \<^item> \<open>Collectors\<close>: \<open>tls_trace.go\<close>, \<open>http2_trace.go\<close> and \<open>log_collect.go\<close>; their common loop is \<open>event_loop\<close>, over the
    list of what its turns see.  \<open>Manager\<close>: \<open>manager.go\<close>.  \<open>Ping\<close>: \<open>pingtrace.go\<close>.  \<open>Docker\<close>: \<open>docker.go\<close>.
    \<open>Cloud\<close>: \<open>cloud_metadata.go\<close>.
  \<^item> \<open>K8s\<close>: \<open>src/internal/k8s\<close>, the client and the enricher.  \<open>Kernel\<close>: \<open>src/internal/kernel/detector.go\<close>.
    \<open>Offset\<close>: \<open>src/pkg/offset/detector.go\<close> with its two embedded tables.
  \<^item> \<open>Probe\<close>: \<open>src/cmd/probe/main.go\<close>, which composes all of these.

  \<^bold>\<open>The library below.\<close>  \<open>Go_Prelude\<close> has outcomes, byte slices and \<open>encoding/binary\<close>, with the lemmas that
  relate shifts and disjunctions to numbers and that read back what was written; \<open>Go_Strings\<close> has the
  functions of \<open>strings\<close>, \<open>strconv\<close>, \<open>bufio\<close> and \<open>fmt\<close> the sources call.  Four interfaces are locales:
  \<open>length_prefixed\<close> (\<open>Framing\<close>) is the contract of a parser of length-prefixed frames, interpreted for MySQL
  packets, HTTP/2 frames and TLS records; \<open>cursor_reader\<close> (\<open>Dubbo\<close>) is the contract of a read operation
  with a cursor, interpreted for the four operations of the Hessian reader; \<open>event_writer\<close> (\<open>Output\<close>) is
  the contract of a writer, interpreted for the edge client and the ClickHouse writer; \<open>lifecycle\<close>
  (\<open>Lifecycle\<close>) is the contract of a component with a stop channel, interpreted for the vTap, TLS, HTTP/2,
  log and ping collectors, for the collectors of the manager, the Kubernetes client and the enricher.

  \<^bold>\<open>What is shown.\<close>  For each parser: that it reads back what the protocol's writer writes, whatever bytes
  follow, for all values the wire format can carry (packets, length-encoded integers, handshakes, RESP
  values nested to any depth, frames, settings, header blocks, requests, records, ClientHello messages,
  strings); which inputs it rejects; and exactly which inputs make it panic, or that none does.  Where
  the code departs from the protocol the theorem states what it does instead: the scaled HPACK integers,
  the four bytes counted for a RESP null, the 16-bit record bound, the handshake length that is not
  skipped, the Kafka null string, the Dubbo message type.  For the sniffer: the evidence behind every
  verdict and the traffic that crashes it or that it misses.  For the analyzers: that the ranking is
  the ranking, for every order in which Go visits a map, and that the memory balance is exact.  For the
  writers: that every event handed over is accounted for, sequentially and under any interleaving of
  flushes and retries (an inductive step relation that the sequential code refines), and the exact
  delays between retries.  For the pcap writer: the files refine an abstract capture, a list of periods with
  their packets, and a reader of the format gets the packets back.  For the vTap collector: the invariant
  of its queue and counters.  For the collectors: when their loops return, that every record read reaches
  every writer, which records crash them, and which sequences of starts and stops do.  For the tracer:
  that hops and statistics are those of a reference definition of the path.  For the mappers, the
  enricher and the detectors: where each piece of metadata comes from, for every state of the machine.
  For the whole program: which collectors a configuration and a kernel give, and that a record read by
  a collector reaches the servers by the time the shutdown returns.

  \<^bold>\<open>Choices.\<close>  A 64-bit platform: \<open>int\<close> is 64 bits.  Fixed-width fields are words of that width and wrap
  around; offsets into a slice are natural numbers, which cannot overflow because they are bounded by
  the length of the slice plus a 32-bit length.  The capacity of a slice is its length.  No definition
  needs fuel: every loop over data is a recursive function with a termination proof (the decreasing
  measure is the distance to the end of the data; the HPACK loop ends because each field consumes a
  byte, the RESP recursion because an element starts behind the header of its array), and a loop that
  runs until it is stopped is a function of the list of its turns, or a step relation.  Code outside
  \<open>src/\<close> is a parameter: the answers of the network, the JSON and YAML codecs, the database, the eBPF library,
  the informers and the LRU cache (with the predicate \<open>lru_laws\<close>), the contents of \<open>/proc\<close> and \<open>/sys\<close>, the
  formatting of times (with the predicate \<open>names_seconds\<close>), Unicode upper-casing (\<open>uni\<close>), and the four
  parsers \<open>ParseL7Event\<close> calls that the repository does not define.  The order in which Go visits a map is
  a parameter.  Floating-point percentages are exact rationals.

  \<^bold>\<open>Not modelled.\<close>  Log lines, unless they report an error of a writer; the printing of a trace
  (\<open>FormatTracePath\<close>); flag parsing and the listening socket of the API; structures no function builds.
  The eBPF programs in C, the YAML files and the build are outside the Go sources.
\<close>

section \<open>From the wire to the event\<close>

lemma resp_text_head:
  assumes "resp_plain r"
  shows "\<exists>b rest. bytes_of (resp_text r) = b # rest \<and> b \<in> resp_marks"
proof (cases r)
  case (RedisRESP t v)
  with assms show ?thesis by (cases v) (auto simp: resp_marks_def)
qed

text \<open>C1.  Redis traffic from the wire to the event: every RESP value without nulls, of at least four bytes,
  nested to any depth, seen on the Redis port (and no other well-known one) is recognised as Redis, and
  dispatching on that verdict returns the value that was sent, whatever follows it in the segment.\<close>

theorem redis_traffic_end_to_end:
  assumes "resp_plain r" and "4 \<le> length (resp_text r @ rest)"
    and "portOverride s dstPort = None" and "portOverride s srcPort = None"
    and "detectByPort srcPort dstPort = L7ProtocolRedis"
  shows "\<exists>p. DetectProtocol uni s (bytes_of (resp_text r @ rest)) srcPort dstPort = (Ok p :: (l7_error, L7Protocol) outcome) \<and>
    ParseL7Event ps (bytes_of (resp_text r @ rest)) p = Ok (EvRedis r)"
proof -
  let ?d = "bytes_of (resp_text r @ rest)"
  have "?d ! 0 \<in> resp_marks" using resp_text_head [OF assms(1)] by auto
  then have "verifyRedis uni ?d" using assms(2) by (simp add: verifyRedis_def)
  then have "DetectProtocol uni s ?d srcPort dstPort = (Ok L7ProtocolRedis :: (l7_error, L7Protocol) outcome)"
    using assms(2-) by (simp add: DetectProtocol_def verifyProtocol_def)
  then show ?thesis
    using ParseRedisPacket_text [OF assms(1), of rest] by (simp add: ParseL7Event_def omap_def)
qed

definition no_parsers :: "(unit, unit, unit, unit) l7_parsers" where
  "no_parsers = \<lparr>lp_ParseHTTPRequest = (\<lambda>_. Err ''http''), lp_ParseKafkaPacket = (\<lambda>_. Err ''kafka''),
     lp_ParseDubboPacket = (\<lambda>_. Err ''dubbo''), lp_ParseDNSPacket = (\<lambda>_. Err ''dns'')\<rparr>"

theorem redis_traffic_end_to_end_witness:
  "\<exists>p. DetectProtocol id (NewL7Sniffer None) (bytes_of (resp_text resp_example @ [])) 50000 6379 =
      (Ok p :: (l7_error, L7Protocol) outcome) \<and>
    ParseL7Event no_parsers (bytes_of (resp_text resp_example @ [])) p = Ok (EvRedis resp_example)"
proof (rule redis_traffic_end_to_end)
  show "resp_plain resp_example" by (simp add: resp_example_def Contains_def HasPrefix_def crlf_def)
  show "4 \<le> length (resp_text resp_example @ [])" by (simp add: resp_example_def crlf_def)
qed (simp_all add: NewL7Sniffer_def detectByPort_def)

section \<open>Starting again\<close>











end
